(* ===== verification/Prelude.thy ===== *)
theory Prelude
  imports Main "HOL-Library.AList" "HOL-Library.Char_ord" "HOL-Library.List_Lexorder"
    "HOL-Library.Sublist"
begin

text \<open>
  Shared vocabulary of the development.
  A Go call that talks to the API server, the file system or a Lua interpreter is an action:
  a function from the state of the outside world to an outcome and the next world. An outcome
  is a value (\<open>Ok\<close>), a returned \<open>error\<close> (\<open>Err\<close>), or a run-time panic (\<open>Panic\<close>),
  which no caller in this program recovers from and which therefore ends the process.
  The combinator \<open>call\<close> is the idiom \<^verbatim>\<open>x, err := f(); if err != nil { h }; k\<close>.
  \<open>wp\<close> is the weakest precondition of an action; its equations are the collection \<open>wp_eqs\<close>.
  Go maps are association lists: the order of the list is the order of a \<^verbatim>\<open>range\<close> loop over the
  map, which Go leaves open; every theorem holds for every order of the list.
  The string functions are those of Go's package strings that the program calls.
\<close>

named_theorems wp_eqs \<open>equations that push a weakest precondition through an action\<close>
named_theorems go_map \<open>lookup after update, deletion and iteration of Go maps\<close>

section \<open>Errors, panics and actions\<close>

text \<open>The error classes the program tests for; every other error keeps its message only.\<close>

datatype go_error =
    NotFound
  | AlreadyExists
  | Conflict
  | NoMatch
  | Unauthorized
  | Forbidden
  | Other string

datatype 'a outcome = Ok 'a | Err go_error | Panic

type_synonym ('w, 'a) act = "'w \<Rightarrow> 'a outcome \<times> 'w"

definition ret :: "'a \<Rightarrow> ('w, 'a) act" where
  "ret x w = (Ok x, w)"

definition fail :: "go_error \<Rightarrow> ('w, 'a) act" where
  "fail e w = (Err e, w)"

definition panic :: "('w, 'a) act" where
  "panic w = (Panic, w)"

definition lift_outcome :: "'a outcome \<Rightarrow> ('w, 'a) act" where
  "lift_outcome r w = (r, w)"

definition call ::
  "('w, 'a) act \<Rightarrow> (go_error \<Rightarrow> ('w, 'b) act) \<Rightarrow> ('a \<Rightarrow> ('w, 'b) act) \<Rightarrow> ('w, 'b) act" where
  "call f h k w =
     (case f w of
        (Ok x, w') \<Rightarrow> k x w'
      | (Err e, w') \<Rightarrow> h e w'
      | (Panic, w') \<Rightarrow> (Panic, w'))"

text \<open>The commonest handler returns the error unchanged.\<close>

abbreviation andThen :: "('w, 'a) act \<Rightarrow> ('a \<Rightarrow> ('w, 'b) act) \<Rightarrow> ('w, 'b) act" where
  "andThen f k \<equiv> call f fail k"

text \<open>\<^verbatim>\<open>defer d()\<close>: \<open>d\<close> runs however the rest of the function ends; its result is dropped.\<close>

definition deferring :: "('w, unit) act \<Rightarrow> ('w, 'a) act \<Rightarrow> ('w, 'a) act" where
  "deferring d f w = (case f w of (r, w') \<Rightarrow> (r, snd (d w')))"

text \<open>A loop that stops at the first error and threads an accumulator.\<close>

fun foldA :: "('b \<Rightarrow> 'a \<Rightarrow> ('w, 'b) act) \<Rightarrow> 'b \<Rightarrow> 'a list \<Rightarrow> ('w, 'b) act" where
  "foldA f acc [] = ret acc"
| "foldA f acc (x # xs) = andThen (f acc x) (\<lambda>acc'. foldA f acc' xs)"

definition wp :: "('w, 'a) act \<Rightarrow> ('a outcome \<Rightarrow> 'w \<Rightarrow> bool) \<Rightarrow> 'w \<Rightarrow> bool" where
  "wp f Q w = (case f w of (r, w') \<Rightarrow> Q r w')"

section \<open>Strings\<close>

text \<open>\<^verbatim>\<open>strings.Split(s, sep)\<close> for a separator of one byte.\<close>

fun split_on :: "char \<Rightarrow> string \<Rightarrow> string list" where
  "split_on c [] = [[]]"
| "split_on c (x # xs) =
     (if x = c then [] # split_on c xs
      else (case split_on c xs of [] \<Rightarrow> [[x]] | y # ys \<Rightarrow> (x # y) # ys))"

text \<open>Parts joined by a separator of one byte.\<close>

fun join_with :: "char \<Rightarrow> string list \<Rightarrow> string" where
  "join_with c [] = []"
| "join_with c [x] = x"
| "join_with c (x # y # ys) = x @ c # join_with c (y # ys)"

text \<open>\<^verbatim>\<open>%d\<close> of an unsigned number.\<close>

fun show_nat :: "nat \<Rightarrow> string" where
  "show_nat n =
     (if n < 10 then [char_of (48 + n)] else show_nat (n div 10) @ [char_of (48 + n mod 10)])"

declare show_nat.simps [simp del]

section \<open>Go maps\<close>

type_synonym ('k, 'v) gomap = "('k \<times> 'v) list"

abbreviation keys :: "('k, 'v) gomap \<Rightarrow> 'k set" where
  "keys m \<equiv> fst ` set m"

abbreviation put :: "'k \<Rightarrow> 'v \<Rightarrow> ('k, 'v) gomap \<Rightarrow> ('k, 'v) gomap" where
  "put k v m \<equiv> AList.update k v m"

abbreviation del :: "'k \<Rightarrow> ('k, 'v) gomap \<Rightarrow> ('k, 'v) gomap" where
  "del k m \<equiv> AList.delete k m"

abbreviation gomap_ok :: "('k, 'v) gomap \<Rightarrow> bool" where
  "gomap_ok m \<equiv> distinct (map fst m)"

section \<open>Lemmas on actions\<close>

lemma wp_ret [wp_eqs, simp]: "wp (ret x) Q w = Q (Ok x) w"
  by (simp add: wp_def ret_def)

lemma wp_fail [wp_eqs, simp]: "wp (fail e) Q w = Q (Err e) w"
  by (simp add: wp_def fail_def)

lemma wp_panic [wp_eqs, simp]: "wp panic Q w = Q Panic w"
  by (simp add: wp_def panic_def)

lemma wp_lift_outcome [wp_eqs, simp]: "wp (lift_outcome r) Q w = Q r w"
  by (simp add: wp_def lift_outcome_def)

lemma wp_call [wp_eqs]:
  "wp (call f h k) Q w =
     wp f (\<lambda>r w'. case r of Ok x \<Rightarrow> wp (k x) Q w' | Err e \<Rightarrow> wp (h e) Q w' | Panic \<Rightarrow> Q Panic w') w"
  by (auto simp: wp_def call_def split: prod.splits outcome.splits)

lemma wp_deferring [wp_eqs]:
  "wp (deferring d f) Q w = wp f (\<lambda>r w'. wp d (\<lambda>_. Q r) w') w"
  by (auto simp: wp_def deferring_def split: prod.splits)

lemma wp_if [wp_eqs]: "wp (if b then f else g) Q w = (if b then wp f Q w else wp g Q w)"
  by simp

lemma wp_conseq: "wp f P w \<Longrightarrow> (\<And>r w'. P r w' \<Longrightarrow> Q r w') \<Longrightarrow> wp f Q w"
  by (auto simp: wp_def split: prod.splits)

lemma wpI: "(\<And>r w'. f w = (r, w') \<Longrightarrow> Q r w') \<Longrightarrow> wp f Q w"
  by (auto simp: wp_def split: prod.splits)

lemma wpD: "wp f Q w \<Longrightarrow> f w = (r, w') \<Longrightarrow> Q r w'"
  by (simp add: wp_def)

lemma call_ret [simp]: "call (ret x) h k = k x"
  by (auto simp: call_def ret_def)

lemma call_fail [simp]: "call (fail e) h k = h e"
  by (auto simp: call_def fail_def)

lemma andThen_ret [simp]: "andThen f ret = f"
  by (rule ext) (simp add: call_def ret_def fail_def split: prod.splits outcome.splits)

lemma andThen_assoc: "andThen (andThen f g) h = andThen f (\<lambda>x. andThen (g x) h)"
  by (rule ext) (simp add: call_def fail_def split: prod.splits outcome.splits)

lemma andThen_OkE:
  assumes "andThen f k w = (Ok u, w')"
  obtains x w1 where "f w = (Ok x, w1)" "k x w1 = (Ok u, w')"
  using assms by (auto simp: call_def fail_def split: prod.splits outcome.splits)

lemma call_Ok: "f w = (Ok x, w') \<Longrightarrow> call f h k w = k x w'"
  by (simp add: call_def)

lemma call_Err: "f w = (Err e, w') \<Longrightarrow> call f h k w = h e w'"
  by (simp add: call_def)

lemma call_Panic: "f w = (Panic, w') \<Longrightarrow> call f h k w = (Panic, w')"
  by (simp add: call_def)

lemmas run_act = call_Ok call_Err call_Panic ret_def fail_def

lemma foldA_append: "foldA f acc (xs @ ys) = andThen (foldA f acc xs) (\<lambda>acc'. foldA f acc' ys)"
proof (induction xs arbitrary: acc)
  case Nil
  show ?case by simp
next
  case (Cons x xs)
  show ?case
    by (rule ext) (simp add: Cons.IH call_def fail_def split: prod.splits outcome.splits)
qed

text \<open>Frames: what an action leaves alone.\<close>

lemma frame_call:
  assumes "rest (snd (f w)) = rest w"
    and "\<And>x w'. f w = (Ok x, w') \<Longrightarrow> rest (snd (k x w')) = rest w'"
    and "\<And>e w'. f w = (Err e, w') \<Longrightarrow> rest (snd (h e w')) = rest w'"
  shows "rest (snd (call f h k w)) = rest w"
  using assms by (auto simp: call_def split: prod.splits outcome.splits)

lemma frame_deferring:
  assumes "rest (snd (f w)) = rest w" and "\<And>w'. rest (snd (d w')) = rest w'"
  shows "rest (snd (deferring d f w)) = rest w"
  using assms by (auto simp: deferring_def split: prod.splits)

lemma frame_ret_fail [simp]: "snd (ret x w) = w" "snd (fail e w) = w" "snd (panic w) = w"
  "snd (lift_outcome r w) = w"
  by (simp_all add: ret_def fail_def panic_def lift_outcome_def)

lemma frame_foldA:
  assumes "\<And>acc x w. x \<in> set xs \<Longrightarrow> rest (snd (f acc x w)) = rest w"
  shows "rest (snd (foldA f acc xs w)) = rest w"
  using assms
proof (induction xs arbitrary: acc w)
  case Nil
  show ?case by simp
next
  case (Cons x xs)
  show ?case
    unfolding foldA.simps by (rule frame_call) (simp_all add: Cons)
qed

section \<open>Lemmas on strings\<close>

lemma split_on_nonempty [simp]: "split_on c s \<noteq> []"
  by (induction s) (auto split: list.splits)

lemma length_split_on: "length (split_on c s) = Suc (count_list s c)"
  by (induction s) (auto split: list.splits)

lemma split_on_none: "c \<notin> set s \<Longrightarrow> split_on c s = [s]"
  by (induction s) auto

lemma split_on_append: "c \<notin> set a \<Longrightarrow> split_on c (a @ c # b) = a # split_on c b"
  by (induction a) auto

lemma split_on_Cons_sep [simp]: "split_on c (c # b) = [] # split_on c b"
  by simp

lemma join_with_Cons:
  "ys \<noteq> [] \<Longrightarrow> join_with c (x # ys) = x @ c # join_with c ys"
  by (cases ys) auto

lemma split_join:
  "xs \<noteq> [] \<Longrightarrow> (\<forall>x \<in> set xs. c \<notin> set x) \<Longrightarrow> split_on c (join_with c xs) = xs"
  by (induction c xs rule: join_with.induct) (auto simp: split_on_none split_on_append)

lemma join_split: "join_with c (split_on c s) = s"
proof (induction s)
  case Nil
  show ?case by simp
next
  case (Cons x s)
  then show ?case
    by (cases "split_on c s" rule: list.exhaust; cases "tl (split_on c s)")
      (auto simp: join_with_Cons split: list.splits)
qed

section \<open>Lemmas on Go maps\<close>

lemma map_of_put [go_map, simp]: "map_of (put k v m) = (map_of m)(k \<mapsto> v)"
  by (rule update_conv')

lemma map_of_del [go_map, simp]: "map_of (del k m) = (map_of m)(k := None)"
  by (rule delete_conv')

lemma gomap_ok_put [simp]: "gomap_ok m \<Longrightarrow> gomap_ok (put k v m)"
  by (rule distinct_update)

lemma gomap_ok_del [simp]: "gomap_ok m \<Longrightarrow> gomap_ok (del k m)"
  by (rule distinct_delete)

lemma keys_dom: "keys m = dom (map_of m)"
  by (simp add: dom_map_of_conv_image_fst)

lemma keys_put [go_map, simp]: "keys (put k v m) = insert k (keys m)"
  by (simp add: keys_dom)

lemma keys_del [go_map, simp]: "keys (del k m) = keys m - {k}"
  by (simp add: keys_dom)

lemma map_of_map_value [go_map]:
  "map_of (map (\<lambda>(k, v). (k, f k v)) m) k = map_option (f k) (map_of m k)"
  by (induction m) auto

text \<open>A loop that visits every entry once and keeps or drops it: the result is pointwise.\<close>

lemma map_of_filter_map [go_map]:
  "gomap_ok m \<Longrightarrow>
   map_of (filter (\<lambda>(k, v). P k v) m) k =
     (case map_of m k of None \<Rightarrow> None | Some v \<Rightarrow> if P k v then Some v else None)"
  by (induction m) (auto split: option.splits dest: map_of_SomeD simp: rev_image_eqI)

lemma gomap_ok_filter [simp]: "gomap_ok m \<Longrightarrow> gomap_ok (filter P m)"
  by (induction m) (auto simp: image_iff)

lemma gomap_ok_map_value [simp]: "gomap_ok (map (\<lambda>(k, v). (k, f k v)) m) = gomap_ok m"
  by (simp add: comp_def case_prod_beta)

end
