(* ===== verification/Kube.thy ===== *)
theory Kube
  imports Prelude
begin

text \<open>
  The Kubernetes vocabulary the agent is written in: object metadata, group-version-kinds,
  object references, the selectors of the Sveltos resources, and the typed client through
  which every controller and every evaluation reads and writes objects.
  The client is a parameter (a record of actions): its code is controller-runtime and the API
  server. What the agent relies on is the locale \<open>api_client\<close>, the documented contract of a
  client for one kind of object: what a Get returns, that Create and Update ignore the status of
  an object whose status is a subresource, that a status update changes the status only, and that
  Delete of an object with finalizers only stamps it. The theory \<open>Api_Server\<close> gives a server
  that satisfies the contract.
\<close>

section \<open>Objects\<close>

text \<open>metav1.ObjectMeta, the fields the agent reads. A nil Go map is \<open>None\<close>; a zero
  DeletionTimestamp is \<open>None\<close>.\<close>

record object_meta =
  om_Namespace :: string
  om_Name :: string
  om_Labels :: "(string, string) gomap option"
  om_Annotations :: "(string, string) gomap option"
  om_Finalizers :: "string list"
  om_DeletionTimestamp :: "nat option"
  om_ResourceVersion :: nat

datatype report_phase = ReportWaitingForDelivery | ReportProcessed | OtherPhase string

text \<open>Every resource of the agent is metadata, a spec and, for the reports, a status whose only
  field here is the delivery phase (a nil pointer is \<open>None\<close>).\<close>

record 'spec kobject =
  metadata :: object_meta
  Spec :: 'spec
  status_Phase :: "report_phase option"

text \<open>schema.GroupVersionKind.\<close>

datatype gvk = GVK (gvk_Group: string) (gvk_Version: string) (gvk_Kind: string)

text \<open>corev1.ObjectReference, the fields the agent sets; it is a key of the reloader maps.\<close>

record object_reference =
  or_Kind :: string
  or_Namespace :: string
  or_Name :: string
  or_APIVersion :: string

text \<open>The operation of a label filter is a string; the code only asks whether it is Equal.\<close>

datatype label_operation = OperationEqual | OtherOperation string

record label_filter =
  lf_Key :: string
  lf_Operation :: label_operation
  lf_Value :: string

record resource_selector =
  rs_Group :: string
  rs_Version :: string
  rs_Kind :: string
  rs_LabelFilters :: "label_filter list"
  rs_Namespace :: string
  rs_Name :: string
  rs_Evaluate :: string

abbreviation obj_key :: "'spec kobject \<Rightarrow> string \<times> string" where
  "obj_key x \<equiv> (om_Namespace (metadata x), om_Name (metadata x))"

definition set_version :: "nat \<Rightarrow> 'spec kobject \<Rightarrow> 'spec kobject" where
  "set_version v x = x\<lparr>metadata := (metadata x)\<lparr>om_ResourceVersion := v\<rparr>\<rparr>"

definition set_deletion :: "nat option \<Rightarrow> 'spec kobject \<Rightarrow> 'spec kobject" where
  "set_deletion t x = x\<lparr>metadata := (metadata x)\<lparr>om_DeletionTimestamp := t\<rparr>\<rparr>"

definition empty_meta :: "string \<Rightarrow> string \<Rightarrow> object_meta" where
  "empty_meta ns n =
     \<lparr>om_Namespace = ns, om_Name = n, om_Labels = None, om_Annotations = None,
      om_Finalizers = [], om_DeletionTimestamp = None, om_ResourceVersion = 0\<rparr>"

text \<open>The idiom \<^verbatim>\<open>if x.Labels == nil { x.Labels = map[string]string{} }; x.Labels[k] = v\<close>.\<close>

definition set_label :: "string \<Rightarrow> string \<Rightarrow> 'spec kobject \<Rightarrow> 'spec kobject" where
  "set_label k v x =
     x\<lparr>metadata := (metadata x)\<lparr>om_Labels :=
        Some (put k v (case om_Labels (metadata x) of None \<Rightarrow> [] | Some ls \<Rightarrow> ls))\<rparr>\<rparr>"

definition label_of :: "'spec kobject \<Rightarrow> string \<Rightarrow> string option" where
  "label_of x k = (case om_Labels (metadata x) of None \<Rightarrow> None | Some ls \<Rightarrow> map_of ls k)"

section \<open>The order of group-version-kinds\<close>

text \<open>Group first, then version, then kind, as the comparison function in watchers.go has it.\<close>

instantiation gvk :: linorder
begin

definition less_gvk :: "gvk \<Rightarrow> gvk \<Rightarrow> bool" where
  "less_gvk a b \<longleftrightarrow>
     (if gvk_Group a \<noteq> gvk_Group b then gvk_Group a < gvk_Group b
      else if gvk_Version a \<noteq> gvk_Version b then gvk_Version a < gvk_Version b
      else if gvk_Kind a \<noteq> gvk_Kind b then gvk_Kind a < gvk_Kind b
      else False)"

definition less_eq_gvk :: "gvk \<Rightarrow> gvk \<Rightarrow> bool" where
  "less_eq_gvk a b \<longleftrightarrow> a < b \<or> a = b"

instance
  by standard
    (auto simp: less_gvk_def less_eq_gvk_def gvk.expand split: if_splits
      intro: less_trans dest: less_asym)

end

section \<open>The typed client\<close>

text \<open>Get takes a namespace and a name. Create, Update and the status update also hand the server's
  copy of the object back, since controller-runtime writes it into the caller's object.\<close>

record ('w, 'spec) client =
  cl_Get :: "string \<Rightarrow> string \<Rightarrow> ('w, 'spec kobject) act"
  cl_List :: "('w, 'spec kobject list) act"
  cl_Create :: "'spec kobject \<Rightarrow> ('w, 'spec kobject) act"
  cl_Update :: "'spec kobject \<Rightarrow> ('w, 'spec kobject) act"
  cl_StatusUpdate :: "'spec kobject \<Rightarrow> ('w, 'spec kobject) act"
  cl_Delete :: "'spec kobject \<Rightarrow> ('w, unit) act"

section \<open>Lemmas on objects\<close>

lemma set_version_simps [simp]:
  "Spec (set_version v x) = Spec x"
  "status_Phase (set_version v x) = status_Phase x"
  "om_Namespace (metadata (set_version v x)) = om_Namespace (metadata x)"
  "om_Name (metadata (set_version v x)) = om_Name (metadata x)"
  "om_Labels (metadata (set_version v x)) = om_Labels (metadata x)"
  "om_Annotations (metadata (set_version v x)) = om_Annotations (metadata x)"
  "om_Finalizers (metadata (set_version v x)) = om_Finalizers (metadata x)"
  "om_DeletionTimestamp (metadata (set_version v x)) = om_DeletionTimestamp (metadata x)"
  "label_of (set_version v x) = label_of x"
  by (auto simp: set_version_def label_of_def)

lemma set_deletion_simps [simp]:
  "Spec (set_deletion t x) = Spec x"
  "status_Phase (set_deletion t x) = status_Phase x"
  "om_Namespace (metadata (set_deletion t x)) = om_Namespace (metadata x)"
  "om_Name (metadata (set_deletion t x)) = om_Name (metadata x)"
  "om_Labels (metadata (set_deletion t x)) = om_Labels (metadata x)"
  "om_Finalizers (metadata (set_deletion t x)) = om_Finalizers (metadata x)"
  "om_DeletionTimestamp (metadata (set_deletion t x)) = t"
  "label_of (set_deletion t x) = label_of x"
  by (auto simp: set_deletion_def label_of_def)

lemma set_label_simps [simp]:
  "Spec (set_label k v x) = Spec x"
  "status_Phase (set_label k v x) = status_Phase x"
  "om_Namespace (metadata (set_label k v x)) = om_Namespace (metadata x)"
  "om_Name (metadata (set_label k v x)) = om_Name (metadata x)"
  "om_Finalizers (metadata (set_label k v x)) = om_Finalizers (metadata x)"
  "om_DeletionTimestamp (metadata (set_label k v x)) = om_DeletionTimestamp (metadata x)"
  "om_ResourceVersion (metadata (set_label k v x)) = om_ResourceVersion (metadata x)"
  "label_of (set_label k v x) = (label_of x)(k \<mapsto> v)"
  by (auto simp: set_label_def label_of_def fun_eq_iff split: option.splits)

lemma label_of_phase [simp]: "label_of (x\<lparr>status_Phase := p\<rparr>) = label_of x"
  by (simp add: label_of_def fun_eq_iff)

lemma label_of_Spec [simp]: "label_of (x\<lparr>Spec := s\<rparr>) = label_of x"
  by (simp add: label_of_def fun_eq_iff)

lemma empty_meta_simps [simp]:
  "om_Namespace (empty_meta ns n) = ns"
  "om_Name (empty_meta ns n) = n"
  "om_Finalizers (empty_meta ns n) = []"
  "om_DeletionTimestamp (empty_meta ns n) = None"
  by (simp_all add: empty_meta_def)

section \<open>The contract of a client\<close>

locale api_client =
  fixes C :: "('w, 'spec) client"
    and stored :: "'w \<Rightarrow> string \<times> string \<Rightarrow> 'spec kobject option"
    and rest :: "'w \<Rightarrow> 'r"
  assumes stored_key: "stored w k = Some x \<Longrightarrow> obj_key x = k"
    and get_law:
      "wp (cl_Get C ns n)
         (\<lambda>r w'. stored w' = stored w \<and> rest w' = rest w \<and>
            (case r of Ok x \<Rightarrow> stored w (ns, n) = Some x
             | Err e \<Rightarrow> e = NotFound \<longrightarrow> stored w (ns, n) = None
             | Panic \<Rightarrow> False)) w"
    and create_law:
      "wp (cl_Create C x)
         (\<lambda>r w'. rest w' = rest w \<and>
            (case r of Ok y \<Rightarrow> stored w (obj_key x) = None \<and>
               (\<exists>v. y = set_version v (x\<lparr>status_Phase := None\<rparr>)) \<and>
               stored w' = (stored w)(obj_key x \<mapsto> y)
             | Err e \<Rightarrow> stored w' = stored w
             | Panic \<Rightarrow> False)) w"
    and update_law:
      "wp (cl_Update C x)
         (\<lambda>r w'. rest w' = rest w \<and>
            (case r of Ok y \<Rightarrow>
               (\<exists>old v. stored w (obj_key x) = Some old \<and>
                  y = set_version v (set_deletion (om_DeletionTimestamp (metadata old))
                        (x\<lparr>status_Phase := status_Phase old\<rparr>)) \<and>
                  stored w' = (stored w)(obj_key x :=
                    (if om_DeletionTimestamp (metadata old) \<noteq> None \<and> om_Finalizers (metadata x) = []
                     then None else Some y)))
             | Err e \<Rightarrow> stored w' = stored w
             | Panic \<Rightarrow> False)) w"
    and status_law:
      "wp (cl_StatusUpdate C x)
         (\<lambda>r w'. rest w' = rest w \<and>
            (case r of Ok y \<Rightarrow>
               (\<exists>old v. stored w (obj_key x) = Some old \<and>
                  y = set_version v (old\<lparr>status_Phase := status_Phase x\<rparr>) \<and>
                  stored w' = (stored w)(obj_key x \<mapsto> y))
             | Err e \<Rightarrow> stored w' = stored w
             | Panic \<Rightarrow> False)) w"
    and delete_law:
      "wp (cl_Delete C x)
         (\<lambda>r w'. rest w' = rest w \<and>
            (case r of Ok _ \<Rightarrow>
               (\<exists>old t v. stored w (obj_key x) = Some old \<and> t \<noteq> None \<and>
                  stored w' = (stored w)(obj_key x :=
                    (if om_Finalizers (metadata old) = [] then None
                     else Some (set_version v (set_deletion t old)))))
             | Err e \<Rightarrow> stored w' = stored w
             | Panic \<Rightarrow> False)) w"
begin

text \<open>The laws read off one run of an operation, one fact per outcome.\<close>

lemma get_Ok:
  "cl_Get C ns n w = (Ok x, w') \<Longrightarrow> stored w' = stored w \<and> rest w' = rest w \<and> stored w (ns, n) = Some x"
  using wpD [OF get_law] by fastforce

lemma get_Err:
  "cl_Get C ns n w = (Err e, w') \<Longrightarrow>
     stored w' = stored w \<and> rest w' = rest w \<and> (e = NotFound \<longrightarrow> stored w (ns, n) = None)"
  using wpD [OF get_law] by fastforce

lemma get_no_panic: "cl_Get C ns n w = (Panic, w') \<Longrightarrow> False"
  using wpD [OF get_law] by fastforce

lemma create_Ok:
  "cl_Create C x w = (Ok y, w') \<Longrightarrow>
     rest w' = rest w \<and> stored w (obj_key x) = None \<and>
     (\<exists>v. y = set_version v (x\<lparr>status_Phase := None\<rparr>)) \<and> stored w' = (stored w)(obj_key x \<mapsto> y)"
  using wpD [OF create_law] by fastforce

lemma create_Err: "cl_Create C x w = (Err e, w') \<Longrightarrow> stored w' = stored w \<and> rest w' = rest w"
  using wpD [OF create_law] by fastforce

lemma create_no_panic: "cl_Create C x w = (Panic, w') \<Longrightarrow> False"
  using wpD [OF create_law] by fastforce

lemma update_Ok:
  "cl_Update C x w = (Ok y, w') \<Longrightarrow>
     rest w' = rest w \<and>
     (\<exists>old v. stored w (obj_key x) = Some old \<and>
        y = set_version v (set_deletion (om_DeletionTimestamp (metadata old))
              (x\<lparr>status_Phase := status_Phase old\<rparr>)) \<and>
        stored w' = (stored w)(obj_key x :=
          (if om_DeletionTimestamp (metadata old) \<noteq> None \<and> om_Finalizers (metadata x) = []
           then None else Some y)))"
  using wpD [OF update_law] by fastforce

lemma update_Err: "cl_Update C x w = (Err e, w') \<Longrightarrow> stored w' = stored w \<and> rest w' = rest w"
  using wpD [OF update_law] by fastforce

lemma update_no_panic: "cl_Update C x w = (Panic, w') \<Longrightarrow> False"
  using wpD [OF update_law] by fastforce

lemma status_Ok:
  "cl_StatusUpdate C x w = (Ok y, w') \<Longrightarrow>
     rest w' = rest w \<and>
     (\<exists>old v. stored w (obj_key x) = Some old \<and>
        y = set_version v (old\<lparr>status_Phase := status_Phase x\<rparr>) \<and>
        stored w' = (stored w)(obj_key x \<mapsto> y))"
  using wpD [OF status_law] by fastforce

lemma status_Err: "cl_StatusUpdate C x w = (Err e, w') \<Longrightarrow> stored w' = stored w \<and> rest w' = rest w"
  using wpD [OF status_law] by fastforce

lemma status_no_panic: "cl_StatusUpdate C x w = (Panic, w') \<Longrightarrow> False"
  using wpD [OF status_law] by fastforce

lemma delete_Ok:
  "cl_Delete C x w = (Ok u, w') \<Longrightarrow>
     rest w' = rest w \<and>
     (\<exists>old t v. stored w (obj_key x) = Some old \<and> t \<noteq> None \<and>
        stored w' = (stored w)(obj_key x :=
          (if om_Finalizers (metadata old) = [] then None
           else Some (set_version v (set_deletion t old)))))"
  using wpD [OF delete_law] by fastforce

lemma delete_Err: "cl_Delete C x w = (Err e, w') \<Longrightarrow> stored w' = stored w \<and> rest w' = rest w"
  using wpD [OF delete_law] by fastforce

lemma delete_no_panic: "cl_Delete C x w = (Panic, w') \<Longrightarrow> False"
  using wpD [OF delete_law] by fastforce

lemmas api_dests =
  get_Ok get_Err get_no_panic create_Ok create_Err create_no_panic
  update_Ok update_Err update_no_panic status_Ok status_Err status_no_panic
  delete_Ok delete_Err delete_no_panic

text \<open>A successful run that starts by reading an object that is there goes on with that object.\<close>

lemma get_present:
  assumes "stored w (ns, n) = Some c"
    and "call (cl_Get C ns n) (\<lambda>e. if e = NotFound then gone else fail e) k w = (Ok u, w')"
  obtains w0 where "stored w0 = stored w" "rest w0 = rest w" "k c w0 = (Ok u, w')"
proof -
  obtain r0 w0 where get: "cl_Get C ns n w = (r0, w0)"
    by fastforce
  show thesis
    using that [of w0] assms get wpD [OF get_law get]
    by (cases r0) (auto simp: run_act split: if_splits)
qed

lemma get_absent:
  assumes "stored w (ns, n) = None"
    and "call (cl_Get C ns n) (\<lambda>e. if e = NotFound then gone else fail e) k w = (Ok u, w')"
  obtains w0 where "stored w0 = stored w" "rest w0 = rest w" "gone w0 = (Ok u, w')"
proof -
  obtain r0 w0 where get: "cl_Get C ns n w = (r0, w0)"
    by fastforce
  show thesis
    using that [of w0] assms get wpD [OF get_law get]
    by (cases r0) (auto simp: run_act split: if_splits)
qed

text \<open>The two halves of the upsert every report goes through: the object is written, then its
  phase is set on the copy the server handed back.\<close>

lemma create_then_status:
  assumes "andThen (cl_Create C new) (\<lambda>x. cl_StatusUpdate C (x\<lparr>status_Phase := Some p\<rparr>)) w = (r, w')"
  shows "rest w' = rest w \<and> (\<forall>k. k \<noteq> obj_key new \<longrightarrow> stored w' k = stored w k) \<and>
    (case r of
       Ok y \<Rightarrow> stored w' (obj_key new) = Some y \<and> status_Phase y = Some p \<and>
         Spec y = Spec new \<and> label_of y = label_of new \<and>
         om_Finalizers (metadata y) = om_Finalizers (metadata new)
     | Err e \<Rightarrow> True
     | Panic \<Rightarrow> False)"
  using assms
  by (cases r) (auto simp: call_def fail_def split: prod.splits outcome.splits dest!: api_dests)

lemma update_then_status:
  assumes "andThen (cl_Update C x) (\<lambda>y. cl_StatusUpdate C (y\<lparr>status_Phase := Some p\<rparr>)) w = (r, w')"
  shows "rest w' = rest w \<and> (\<forall>k. k \<noteq> obj_key x \<longrightarrow> stored w' k = stored w k) \<and>
    (case r of
       Ok y \<Rightarrow> stored w' (obj_key x) = Some y \<and> status_Phase y = Some p \<and>
         Spec y = Spec x \<and> label_of y = label_of x \<and>
         om_Finalizers (metadata y) = om_Finalizers (metadata x)
     | Err e \<Rightarrow> True
     | Panic \<Rightarrow> False)"
  using assms
  by (cases r)
    (auto simp: call_def fail_def split: prod.splits outcome.splits if_splits dest!: api_dests)

text \<open>The upsert itself: get, then create or update, then set the phase. What is stored in the end
  depends on what was stored before and on nothing else.\<close>

lemma upsert_law:
  assumes run: "call (cl_Get C ns n)
      (\<lambda>e. if e \<noteq> NotFound then fail e
           else andThen (cl_Create C new) (\<lambda>x. cl_StatusUpdate C (x\<lparr>status_Phase := Some p\<rparr>)))
      (\<lambda>x. andThen (cl_Update C (upd x)) (\<lambda>y. cl_StatusUpdate C (y\<lparr>status_Phase := Some p\<rparr>))) w = (r, w')"
    and new_key: "obj_key new = (ns, n)"
    and upd_key: "\<And>x. obj_key (upd x) = obj_key x"
  shows "rest w' = rest w \<and> (\<forall>k. k \<noteq> (ns, n) \<longrightarrow> stored w' k = stored w k) \<and>
    (case r of
       Ok y \<Rightarrow> stored w' (ns, n) = Some y \<and> status_Phase y = Some p \<and>
         (let x = (case stored w (ns, n) of None \<Rightarrow> new | Some x \<Rightarrow> upd x) in
          Spec y = Spec x \<and> label_of y = label_of x \<and>
          om_Finalizers (metadata y) = om_Finalizers (metadata x))
     | Err e \<Rightarrow> True
     | Panic \<Rightarrow> False)"
proof -
  obtain r1 w1 where get: "cl_Get C ns n w = (r1, w1)"
    by fastforce
  show ?thesis
  proof (cases r1)
    case (Ok x)
    then have st: "stored w1 = stored w \<and> rest w1 = rest w" "stored w (ns, n) = Some x"
      and key: "obj_key x = (ns, n)"
      using get get_Ok stored_key by blast+
    from run get Ok
    have "andThen (cl_Update C (upd x)) (\<lambda>y. cl_StatusUpdate C (y\<lparr>status_Phase := Some p\<rparr>)) w1 = (r, w')"
      by (simp add: call_Ok)
    from update_then_status [OF this] show ?thesis
      using st key upd_key by (cases r) (auto simp: Let_def)
  next
    case (Err e)
    then have st: "stored w1 = stored w \<and> rest w1 = rest w" "e = NotFound \<Longrightarrow> stored w (ns, n) = None"
      using get get_Err by blast+
    show ?thesis
    proof (cases "e = NotFound")
      case False
      with run get Err st show ?thesis
        by (auto simp: call_Err fail_def)
    next
      case True
      from run get Err True
      have "andThen (cl_Create C new) (\<lambda>x. cl_StatusUpdate C (x\<lparr>status_Phase := Some p\<rparr>)) w1 = (r, w')"
        by (simp add: call_Err)
      from create_then_status [OF this] new_key st True show ?thesis
        by (cases r) (auto simp: Let_def)
    qed
  next
    case Panic
    with get show ?thesis using get_no_panic by blast
  qed
qed

text \<open>An upsert that fails half way has at most written the object and not its phase.\<close>

lemma upsert_fails:
  assumes run: "call (cl_Get C ns n)
      (\<lambda>e. if e \<noteq> NotFound then fail e
           else andThen (cl_Create C new) (\<lambda>x. cl_StatusUpdate C (x\<lparr>status_Phase := Some p\<rparr>)))
      (\<lambda>x. andThen (cl_Update C (upd x)) (\<lambda>y. cl_StatusUpdate C (y\<lparr>status_Phase := Some p\<rparr>))) w = (Err e, w')"
    and new_key: "obj_key new = (ns, n)"
    and new_alive: "om_DeletionTimestamp (metadata new) = None"
    and upd_key: "\<And>x. obj_key (upd x) = obj_key x"
    and alive: "\<forall>x. stored w (ns, n) = Some x \<longrightarrow> om_DeletionTimestamp (metadata x) = None"
  shows "stored w' (ns, n) = stored w (ns, n) \<or>
    (\<exists>y. stored w' (ns, n) = Some y \<and> om_DeletionTimestamp (metadata y) = None \<and>
       Spec y = Spec (case stored w (ns, n) of None \<Rightarrow> new | Some x \<Rightarrow> upd x))"
proof -
  obtain r1 w1 where get: "cl_Get C ns n w = (r1, w1)"
    by fastforce
  show ?thesis
  proof (cases r1)
    case (Ok x)
    then have st: "stored w1 = stored w" "stored w (ns, n) = Some x"
      using get get_Ok by blast+
    have key: "obj_key (upd x) = (ns, n)"
      using stored_key [OF st(2)] upd_key by simp
    from run get Ok
    have "andThen (cl_Update C (upd x)) (\<lambda>y. cl_StatusUpdate C (y\<lparr>status_Phase := Some p\<rparr>)) w1 = (Err e, w')"
      by (simp add: call_Ok)
    then show ?thesis
      using st key alive
      by (auto simp: call_def fail_def split: prod.splits outcome.splits dest!: api_dests)
  next
    case (Err e1)
    then have st: "stored w1 = stored w" "e1 = NotFound \<Longrightarrow> stored w (ns, n) = None"
      using get get_Err by blast+
    show ?thesis
      using run get Err st new_key new_alive
      by (auto simp: call_def fail_def split: prod.splits outcome.splits if_splits dest!: api_dests)
  next
    case Panic
    with get show ?thesis using get_no_panic by blast
  qed
qed

end

section \<open>A client whose calls succeed\<close>

text \<open>In a calm world a call fails only for the reasons the API documents: the object is missing or
  already there, or the caller's resource version is stale. This is what a claim that an operation
  returns rests on.\<close>

locale reliable_client = api_client C stored rest
  for C :: "('w, 'spec) client"
    and stored :: "'w \<Rightarrow> string \<times> string \<Rightarrow> 'spec kobject option"
    and rest :: "'w \<Rightarrow> 'r" +
  fixes calm :: "'w \<Rightarrow> bool"
  assumes calm_get: "calm w \<Longrightarrow>
      calm (snd (cl_Get C ns n w)) \<and>
      fst (cl_Get C ns n w) = (case stored w (ns, n) of None \<Rightarrow> Err NotFound | Some x \<Rightarrow> Ok x)"
    and calm_create: "calm w \<Longrightarrow> stored w (obj_key x) = None \<Longrightarrow>
      \<exists>y w'. cl_Create C x w = (Ok y, w') \<and> calm w'"
    and calm_update: "calm w \<Longrightarrow> stored w (obj_key x) = Some old \<Longrightarrow>
      om_ResourceVersion (metadata old) = om_ResourceVersion (metadata x) \<Longrightarrow>
      \<exists>y w'. cl_Update C x w = (Ok y, w') \<and> calm w'"
    and calm_status: "calm w \<Longrightarrow> stored w (obj_key x) = Some old \<Longrightarrow>
      om_ResourceVersion (metadata old) = om_ResourceVersion (metadata x) \<Longrightarrow>
      \<exists>y w'. cl_StatusUpdate C x w = (Ok y, w') \<and> calm w'"
    and calm_delete: "calm w \<Longrightarrow> stored w (obj_key x) = Some old \<Longrightarrow>
      \<exists>w'. cl_Delete C x w = (Ok (), w') \<and> calm w'"
begin

lemma create_then_status_succeeds:
  assumes "calm w" and "stored w (obj_key new) = None"
  shows "\<exists>y w'. andThen (cl_Create C new) (\<lambda>x. cl_StatusUpdate C (x\<lparr>status_Phase := Some p\<rparr>)) w
    = (Ok y, w') \<and> calm w'"
proof -
  obtain x w1 where create: "cl_Create C new w = (Ok x, w1)" and calm1: "calm w1"
    using calm_create [OF assms] by blast
  from create_Ok [OF create] have "stored w1 (obj_key (x\<lparr>status_Phase := Some p\<rparr>)) = Some x"
    by auto
  from calm_status [OF calm1 this] create show ?thesis
    by (auto simp: call_Ok)
qed

text \<open>An update of the object that was just read succeeds, unless the object is being deleted and
  the update drops the last finalizer.\<close>

lemma update_then_status_succeeds:
  assumes "calm w" and old: "stored w (obj_key x) = Some old"
    and "om_ResourceVersion (metadata old) = om_ResourceVersion (metadata x)"
    and alive: "om_DeletionTimestamp (metadata old) = None"
  shows "\<exists>y w'. andThen (cl_Update C x) (\<lambda>y. cl_StatusUpdate C (y\<lparr>status_Phase := Some p\<rparr>)) w
    = (Ok y, w') \<and> calm w'"
proof -
  obtain y w1 where upd: "cl_Update C x w = (Ok y, w1)" and calm1: "calm w1"
    using calm_update [OF assms(1-3)] by blast
  from update_Ok [OF upd] old alive have "stored w1 (obj_key (y\<lparr>status_Phase := Some p\<rparr>)) = Some y"
    by auto
  from calm_status [OF calm1 this] upd show ?thesis
    by (auto simp: call_Ok)
qed

lemma upsert_succeeds:
  assumes calm: "calm w"
    and alive: "\<forall>x. stored w (ns, n) = Some x \<longrightarrow> om_DeletionTimestamp (metadata x) = None"
    and new_key: "obj_key new = (ns, n)"
    and upd_key: "\<And>x. obj_key (upd x) = obj_key x"
    and upd_version: "\<And>x. om_ResourceVersion (metadata (upd x)) = om_ResourceVersion (metadata x)"
  shows "\<exists>y w'. call (cl_Get C ns n)
      (\<lambda>e. if e \<noteq> NotFound then fail e
           else andThen (cl_Create C new) (\<lambda>x. cl_StatusUpdate C (x\<lparr>status_Phase := Some p\<rparr>)))
      (\<lambda>x. andThen (cl_Update C (upd x)) (\<lambda>y. cl_StatusUpdate C (y\<lparr>status_Phase := Some p\<rparr>))) w
    = (Ok y, w') \<and> calm w'"
proof -
  obtain r1 w1 where get: "cl_Get C ns n w = (r1, w1)"
    by fastforce
  with calm_get [OF calm, of ns n] have calm1: "calm w1"
    and r1: "r1 = (case stored w (ns, n) of None \<Rightarrow> Err NotFound | Some x \<Rightarrow> Ok x)"
    by auto
  have st: "stored w1 = stored w"
    using wpD [OF get_law get] by simp
  show ?thesis
  proof (cases "stored w (ns, n)")
    case None
    with create_then_status_succeeds [OF calm1, of new p] get r1 st new_key show ?thesis
      by (simp add: call_Err)
  next
    case (Some x)
    then have "stored w1 (obj_key (upd x)) = Some x"
      using st upd_key stored_key by metis
    from update_then_status_succeeds [OF calm1 this, of p] Some alive get r1 upd_version show ?thesis
      by (simp add: call_Ok)
  qed
qed

end

end
