(* ===== verification/Manager.thy ===== *)
theory Manager
  imports Kube "HOL-Library.Word"
begin

text \<open>
  pkg/evaluation/manager.go: the manager that owns the four job queues, the list of watched
  resources and the identity of the cluster, and the loop the Classifier, HealthCheck and
  EventSource evaluations share: copy the queue and reset it under the lock, evaluate every job,
  put the failed ones back.
  The locale \<open>job_queue\<close> is the contract the loop relies on (what a queue holds after an enqueue
  and after a drain); it is interpreted for the three queues, and the theorems on a round are
  proved once inside it.
\<close>

section \<open>Constants and pure functions of libsveltos\<close>

text \<open>They are parameters: the code of libsveltos is not part of the repository.\<close>

record libsveltos =
  ReloaderKind :: string
  lib_GroupVersion :: string
  core_GroupVersion :: string
  apps_Group :: string
  apps_Version :: string
  apps_GroupVersion :: string
  ClassifierlNameLabel :: string
  HealthCheckNameLabel :: string
  EventSourceNameLabel :: string
  ServiceAccountNameLabel :: string
  ServiceAccountNamespaceLabel :: string
  DeployedBySveltosAnnotation :: string
  ClassifierSecretNamespace :: string
  ClassifierSecretName :: string
  GetClassifierReportName :: "string \<Rightarrow> string \<Rightarrow> string \<Rightarrow> string"
  GetClassifierReportLabels :: "string \<Rightarrow> string \<Rightarrow> string \<Rightarrow> (string, string) gomap"
  GetHealthCheckReportName :: "string \<Rightarrow> string \<Rightarrow> string \<Rightarrow> string"
  GetHealthCheckReportLabels :: "string \<Rightarrow> string \<Rightarrow> string \<Rightarrow> (string, string) gomap"
  GetEventReportName :: "string \<Rightarrow> string \<Rightarrow> string \<Rightarrow> string"
  GetEventReportLabels :: "string \<Rightarrow> string \<Rightarrow> string \<Rightarrow> (string, string) gomap"
  GetReloaderReportName :: "string \<Rightarrow> string \<Rightarrow> string \<Rightarrow> string \<Rightarrow> string \<Rightarrow> string"
  GetReloaderReportLabels :: "string \<Rightarrow> string \<Rightarrow> (string, string) gomap"
  GetReloaderReportAnnotations :: "string \<Rightarrow> string \<Rightarrow> string \<Rightarrow> (string, string) gomap"
  GetServiceAccountNameInManagedCluster :: "string \<Rightarrow> string \<Rightarrow> string"

definition ReportNamespace :: string where
  "ReportNamespace = ''projectsveltos''"

section \<open>The manager\<close>

text \<open>A watcher's cancel function is the number of the watcher it cancels. A registered
  ReactToNotification method is a flag: it is always the react method of that controller.\<close>

record manager =
  sendReport :: bool
  clusterNamespace :: string
  clusterName :: string
  clusterType :: string
  rebuildResourceToWatch :: "32 word"
  resourcesToWatch :: "gvk list"
  classifierJobQueue :: "(string, bool) gomap"
  healthCheckJobQueue :: "(string, bool) gomap"
  eventSourceJobQueue :: "(string, bool) gomap"
  natsEventSources :: "(string, bool) gomap"
  reloaderJobQueue :: "(string, bool) gomap"
  interval :: "64 word"
  watchers :: "(gvk, nat) gomap"
  unknownResourcesToWatch :: "gvk list"
  reactClassifier :: bool
  reactHealthCheck :: bool
  reactEventSource :: bool
  reactReloader :: bool
  messagingConfigurationHash :: "string option"

text \<open>\<^verbatim>\<open>time.Second\<close>: a Duration is a signed number of nanoseconds in 64 bits, and the multiplication wraps.\<close>

definition time_Second :: "64 word" where
  "time_Second = 1000000000"

definition InitializeManager ::
  "string \<Rightarrow> string \<Rightarrow> string \<Rightarrow> 64 word \<Rightarrow> bool \<Rightarrow> manager option \<Rightarrow> manager option" where
  "InitializeManager clusterNs clusterNm cluserType intervalInSecond doSend managerInstance =
     (case managerInstance of
        Some m \<Rightarrow> Some m
      | None \<Rightarrow> Some
          \<lparr>sendReport = doSend, clusterNamespace = clusterNs, clusterName = clusterNm,
           clusterType = cluserType, rebuildResourceToWatch = 0, resourcesToWatch = [],
           classifierJobQueue = [], healthCheckJobQueue = [], eventSourceJobQueue = [],
           natsEventSources = [], reloaderJobQueue = [], interval = intervalInSecond * time_Second,
           watchers = [], unknownResourcesToWatch = [], reactClassifier = False,
           reactHealthCheck = False, reactEventSource = False, reactReloader = False,
           messagingConfigurationHash = None\<rparr>)"

definition RegisterClassifierMethod :: "manager \<Rightarrow> manager" where
  "RegisterClassifierMethod m = m\<lparr>reactClassifier := True\<rparr>"

definition RegisterHealthCheckMethod :: "manager \<Rightarrow> manager" where
  "RegisterHealthCheckMethod m = m\<lparr>reactHealthCheck := True\<rparr>"

definition RegisterEventSourceMethod :: "manager \<Rightarrow> manager" where
  "RegisterEventSourceMethod m = m\<lparr>reactEventSource := True\<rparr>"

definition RegisterReloaderMethod :: "manager \<Rightarrow> manager" where
  "RegisterReloaderMethod m = m\<lparr>reactReloader := True\<rparr>"

definition ReEvaluateResourceToWatch :: "manager \<Rightarrow> manager" where
  "ReEvaluateResourceToWatch m = m\<lparr>rebuildResourceToWatch := 1\<rparr>"

definition EvaluateClassifier :: "string \<Rightarrow> manager \<Rightarrow> manager" where
  "EvaluateClassifier classifierNm m =
     m\<lparr>classifierJobQueue := put classifierNm True (classifierJobQueue m)\<rparr>"

definition EvaluateHealthCheck :: "string \<Rightarrow> manager \<Rightarrow> manager" where
  "EvaluateHealthCheck healthCheckNm m =
     m\<lparr>healthCheckJobQueue := put healthCheckNm True (healthCheckJobQueue m)\<rparr>"

definition EvaluateEventSource :: "string \<Rightarrow> manager \<Rightarrow> manager" where
  "EvaluateEventSource eventSourceNm m =
     m\<lparr>eventSourceJobQueue := put eventSourceNm True (eventSourceJobQueue m)\<rparr>"

definition RegisterNatsEventSource :: "string \<Rightarrow> manager \<Rightarrow> manager" where
  "RegisterNatsEventSource eventSourceNm m =
     m\<lparr>natsEventSources := put eventSourceNm True (natsEventSources m)\<rparr>"

definition UnregisterNatsEventSource :: "string \<Rightarrow> manager \<Rightarrow> manager" where
  "UnregisterNatsEventSource eventSourceNm m =
     m\<lparr>natsEventSources := del eventSourceNm (natsEventSources m)\<rparr>"

text \<open>The reloader queue holds \<^verbatim>\<open>kind:name\<close> for a Reloader and \<^verbatim>\<open>kind:namespace/name\<close> for a
  changed ConfigMap or Secret.\<close>

definition reloader_key :: "libsveltos \<Rightarrow> string \<Rightarrow> string" where
  "reloader_key L reloaderNm = ReloaderKind L @ '':'' @ reloaderNm"

definition mounted_key :: "string \<Rightarrow> string \<Rightarrow> string \<Rightarrow> string" where
  "mounted_key kind ns n = kind @ '':'' @ ns @ ''/'' @ n"

definition EvaluateReloader :: "libsveltos \<Rightarrow> string \<Rightarrow> manager \<Rightarrow> manager" where
  "EvaluateReloader L reloaderNm m =
     m\<lparr>reloaderJobQueue := put (reloader_key L reloaderNm) True (reloaderJobQueue m)\<rparr>"

definition EvaluateConfigMap :: "string \<Rightarrow> string \<Rightarrow> manager \<Rightarrow> manager" where
  "EvaluateConfigMap configMapNamespace configMapName m =
     m\<lparr>reloaderJobQueue :=
        put (mounted_key ''ConfigMap'' configMapNamespace configMapName) True (reloaderJobQueue m)\<rparr>"

definition EvaluateSecret :: "string \<Rightarrow> string \<Rightarrow> manager \<Rightarrow> manager" where
  "EvaluateSecret secretNamespace secretName m =
     m\<lparr>reloaderJobQueue :=
        put (mounted_key ''Secret'' secretNamespace secretName) True (reloaderJobQueue m)\<rparr>"

text \<open>restartIfNeeded sends SIGTERM for every entry of the list of missing resources that is the
  kind that was just installed; \<open>kill\<close> is the system call.\<close>

definition restartIfNeeded :: "('w, unit) act \<Rightarrow> manager option \<Rightarrow> gvk \<Rightarrow> ('w, unit) act" where
  "restartIfNeeded kill managerInstance g =
     (case managerInstance of
        None \<Rightarrow> ret ()
      | Some m \<Rightarrow>
          foldA (\<lambda>_ tmpGVK. if g = tmpGVK then call kill (\<lambda>_. panic) ret else ret ())
            () (unknownResourcesToWatch m))"

text \<open>The tenant admin's ServiceAccount, from the labels (a missing label reads as "").\<close>

definition getServiceAccountInfo :: "libsveltos \<Rightarrow> object_meta \<Rightarrow> string \<times> string" where
  "getServiceAccountInfo L om =
     (case om_Labels om of
        None \<Rightarrow> ('''', '''')
      | Some labels \<Rightarrow>
          (case map_of labels (ServiceAccountNamespaceLabel L) of None \<Rightarrow> '''' | Some v \<Rightarrow> v,
           case map_of labels (ServiceAccountNameLabel L) of None \<Rightarrow> '''' | Some v \<Rightarrow> v))"

definition getSecretGVK :: gvk where
  "getSecretGVK = GVK '''' ''v1'' ''Secret''"

section \<open>One round of an evaluation loop\<close>

text \<open>The jobs in order; the names whose evaluation returned an error, in order.\<close>

fun evaluate_jobs :: "(string \<Rightarrow> ('w, unit) act) \<Rightarrow> string list \<Rightarrow> ('w, string list) act" where
  "evaluate_jobs ev [] = ret []"
| "evaluate_jobs ev (job # jobs) =
     call (ev job)
       (\<lambda>_. andThen (evaluate_jobs ev jobs) (\<lambda>failed. ret (job # failed)))
       (\<lambda>_. evaluate_jobs ev jobs)"

text \<open>A round: drain, evaluate, re-queue the failed jobs. \<open>others\<close> are the jobs that controllers
  and watchers put on the queue while the jobs were being evaluated, outside the lock.\<close>

definition evaluation_round ::
  "('m \<Rightarrow> string list \<times> 'm) \<Rightarrow> (string \<Rightarrow> 'm \<Rightarrow> 'm) \<Rightarrow> (string \<Rightarrow> ('w, unit) act) \<Rightarrow>
   string list \<Rightarrow> 'm \<Rightarrow> ('w, 'm) act" where
  "evaluation_round drain enqueue ev others m =
     (case drain m of
        (jobQueueCopy, m1) \<Rightarrow>
          andThen (evaluate_jobs ev jobQueueCopy)
            (\<lambda>failedEvaluations. ret (fold enqueue failedEvaluations (fold enqueue others m1))))"

text \<open>What each job of a round returned, up to the first panic.\<close>

fun job_outcomes ::
  "(string \<Rightarrow> ('w, unit) act) \<Rightarrow> string list \<Rightarrow> 'w \<Rightarrow> (string \<times> unit outcome) list" where
  "job_outcomes ev [] w = []"
| "job_outcomes ev (job # jobs) w =
     (case ev job w of
        (Panic, w') \<Rightarrow> [(job, Panic)]
      | (r, w') \<Rightarrow> (job, r) # job_outcomes ev jobs w')"

text \<open>The critical section: copy the keys, reset the map.\<close>

definition drain_classifiers :: "manager \<Rightarrow> string list \<times> manager" where
  "drain_classifiers m = (map fst (classifierJobQueue m), m\<lparr>classifierJobQueue := []\<rparr>)"

definition drain_healthChecks :: "manager \<Rightarrow> string list \<times> manager" where
  "drain_healthChecks m = (map fst (healthCheckJobQueue m), m\<lparr>healthCheckJobQueue := []\<rparr>)"

definition drain_eventSources :: "manager \<Rightarrow> string list \<times> manager" where
  "drain_eventSources m = (map fst (eventSourceJobQueue m), m\<lparr>eventSourceJobQueue := []\<rparr>)"

definition drain_reloaders :: "manager \<Rightarrow> string list \<times> manager" where
  "drain_reloaders m = (map fst (reloaderJobQueue m), m\<lparr>reloaderJobQueue := []\<rparr>)"

text \<open>Go maps have no repeated key.\<close>

definition queues_ok :: "manager \<Rightarrow> bool" where
  "queues_ok m \<longleftrightarrow>
     gomap_ok (classifierJobQueue m) \<and> gomap_ok (healthCheckJobQueue m) \<and>
     gomap_ok (eventSourceJobQueue m) \<and> gomap_ok (reloaderJobQueue m) \<and>
     gomap_ok (natsEventSources m) \<and> gomap_ok (watchers m)"

section \<open>The contract of a job queue\<close>

locale job_queue =
  fixes enqueue :: "string \<Rightarrow> 'm \<Rightarrow> 'm"
    and drain :: "'m \<Rightarrow> string list \<times> 'm"
    and pending :: "'m \<Rightarrow> string set"
    and invar :: "'m \<Rightarrow> bool"
  assumes pending_enqueue: "invar m \<Longrightarrow> pending (enqueue n m) = insert n (pending m)"
    and invar_enqueue: "invar m \<Longrightarrow> invar (enqueue n m)"
    and drain_jobs: "invar m \<Longrightarrow> set (fst (drain m)) = pending m \<and> distinct (fst (drain m))"
    and drain_empties: "invar m \<Longrightarrow> pending (snd (drain m)) = {}"
    and invar_drain: "invar m \<Longrightarrow> invar (snd (drain m))"
begin

lemma enqueue_all:
  "invar m \<Longrightarrow> invar (fold enqueue js m) \<and> pending (fold enqueue js m) = set js \<union> pending m"
  by (induction js arbitrary: m) (auto simp: pending_enqueue invar_enqueue)

lemma enqueue_idem:
  "invar m \<Longrightarrow> pending (enqueue n (enqueue n m)) = pending (enqueue n m)"
  by (simp add: pending_enqueue invar_enqueue)

text \<open>A round that ends leaves exactly the failed jobs and the jobs that arrived meanwhile.\<close>

lemma round_pending:
  assumes inv: "invar m"
    and run: "evaluation_round drain enqueue ev others m w = (Ok m', w')"
    and failed: "evaluate_jobs ev (fst (drain m)) w = (Ok failed, w')"
  shows "invar m' \<and> pending m' = set failed \<union> set others"
proof -
  have m': "m' = fold enqueue failed (fold enqueue others (snd (drain m)))"
    using run failed by (auto simp: evaluation_round_def call_def ret_def split: prod.splits)
  show ?thesis
    unfolding m' using inv by (simp add: enqueue_all invar_drain drain_empties)
qed

end

section \<open>Lemmas on a round\<close>

lemma evaluate_jobs_outcomes:
  "evaluate_jobs ev jobs w = (Ok failed, w') \<Longrightarrow>
     map fst (job_outcomes ev jobs w) = jobs \<and>
     set failed = {j. \<exists>e. (j, Err e) \<in> set (job_outcomes ev jobs w)}"
proof (induction jobs arbitrary: w failed)
  case Nil
  then show ?case by (simp add: ret_def)
next
  case (Cons job jobs)
  then show ?case
    by (fastforce simp: call_def ret_def fail_def split: prod.splits outcome.splits)
qed

lemma job_outcomes_run:
  "(j, r) \<in> set (job_outcomes ev jobs w) \<Longrightarrow> \<exists>w1 w2. ev j w1 = (r, w2)"
proof (induction jobs arbitrary: w)
  case (Cons job jobs)
  obtain r0 w0 where "ev job w = (r0, w0)"
    by fastforce
  with Cons show ?case
    by (cases r0) auto
qed simp

lemma evaluation_round_failed:
  assumes "evaluation_round drain enqueue ev others m w = (Ok m', w')"
  obtains failed where "evaluate_jobs ev (fst (drain m)) w = (Ok failed, w')"
  using assms
  by (auto simp: evaluation_round_def call_def ret_def fail_def split: prod.splits outcome.splits)

lemma evaluate_jobs_no_error:
  "fst (evaluate_jobs ev jobs w) \<noteq> Err e"
  by (induction jobs arbitrary: w)
    (auto simp: call_def ret_def fail_def split: prod.splits outcome.splits, metis fst_conv)

text \<open>A round that ends: each queued job was evaluated exactly once, and what is pending afterwards
  is what failed and what arrived meanwhile.\<close>

context job_queue
begin

lemma round_complete:
  assumes inv: "invar m"
    and run: "evaluation_round drain enqueue ev others m w = (Ok m', w')"
  shows "invar m' \<and> distinct (fst (drain m)) \<and> set (fst (drain m)) = pending m \<and>
    map fst (job_outcomes ev (fst (drain m)) w) = fst (drain m) \<and>
    pending m' = set others \<union> {j. \<exists>e. (j, Err e) \<in> set (job_outcomes ev (fst (drain m)) w)}"
proof -
  obtain failed where jobs: "evaluate_jobs ev (fst (drain m)) w = (Ok failed, w')"
    using evaluation_round_failed [OF run] by blast
  show ?thesis
    using round_pending [OF inv run jobs] evaluate_jobs_outcomes [OF jobs] drain_jobs [OF inv] by auto
qed

end

section \<open>The three queues\<close>

interpretation classifier_queue: job_queue EvaluateClassifier drain_classifiers
  "\<lambda>m. keys (classifierJobQueue m)" queues_ok
  by unfold_locales (auto simp: EvaluateClassifier_def drain_classifiers_def queues_ok_def)

interpretation healthCheck_queue: job_queue EvaluateHealthCheck drain_healthChecks
  "\<lambda>m. keys (healthCheckJobQueue m)" queues_ok
  by unfold_locales (auto simp: EvaluateHealthCheck_def drain_healthChecks_def queues_ok_def)

interpretation eventSource_queue: job_queue EvaluateEventSource drain_eventSources
  "\<lambda>m. keys (eventSourceJobQueue m)" queues_ok
  by unfold_locales (auto simp: EvaluateEventSource_def drain_eventSources_def queues_ok_def)

end
