(* ===== verification/Api_Server.thy ===== *)
theory Api_Server
  imports Kube
begin

text \<open>
  An executable API server for one kind of object, following the documented behaviour of the
  Kubernetes API: optimistic concurrency by resource version, the status as a subresource,
  deletion by timestamp while finalizers remain, and calls that fail for reasons of their own
  (a script of transient errors, conflicts with other writers among them). It is an instance of the contract \<open>api_client\<close>, so the
  hypotheses the other theories put on their clients can be met, and it is what the witnesses run on.
  A server lives somewhere inside the world of the agent; \<open>g\<close> reads it and \<open>p\<close> writes it back.
\<close>

section \<open>The server\<close>

record 'spec server =
  srv_objects :: "(string \<times> string, 'spec kobject) gomap"
  srv_clock :: nat
  srv_faults :: "string option list"

definition new_server :: "'spec kobject list \<Rightarrow> 'spec server" where
  "new_server xs =
     \<lparr>srv_objects = map (\<lambda>x. (obj_key x, x)) xs, srv_clock = 1, srv_faults = []\<rparr>"

text \<open>One call: a scheduled fault, or the operation at the next tick of the server's clock.\<close>

definition serve ::
  "('w \<Rightarrow> 'spec server) \<Rightarrow> ('spec server \<Rightarrow> 'w \<Rightarrow> 'w) \<Rightarrow>
   (nat \<Rightarrow> (string \<times> string, 'spec kobject) gomap \<Rightarrow>
      'a outcome \<times> (string \<times> string, 'spec kobject) gomap) \<Rightarrow> ('w, 'a) act" where
  "serve g p op w =
     (let s = g w; s1 = s\<lparr>srv_clock := Suc (srv_clock s), srv_faults := tl (srv_faults s)\<rparr> in
      case srv_faults s of
        Some msg # _ \<Rightarrow> (Err (if msg = ''conflict'' then Conflict else Other msg), p s1 w)
      | _ \<Rightarrow> (case op (srv_clock s) (srv_objects s) of
                (r, objs) \<Rightarrow> (r, p (s1\<lparr>srv_objects := objs\<rparr>) w)))"

text \<open>A row counts only under the key its metadata names.\<close>

definition srv_lookup ::
  "(string \<times> string, 'spec kobject) gomap \<Rightarrow> string \<times> string \<Rightarrow> 'spec kobject option" where
  "srv_lookup objs k =
     (case map_of objs k of Some x \<Rightarrow> if obj_key x = k then Some x else None | None \<Rightarrow> None)"

definition srv_get :: "string \<Rightarrow> string \<Rightarrow> nat \<Rightarrow> (string \<times> string, 'spec kobject) gomap \<Rightarrow>
    'spec kobject outcome \<times> (string \<times> string, 'spec kobject) gomap" where
  "srv_get ns n t objs =
     (case srv_lookup objs (ns, n) of
        Some x \<Rightarrow> (Ok x, objs)
      | None \<Rightarrow> (Err NotFound, objs))"

definition srv_create :: "'spec kobject \<Rightarrow> nat \<Rightarrow> (string \<times> string, 'spec kobject) gomap \<Rightarrow>
    'spec kobject outcome \<times> (string \<times> string, 'spec kobject) gomap" where
  "srv_create x t objs =
     (case srv_lookup objs (obj_key x) of
        Some old \<Rightarrow> (Err AlreadyExists, objs)
      | None \<Rightarrow> (let y = set_version t (x\<lparr>status_Phase := None\<rparr>) in (Ok y, put (obj_key x) y objs)))"

definition srv_update :: "'spec kobject \<Rightarrow> nat \<Rightarrow> (string \<times> string, 'spec kobject) gomap \<Rightarrow>
    'spec kobject outcome \<times> (string \<times> string, 'spec kobject) gomap" where
  "srv_update x t objs =
     (case srv_lookup objs (obj_key x) of
        None \<Rightarrow> (Err NotFound, objs)
      | Some old \<Rightarrow>
          if om_ResourceVersion (metadata old) \<noteq> om_ResourceVersion (metadata x)
          then (Err Conflict, objs)
          else (let y = set_version t (set_deletion (om_DeletionTimestamp (metadata old))
                          (x\<lparr>status_Phase := status_Phase old\<rparr>))
                in (Ok y,
                    if om_DeletionTimestamp (metadata old) \<noteq> None \<and> om_Finalizers (metadata x) = []
                    then del (obj_key x) objs else put (obj_key x) y objs)))"

definition srv_status :: "'spec kobject \<Rightarrow> nat \<Rightarrow> (string \<times> string, 'spec kobject) gomap \<Rightarrow>
    'spec kobject outcome \<times> (string \<times> string, 'spec kobject) gomap" where
  "srv_status x t objs =
     (case srv_lookup objs (obj_key x) of
        None \<Rightarrow> (Err NotFound, objs)
      | Some old \<Rightarrow>
          if om_ResourceVersion (metadata old) \<noteq> om_ResourceVersion (metadata x)
          then (Err Conflict, objs)
          else (let y = set_version t (old\<lparr>status_Phase := status_Phase x\<rparr>)
                in (Ok y, put (obj_key x) y objs)))"

definition srv_delete :: "'spec kobject \<Rightarrow> nat \<Rightarrow> (string \<times> string, 'spec kobject) gomap \<Rightarrow>
    unit outcome \<times> (string \<times> string, 'spec kobject) gomap" where
  "srv_delete x t objs =
     (case srv_lookup objs (obj_key x) of
        None \<Rightarrow> (Err NotFound, objs)
      | Some old \<Rightarrow>
          (Ok (), if om_Finalizers (metadata old) = [] then del (obj_key x) objs
                  else put (obj_key x)
                    (set_version t (set_deletion
                       (case om_DeletionTimestamp (metadata old) of None \<Rightarrow> Some t | Some d \<Rightarrow> Some d)
                       old)) objs))"

definition server_client ::
  "('w \<Rightarrow> 'spec server) \<Rightarrow> ('spec server \<Rightarrow> 'w \<Rightarrow> 'w) \<Rightarrow> ('w, 'spec) client" where
  "server_client g p =
     \<lparr>cl_Get = \<lambda>ns n. serve g p (srv_get ns n),
      cl_List = serve g p (\<lambda>t objs. (Ok (map snd objs), objs)),
      cl_Create = \<lambda>x. serve g p (srv_create x),
      cl_Update = \<lambda>x. serve g p (srv_update x),
      cl_StatusUpdate = \<lambda>x. serve g p (srv_status x),
      cl_Delete = \<lambda>x. serve g p (srv_delete x)\<rparr>"

text \<open>Where a server sits in the world: what is written is read back, and the rest stays.\<close>

definition server_at ::
  "('w \<Rightarrow> 'spec server) \<Rightarrow> ('spec server \<Rightarrow> 'w \<Rightarrow> 'w) \<Rightarrow> ('w \<Rightarrow> 'r) \<Rightarrow> bool" where
  "server_at g p rest \<longleftrightarrow> (\<forall>s w. g (p s w) = s \<and> rest (p s w) = rest w)"

abbreviation srv_stored ::
  "('w \<Rightarrow> 'spec server) \<Rightarrow> 'w \<Rightarrow> string \<times> string \<Rightarrow> 'spec kobject option" where
  "srv_stored g \<equiv> (\<lambda>w. srv_lookup (srv_objects (g w)))"

section \<open>The server meets the contract of a client\<close>

lemma server_client_simps [simp]:
  "cl_Get (server_client g p) ns n = serve g p (srv_get ns n)"
  "cl_Create (server_client g p) x = serve g p (srv_create x)"
  "cl_Update (server_client g p) x = serve g p (srv_update x)"
  "cl_StatusUpdate (server_client g p) x = serve g p (srv_status x)"
  "cl_Delete (server_client g p) x = serve g p (srv_delete x)"
  "cl_List (server_client g p) = serve g p (\<lambda>t objs. (Ok (map snd objs), objs))"
  by (simp_all add: server_client_def)

lemma srv_lookup_key: "srv_lookup objs k = Some x \<Longrightarrow> obj_key x = k"
  by (auto simp: srv_lookup_def split: option.splits if_splits)

lemma srv_lookup_put [simp]: "obj_key y = k \<Longrightarrow> srv_lookup (put k y objs) = (srv_lookup objs)(k \<mapsto> y)"
  by (auto simp: srv_lookup_def fun_eq_iff)

lemma srv_lookup_del [simp]: "srv_lookup (del k objs) = (srv_lookup objs)(k := None)"
  by (auto simp: srv_lookup_def fun_eq_iff)

text \<open>A property of one call: it holds of the scheduled fault and of the operation.\<close>

lemma wp_serve:
  assumes at: "server_at g p rest"
    and fault: "\<And>e w'. e \<noteq> NotFound \<Longrightarrow> rest w' = rest w \<Longrightarrow> srv_stored g w' = srv_stored g w \<Longrightarrow> Q (Err e) w'"
    and oper: "\<And>r objs w'. op (srv_clock (g w)) (srv_objects (g w)) = (r, objs) \<Longrightarrow>
      rest w' = rest w \<Longrightarrow> srv_stored g w' = srv_lookup objs \<Longrightarrow> Q r w'"
  shows "wp (serve g p op) Q w"
proof -
  have g: "g (p s w) = s" and r: "rest (p s w) = rest w" for s
    using at by (auto simp: server_at_def)
  show ?thesis
  proof (cases "\<exists>msg fs. srv_faults (g w) = Some msg # fs")
    case True
    then show ?thesis
      by (auto simp: wp_def serve_def Let_def g r split: if_split_asm intro!: fault)
  next
    case False
    then show ?thesis
      by (auto simp: wp_def serve_def Let_def g r split: list.splits option.splits prod.splits intro!: oper)
  qed
qed

theorem server_client_api:
  assumes "server_at g p rest"
  shows "api_client (server_client g p) (srv_stored g) rest"
proof (unfold_locales, goal_cases)
  case (1 w k x)
  then show ?case by (rule srv_lookup_key)
next
  case (2 ns n w)
  show ?case unfolding server_client_simps
    by (rule wp_serve [OF assms]) (auto simp: srv_get_def split: option.splits)
next
  case (3 x w)
  show ?case unfolding server_client_simps
    by (rule wp_serve [OF assms]) (auto simp: srv_create_def Let_def split: option.splits)
next
  case (4 x w)
  show ?case unfolding server_client_simps
    by (rule wp_serve [OF assms])
      (auto simp: srv_update_def Let_def split: option.splits if_split_asm split del: if_split)
next
  case (5 x w)
  show ?case unfolding server_client_simps
    by (rule wp_serve [OF assms])
      (fastforce simp: srv_status_def Let_def dest: srv_lookup_key
        split: option.splits if_split_asm split del: if_split)+
next
  case (6 x w)
  show ?case unfolding server_client_simps
    by (rule wp_serve [OF assms])
      (fastforce simp: srv_delete_def Let_def dest: srv_lookup_key
        split: option.splits if_split_asm split del: if_split)+
qed

text \<open>With no fault scheduled the calls succeed.\<close>

theorem server_client_reliable:
  assumes "server_at g p rest"
  shows "reliable_client (server_client g p) (srv_stored g) rest (\<lambda>w. srv_faults (g w) = [])"
proof (rule reliable_client.intro [OF server_client_api [OF assms]], unfold_locales, goal_cases)
  case (1 w ns n)
  then show ?case using assms
    by (auto simp: server_at_def serve_def srv_get_def Let_def split: option.splits)
next
  case (2 w x)
  then show ?case using assms
    by (auto simp: server_at_def serve_def srv_create_def Let_def)
next
  case (3 w x old)
  then show ?case using assms
    by (auto simp: server_at_def serve_def srv_update_def Let_def)
next
  case (4 w x old)
  then show ?case using assms
    by (auto simp: server_at_def serve_def srv_status_def Let_def)
next
  case (5 w x old)
  then show ?case using assms
    by (auto simp: server_at_def serve_def srv_delete_def Let_def)
qed

text \<open>A world that is one server.\<close>

interpretation one_server: reliable_client
  "server_client (\<lambda>s :: 'spec server. s) (\<lambda>s _. s)" "srv_stored (\<lambda>s. s)" "\<lambda>_. ()"
  "\<lambda>s. srv_faults s = []"
  by (rule server_client_reliable) (simp add: server_at_def)

end
