(* ===== verification/Management.thy ===== *)
theory Management
  imports Manager Api_Server
begin

text \<open>
  Access to the management cluster: manager.getKubeconfig reads the Secret with the kubeconfig, and
  getManamegentClusterClient writes it to a temporary file, builds a REST config from the file and
  a client from the config, and removes the file however it ends.
  The file system and client-go are parameters (the record \<open>mgmt_env\<close>); a client for the
  management cluster is a function of the REST config that was built.
\<close>

section \<open>Parameters\<close>

record ('w, 'cfg) mgmt_env =
  me_secrets :: "('w, (string, string) gomap) client"
  os_CreateTemp :: "('w, string) act"
  os_Write :: "string \<Rightarrow> string \<Rightarrow> ('w, unit) act"
  os_Remove :: "string \<Rightarrow> ('w, unit) act"
  BuildConfigFromFlags :: "string \<Rightarrow> ('w, 'cfg) act"
  AddToScheme :: "('w, unit) act"
  client_New :: "'cfg \<Rightarrow> ('w, unit) act"

section \<open>getKubeconfig and getManamegentClusterClient\<close>

text \<open>The first value a range loop over the Secret's data meets; nil (the empty content) when
  there is none.\<close>

definition getKubeconfig :: "libsveltos \<Rightarrow> ('w, 'cfg) mgmt_env \<Rightarrow> ('w, string) act" where
  "getKubeconfig L M =
     andThen (cl_Get (me_secrets M) (ClassifierSecretNamespace L) (ClassifierSecretName L))
       (\<lambda>secret. ret (case Spec secret of [] \<Rightarrow> [] | (_, contents) # _ \<Rightarrow> contents))"

definition getManamegentClusterClient :: "libsveltos \<Rightarrow> ('w, 'cfg) mgmt_env \<Rightarrow> ('w, 'cfg) act" where
  "getManamegentClusterClient L M =
     andThen (getKubeconfig L M) (\<lambda>kubeconfigContent.
     andThen (os_CreateTemp M) (\<lambda>kubeconfigFile.
     deferring (os_Remove M kubeconfigFile)
       (andThen (os_Write M kubeconfigFile kubeconfigContent) (\<lambda>_.
        andThen (BuildConfigFromFlags M kubeconfigFile) (\<lambda>restConfig.
        andThen (AddToScheme M) (\<lambda>_.
        andThen (client_New M restConfig) (\<lambda>_. ret restConfig)))))))"

section \<open>Properties\<close>

text \<open>Building the client leaves alone whatever the system calls, the Secret reads and client-go
  leave alone.\<close>

definition mgmt_frame :: "('w, 'cfg) mgmt_env \<Rightarrow> ('w \<Rightarrow> 'r) \<Rightarrow> bool" where
  "mgmt_frame M rest \<longleftrightarrow>
     (\<forall>w ns n f s c.
        rest (snd (cl_Get (me_secrets M) ns n w)) = rest w \<and>
        rest (snd (os_CreateTemp M w)) = rest w \<and>
        rest (snd (os_Write M f s w)) = rest w \<and>
        rest (snd (os_Remove M f w)) = rest w \<and>
        rest (snd (BuildConfigFromFlags M f w)) = rest w \<and>
        rest (snd (AddToScheme M w)) = rest w \<and>
        rest (snd (client_New M c w)) = rest w)"

lemma getManamegentClusterClient_frame:
  assumes "mgmt_frame M rest"
  shows "rest (snd (getManamegentClusterClient L M w)) = rest w"
  using assms unfolding mgmt_frame_def getManamegentClusterClient_def getKubeconfig_def
  by (intro frame_call frame_deferring) simp_all

text \<open>The documented effect of the system calls on the files that exist.\<close>

definition temp_files :: "('w, 'cfg) mgmt_env \<Rightarrow> ('w \<Rightarrow> string set) \<Rightarrow> bool" where
  "temp_files M files \<longleftrightarrow>
     (\<forall>w ns n f s c.
        files (snd (cl_Get (me_secrets M) ns n w)) = files w \<and>
        (case os_CreateTemp M w of
           (Ok f, w') \<Rightarrow> f \<notin> files w \<and> files w' = insert f (files w)
         | (_, w') \<Rightarrow> files w' = files w) \<and>
        files (snd (os_Write M f s w)) = files w \<and>
        files (snd (os_Remove M f w)) = files w - {f} \<and>
        files (snd (BuildConfigFromFlags M f w)) = files w \<and>
        files (snd (AddToScheme M w)) = files w \<and>
        files (snd (client_New M c w)) = files w)"

lemma deferred_removal:
  assumes "files (snd (f w)) = files w" and "\<And>w'. files (snd (d w')) = files w' - {x}"
  shows "files (snd (deferring d f w)) = files w - {x}"
  using assms by (auto simp: deferring_def split: prod.splits)


end
