(* ===== verification/Reports.thy ===== *)
theory Reports
  imports Management
begin

text \<open>
  What the three evaluations that write reports have in common: a report is kept in the managed
  cluster, and delivered by reading it back, building a client for the management cluster, and
  creating or overwriting the report there. The locale \<open>report_delivery\<close> is the contract of the
  three stores involved (the two clients and the system calls in between); the law of a delivery is
  proved once in it, and used by the Classifier, HealthCheck and EventSource evaluations.
\<close>

section \<open>The contract of a delivery\<close>

locale report_delivery = api_client C stored "\<lambda>w. (mstored w, rest w)"
  for C :: "('w, 'spec) client"
    and stored :: "'w \<Rightarrow> string \<times> string \<Rightarrow> 'spec kobject option"
    and mstored :: "'w \<Rightarrow> string \<times> string \<Rightarrow> 'spec kobject option"
    and rest :: "'w \<Rightarrow> 'r" +
  fixes R :: "'cfg \<Rightarrow> ('w, 'spec) client"
    and M :: "('w, 'cfg) mgmt_env"
  assumes remote: "api_client (R cfg) mstored (\<lambda>w. (stored w, rest w))"
    and mgmt: "mgmt_frame M (\<lambda>w. (stored w, mstored w, rest w))"
begin

lemmas remote_get_Ok = api_client.get_Ok [OF remote]
  and remote_get_Err = api_client.get_Err [OF remote]
  and remote_create_Ok = api_client.create_Ok [OF remote]
  and remote_update_Ok = api_client.update_Ok [OF remote]
  and remote_key = api_client.stored_key [OF remote]

lemma mgmt_client_frame:
  "getManamegentClusterClient L M w = (r, w') \<Longrightarrow>
   stored w' = stored w \<and> mstored w' = mstored w \<and> rest w' = rest w"
  using getManamegentClusterClient_frame [OF mgmt, of L w] by simp

text \<open>What the remote half of a delivery leaves in the management cluster before the continuation
  (\<open>kc\<close> after a create, \<open>ku\<close> after an update) runs.\<close>

lemma remote_upsert:
  assumes run: "call (cl_Get (R cfg) ns n)
      (\<lambda>e. if e = NotFound then andThen (cl_Create (R cfg) new) kc else fail e)
      (\<lambda>cur. andThen (cl_Update (R cfg) (upd cur)) ku) w = (Ok u, w')"
    and new_key: "obj_key new = (ns, n)"
    and upd_key: "\<And>cur. obj_key (upd cur) = (ns, n)"
  obtains y w1 where
    "stored w1 = stored w" "rest w1 = rest w" "\<forall>k. k \<noteq> (ns, n) \<longrightarrow> mstored w1 k = mstored w k"
    "case mstored w (ns, n) of
       None \<Rightarrow> Spec y = Spec new \<and> label_of y = label_of new \<and> mstored w1 (ns, n) = Some y \<and>
         kc y w1 = (Ok u, w')
     | Some cur \<Rightarrow> Spec y = Spec (upd cur) \<and> label_of y = label_of (upd cur) \<and>
         (om_DeletionTimestamp (metadata cur) = None \<longrightarrow> mstored w1 (ns, n) = Some y) \<and>
         ku y w1 = (Ok u, w')"
proof -
  obtain r0 w0 where get: "cl_Get (R cfg) ns n w = (r0, w0)"
    by fastforce
  show thesis
  proof (cases r0)
    case (Ok cur)
    note g = remote_get_Ok [OF get [unfolded Ok]]
    from run get Ok obtain y w1 where upd: "cl_Update (R cfg) (upd cur) w0 = (Ok y, w1)"
      and ku: "ku y w1 = (Ok u, w')"
      by (auto simp: call_def fail_def split: prod.splits outcome.splits)
    from remote_update_Ok [OF upd] obtain old v where old: "mstored w0 (ns, n) = Some old"
      and y: "y = set_version v (set_deletion (om_DeletionTimestamp (metadata old))
                ((upd cur)\<lparr>status_Phase := status_Phase old\<rparr>))"
      and st: "mstored w1 = (mstored w0)((ns, n) :=
          (if om_DeletionTimestamp (metadata old) \<noteq> None \<and> om_Finalizers (metadata (upd cur)) = []
           then None else Some y))"
      and frame: "stored w1 = stored w0 \<and> rest w1 = rest w0"
      unfolding upd_key by auto
    show thesis
      by (rule that [of w1 y]) (use g frame st old ku in \<open>simp_all add: y\<close>)
  next
    case (Err e)
    note g = remote_get_Err [OF get [unfolded Err]]
    from run get Err have e: "e = NotFound"
      by (auto simp: call_Err fail_def split: if_splits)
    from run get Err e obtain y w1 where create: "cl_Create (R cfg) new w0 = (Ok y, w1)"
      and kc: "kc y w1 = (Ok u, w')"
      by (auto simp: call_def fail_def split: prod.splits outcome.splits)
    from remote_create_Ok [OF create] g e kc show thesis
      unfolding new_key by (intro that [of w1 y]) auto
  next
    case Panic
    with run get show thesis by (simp add: call_Panic)
  qed
qed

text \<open>The whole delivery.\<close>

lemma deliver_law:
  assumes run: "andThen (cl_Get C lns ln) (\<lambda>x.
      andThen (getManamegentClusterClient L M) (\<lambda>cfg.
        call (cl_Get (R cfg) ns n)
          (\<lambda>e. if e = NotFound then andThen (cl_Create (R cfg) (new x)) (kc x) else fail e)
          (\<lambda>cur. andThen (cl_Update (R cfg) (upd x cur)) (ku x)))) w = (Ok u, w')"
    and new_key: "\<And>x. obj_key (new x) = (ns, n)"
    and upd_key: "\<And>x cur. obj_key (upd x cur) = (ns, n)"
  obtains x y w1 where "stored w (lns, ln) = Some x"
    "stored w1 = stored w" "rest w1 = rest w" "\<forall>k. k \<noteq> (ns, n) \<longrightarrow> mstored w1 k = mstored w k"
    "case mstored w (ns, n) of
       None \<Rightarrow> Spec y = Spec (new x) \<and> label_of y = label_of (new x) \<and>
         mstored w1 (ns, n) = Some y \<and> kc x y w1 = (Ok u, w')
     | Some cur \<Rightarrow> Spec y = Spec (upd x cur) \<and> label_of y = label_of (upd x cur) \<and>
         (om_DeletionTimestamp (metadata cur) = None \<longrightarrow> mstored w1 (ns, n) = Some y) \<and>
         ku x y w1 = (Ok u, w')"
proof -
  from run obtain x w2 cfg w3 where get: "cl_Get C lns ln w = (Ok x, w2)"
    and client: "getManamegentClusterClient L M w2 = (Ok cfg, w3)"
    and push: "call (cl_Get (R cfg) ns n)
          (\<lambda>e. if e = NotFound then andThen (cl_Create (R cfg) (new x)) (kc x) else fail e)
          (\<lambda>cur. andThen (cl_Update (R cfg) (upd x cur)) (ku x)) w3 = (Ok u, w')"
    by (auto simp: call_def [of "cl_Get C lns ln"] call_def [of "getManamegentClusterClient L M"] fail_def
        split: prod.splits outcome.splits)
  have same: "stored w3 = stored w" "mstored w3 = mstored w" "rest w3 = rest w"
    and x: "stored w (lns, ln) = Some x"
    using get_Ok [OF get] mgmt_client_frame [OF client] by auto
  show thesis
    by (rule remote_upsert [OF push new_key upd_key]) (rule that [OF x]; simp add: same)
qed

text \<open>A delivery that ends with the write.\<close>

lemmas deliver_plain = deliver_law [where kc = "\<lambda>_. ret" and ku = "\<lambda>_. ret", unfolded andThen_ret]

end

end
