(* ===== verification/Selection.thy ===== *)
theory Selection
  imports Manager
begin

text \<open>
  How the agent finds the resources a selector names and lets a Lua script judge them:
  fetchClassifierDeployedResources and getResourcesForResourceSelector (classifier_evaluation.go),
  fetchResourcesMatchingResourceSelector (eventsource_evaluation.go, shared with the health
  checks), and the script runners isMatchForResourceSelectorScript, isMatchForEventSource and
  aggregatedClassification.
  Discovery, the dynamic client and the Lua interpreter are parameters. What Go's encoding/json does
  with a script's result is modelled: Marshal of a Go value to a document and Unmarshal of the
  document into a struct, with the case-insensitive field names, null and type errors.
\<close>

section \<open>Go values and JSON documents\<close>

text \<open>What sveltoslua.ToGoValue can return; \<open>GUnencodable\<close> is a value json.Marshal refuses, such as
  a number that is not finite. A number keeps its JSON text: no struct here has a number field.\<close>

datatype go_value =
    GNil
  | GBool bool
  | GNum string
  | GStr string
  | GSlice "go_value list"
  | GMap "(string \<times> go_value) list"
  | GUnencodable

datatype json =
    JNull
  | JBool bool
  | JNum string
  | JStr string
  | JArr "json list"
  | JObj "(string \<times> json) list"

definition obind :: "'a outcome \<Rightarrow> ('a \<Rightarrow> 'b outcome) \<Rightarrow> 'b outcome" where
  "obind r k = (case r of Ok x \<Rightarrow> k x | Err e \<Rightarrow> Err e | Panic \<Rightarrow> Panic)"

text \<open>json.Marshal; the keys of a map come out sorted.\<close>

fun json_Marshal :: "go_value \<Rightarrow> json outcome"
  and marshal_elems :: "go_value list \<Rightarrow> json list outcome"
  and marshal_fields :: "(string \<times> go_value) list \<Rightarrow> (string \<times> json) list outcome" where
  "json_Marshal GNil = Ok JNull"
| "json_Marshal (GBool b) = Ok (JBool b)"
| "json_Marshal (GNum s) = Ok (JNum s)"
| "json_Marshal (GStr s) = Ok (JStr s)"
| "json_Marshal (GSlice xs) = obind (marshal_elems xs) (\<lambda>js. Ok (JArr js))"
| "json_Marshal (GMap fs) = obind (marshal_fields fs) (\<lambda>js. Ok (JObj (sort_key fst js)))"
| "json_Marshal GUnencodable = Err (Other ''json: unsupported value'')"
| "marshal_elems [] = Ok []"
| "marshal_elems (x # xs) = obind (json_Marshal x) (\<lambda>j. obind (marshal_elems xs) (\<lambda>js. Ok (j # js)))"
| "marshal_fields [] = Ok []"
| "marshal_fields ((k, x) # fs) =
     obind (json_Marshal x) (\<lambda>j. obind (marshal_fields fs) (\<lambda>js. Ok ((k, j) # js)))"

definition ascii_lower :: "string \<Rightarrow> string" where
  "ascii_lower s =
     map (\<lambda>c. if CHR ''A'' \<le> c \<and> c \<le> CHR ''Z'' then char_of (of_char c + 32 :: nat) else c) s"

text \<open>The structs eventMatchStatus and aggregatedClassification: a bool and a message.\<close>

record match_status =
  Matching :: bool
  Message :: string

text \<open>Unmarshal goes over the fields of the document in order; a later field with the same name
  wins, null leaves a field alone, a value of another type is an error that is reported after the
  rest has been read.\<close>

fun unmarshal_match_fields :: "match_status \<Rightarrow> bool \<Rightarrow> (string \<times> json) list \<Rightarrow> match_status outcome" where
  "unmarshal_match_fields st bad [] =
     (if bad then Err (Other ''json: cannot unmarshal'') else Ok st)"
| "unmarshal_match_fields st bad ((k, v) # fs) =
     (if ascii_lower k = ''matching'' then
        (case v of
           JBool b \<Rightarrow> unmarshal_match_fields (st\<lparr>Matching := b\<rparr>) bad fs
         | JNull \<Rightarrow> unmarshal_match_fields st bad fs
         | _ \<Rightarrow> unmarshal_match_fields st True fs)
      else if ascii_lower k = ''message'' then
        (case v of
           JStr s \<Rightarrow> unmarshal_match_fields (st\<lparr>Message := s\<rparr>) bad fs
         | JNull \<Rightarrow> unmarshal_match_fields st bad fs
         | _ \<Rightarrow> unmarshal_match_fields st True fs)
      else unmarshal_match_fields st bad fs)"

definition unmarshal_match :: "json \<Rightarrow> match_status outcome" where
  "unmarshal_match j =
     (case j of
        JObj fs \<Rightarrow> unmarshal_match_fields \<lparr>Matching = False, Message = ''''\<rparr> False fs
      | JNull \<Rightarrow> Ok \<lparr>Matching = False, Message = ''''\<rparr>
      | _ \<Rightarrow> Err (Other ''json: cannot unmarshal''))"

section \<open>Lua scripts\<close>

text \<open>unstructured.Unstructured: the accessors the agent uses, and the whole content.\<close>

record unstructured =
  us_Namespace :: string
  us_Name :: string
  us_Kind :: string
  us_APIVersion :: string
  us_DeletionTimestamp :: "nat option"
  us_content :: go_value

text \<open>gopher-lua and libsveltos's lib/lua: load a script; call its global function evaluate with an
  argument that is also bound to a global name; the table, if the result is one, as a Go value.\<close>

record ('l, 'v) lua_ops =
  lua_DoString :: "string \<Rightarrow> 'l outcome"
  lua_MapToTable :: "go_value \<Rightarrow> 'v"
  lua_Table :: "'v list \<Rightarrow> 'v"
  lua_CallEvaluate :: "'l \<Rightarrow> string \<Rightarrow> 'v \<Rightarrow> 'v outcome"
  lua_TableToGo :: "'v \<Rightarrow> go_value option"
  LuaTableError :: string

definition script_result :: "('l, 'v) lua_ops \<Rightarrow> string \<Rightarrow> string \<Rightarrow> 'v \<Rightarrow> json outcome" where
  "script_result U script global arg =
     obind (lua_DoString U script) (\<lambda>l.
     obind (lua_CallEvaluate U l global arg) (\<lambda>lv.
       case lua_TableToGo U lv of
         None \<Rightarrow> Err (Other (LuaTableError U))
       | Some goResult \<Rightarrow> json_Marshal goResult))"

definition resource_table :: "('l, 'v) lua_ops \<Rightarrow> unstructured list \<Rightarrow> 'v" where
  "resource_table U resources = lua_Table U (map (\<lambda>r. lua_MapToTable U (us_content r)) resources)"

definition isMatchForResourceSelectorScript ::
  "('l, 'v) lua_ops \<Rightarrow> unstructured \<Rightarrow> string \<Rightarrow> bool outcome" where
  "isMatchForResourceSelectorScript U resource script =
     (if script = '''' then Ok True
      else obind (script_result U script ''obj'' (lua_MapToTable U (us_content resource))) (\<lambda>resultJson.
           obind (unmarshal_match resultJson) (\<lambda>result. Ok (Matching result))))"

definition isMatchForEventSource ::
  "('l, 'v) lua_ops \<Rightarrow> unstructured \<Rightarrow> string \<Rightarrow> bool outcome" where
  "isMatchForEventSource U resource script =
     (if script = '''' then Ok True
      else obind (script_result U script ''obj'' (lua_MapToTable U (us_content resource))) (\<lambda>resultJson.
           obind (unmarshal_match resultJson) (\<lambda>result. Ok (Matching result))))"

definition aggregatedClassification ::
  "('l, 'v) lua_ops \<Rightarrow> string \<Rightarrow> unstructured list \<Rightarrow> bool outcome" where
  "aggregatedClassification U luaScript resources =
     (if luaScript = '''' then Ok True
      else obind (script_result U luaScript ''resources'' (resource_table U resources)) (\<lambda>resultJson.
           obind (unmarshal_match resultJson) (\<lambda>result. Ok (Matching result))))"

section \<open>Selecting resources\<close>

text \<open>The LabelSelector string: one requirement per filter, separated by commas.\<close>

definition render_filter :: "label_filter \<Rightarrow> string" where
  "render_filter f =
     (if lf_Operation f = OperationEqual then lf_Key f @ ''='' @ lf_Value f
      else lf_Key f @ ''!='' @ lf_Value f)"

fun label_selector :: "string \<Rightarrow> label_filter list \<Rightarrow> string" where
  "label_selector labelFilter [] = labelFilter"
| "label_selector labelFilter (f # fs) =
     label_selector
       ((if labelFilter \<noteq> '''' then labelFilter @ '','' else labelFilter) @ render_filter f) fs"

text \<open>The FieldSelector string.\<close>

definition field_selector :: "string \<Rightarrow> string \<Rightarrow> string" where
  "field_selector ns n =
     (let byNamespace = (if ns \<noteq> '''' then ''metadata.namespace='' @ ns else '''')
      in if n \<noteq> ''''
         then (if byNamespace \<noteq> '''' then byNamespace @ '','' else byNamespace)
                @ ''metadata.name='' @ n
         else byNamespace)"

record list_options =
  lo_LabelSelector :: string
  lo_FieldSelector :: string

definition selector_options :: "resource_selector \<Rightarrow> list_options" where
  "selector_options rs =
     \<lparr>lo_LabelSelector =
        (if 0 < length (rs_LabelFilters rs) then label_selector '''' (rs_LabelFilters rs) else ''''),
      lo_FieldSelector = field_selector (rs_Namespace rs) (rs_Name rs)\<rparr>"

text \<open>Discovery and the dynamic client. The \<^verbatim>\<open>...OrDie\<close> constructors may panic. A dynamic client is
  built for an impersonated user (\<open>None\<close>: the agent's own identity).\<close>

record ('w, 'm) discovery =
  NewDiscoveryClientOrDie :: "('w, unit) act"
  GetAPIGroupResources :: "('w, 'm) act"
  RESTMapping :: "'m \<Rightarrow> string \<Rightarrow> string \<Rightarrow> string \<Rightarrow> ('w, string) act"
  NewDynamicOrDie :: "string option \<Rightarrow> ('w, unit) act"
  dyn_List :: "string option \<Rightarrow> string \<times> string \<times> string \<Rightarrow> list_options \<Rightarrow>
    ('w, unstructured list) act"

text \<open>A missing kind is no error: the list is nil (\<open>None\<close>).\<close>

definition fetchClassifierDeployedResources ::
  "('w, 'm) discovery \<Rightarrow> resource_selector \<Rightarrow> ('w, unstructured list option) act" where
  "fetchClassifierDeployedResources D rs =
     andThen (NewDiscoveryClientOrDie D) (\<lambda>_.
     andThen (GetAPIGroupResources D) (\<lambda>mapper.
     andThen (NewDynamicOrDie D None) (\<lambda>_.
     call (RESTMapping D mapper (rs_Group rs) (rs_Kind rs) (rs_Version rs))
       (\<lambda>e. if e = NoMatch then ret None else fail e)
       (\<lambda>resource.
          andThen (dyn_List D None (rs_Group rs, rs_Version rs, resource) (selector_options rs))
            (\<lambda>list. ret (Some list))))))"

text \<open>The loop over the listed items: keep those the script accepts, stop at an error.\<close>

fun keep_matching :: "('a \<Rightarrow> bool outcome) \<Rightarrow> 'a list \<Rightarrow> 'a list outcome" where
  "keep_matching f [] = Ok []"
| "keep_matching f (x # xs) =
     obind (f x) (\<lambda>match.
     obind (keep_matching f xs) (\<lambda>result. Ok (if match then x # result else result)))"

definition getResourcesForResourceSelector ::
  "('w, 'm) discovery \<Rightarrow> ('l, 'v) lua_ops \<Rightarrow> resource_selector \<Rightarrow> ('w, unstructured list) act" where
  "getResourcesForResourceSelector D U rs =
     andThen (fetchClassifierDeployedResources D rs) (\<lambda>list.
       case list of
         None \<Rightarrow> ret []
       | Some items \<Rightarrow>
           lift_outcome (keep_matching
             (\<lambda>item. isMatchForResourceSelectorScript U item (rs_Evaluate rs)) items))"

definition impersonated_user :: "libsveltos \<Rightarrow> string \<Rightarrow> string \<Rightarrow> string option" where
  "impersonated_user L saNamespace saName =
     (if saName \<noteq> ''''
      then Some (''system:serviceaccount:projectsveltos:'' @
             GetServiceAccountNameInManagedCluster L saNamespace saName)
      else None)"

definition fetchResourcesMatchingResourceSelector ::
  "libsveltos \<Rightarrow> ('w, 'm) discovery \<Rightarrow> ('l, 'v) lua_ops \<Rightarrow> resource_selector \<Rightarrow> string \<Rightarrow> string \<Rightarrow>
   ('w, unstructured list) act" where
  "fetchResourcesMatchingResourceSelector L D U rs saNamespace saName =
     andThen (NewDiscoveryClientOrDie D) (\<lambda>_.
     andThen (GetAPIGroupResources D) (\<lambda>mapper.
     call (RESTMapping D mapper (rs_Group rs) (rs_Kind rs) (rs_Version rs))
       (\<lambda>e. if e = NoMatch then ret [] else fail e)
       (\<lambda>resource.
          let user = impersonated_user L saNamespace saName in
          andThen (NewDynamicOrDie D user) (\<lambda>_.
          andThen (dyn_List D user (rs_Group rs, rs_Version rs, resource) (selector_options rs))
            (\<lambda>list. lift_outcome (keep_matching
               (\<lambda>item. isMatchForEventSource U item (rs_Evaluate rs))
               (filter (\<lambda>item. us_DeletionTimestamp item = None) list)))))))"

section \<open>What a selector string means\<close>

text \<open>The reader's side of the label selector: requirements separated by commas, each a key, whether
  it must be equal, and a value.\<close>

definition parse_requirement :: "string \<Rightarrow> string \<times> bool \<times> string" where
  "parse_requirement s =
     (let l = takeWhile (\<lambda>c. c \<noteq> CHR ''='') s; v = tl (dropWhile (\<lambda>c. c \<noteq> CHR ''='') s)
      in if l \<noteq> [] \<and> last l = CHR ''!'' then (butlast l, False, v) else (l, True, v))"

definition parse_selector :: "string \<Rightarrow> (string \<times> bool \<times> string) list" where
  "parse_selector s = map parse_requirement (split_on CHR '','' s)"

definition plain :: "string \<Rightarrow> bool" where
  "plain s \<longleftrightarrow> CHR '','' \<notin> set s \<and> CHR ''='' \<notin> set s \<and> CHR ''!'' \<notin> set s"

definition plain_filter :: "label_filter \<Rightarrow> bool" where
  "plain_filter f \<longleftrightarrow> plain (lf_Key f) \<and> plain (lf_Value f)"

section \<open>Lemmas\<close>

lemma obind_simps [simp]:
  "obind (Ok x) k = k x" "obind (Err e) k = Err e" "obind Panic k = Panic"
  by (simp_all add: obind_def)

lemma obind_eq_Ok: "obind r k = Ok y \<longleftrightarrow> (\<exists>x. r = Ok x \<and> k x = Ok y)"
  by (cases r) auto

lemma render_filter_nonempty [simp]: "render_filter f \<noteq> []"
  by (simp add: render_filter_def)

lemma label_selector_join:
  "fs \<noteq> [] \<Longrightarrow> label_selector acc fs =
     (if acc \<noteq> [] then acc @ '','' else []) @ join_with CHR '','' (map render_filter fs)"
proof (induction fs arbitrary: acc)
  case Nil
  then show ?case by simp
next
  case (Cons f fs)
  show ?case
  proof (cases "fs = []")
    case True
    then show ?thesis by simp
  next
    case False
    let ?acc = "(if acc \<noteq> [] then acc @ '','' else []) @ render_filter f"
    have "label_selector acc (f # fs) = label_selector ?acc fs"
      by simp
    also have "\<dots> = (?acc @ '','') @ join_with CHR '','' (map render_filter fs)"
      by (subst Cons.IH [OF False]) simp
    finally show ?thesis
      using False by (simp add: join_with_Cons)
  qed
qed

lemma takeWhile_sep: "c \<notin> set l \<Longrightarrow> takeWhile (\<lambda>x. x \<noteq> c) (l @ c # v) = l"
  by (induction l) auto

lemma dropWhile_sep: "c \<notin> set l \<Longrightarrow> dropWhile (\<lambda>x. x \<noteq> c) (l @ c # v) = c # v"
  by (induction l) auto

lemma parse_render:
  assumes "plain_filter f"
  shows "parse_requirement (render_filter f) = (lf_Key f, lf_Operation f = OperationEqual, lf_Value f)"
proof (cases "lf_Operation f = OperationEqual")
  case True
  have "last (lf_Key f) \<noteq> CHR ''!''" if "lf_Key f \<noteq> []"
    using assms that last_in_set by (fastforce simp: plain_filter_def plain_def)
  with True assms show ?thesis
    by (auto simp: parse_requirement_def render_filter_def plain_filter_def plain_def
        takeWhile_sep dropWhile_sep Let_def)
next
  case False
  have eq: "render_filter f = (lf_Key f @ ''!'') @ CHR ''='' # lf_Value f"
    using False by (simp add: render_filter_def)
  have "CHR ''='' \<notin> set (lf_Key f @ ''!'')"
    using assms by (simp add: plain_filter_def plain_def)
  then have "takeWhile (\<lambda>c. c \<noteq> CHR ''='') (render_filter f) = lf_Key f @ ''!''"
    and "dropWhile (\<lambda>c. c \<noteq> CHR ''='') (render_filter f) = CHR ''='' # lf_Value f"
    unfolding eq by (rule takeWhile_sep, rule dropWhile_sep)
  then show ?thesis
    using False by (simp add: parse_requirement_def)
qed

lemma render_no_comma: "plain_filter f \<Longrightarrow> CHR '','' \<notin> set (render_filter f)"
  by (auto simp: render_filter_def plain_filter_def plain_def)

lemma keep_matching_Ok:
  "keep_matching f xs = Ok ys \<longleftrightarrow>
     (\<forall>x \<in> set xs. \<exists>b. f x = Ok b) \<and> ys = filter (\<lambda>x. f x = Ok True) xs"
proof (induction xs arbitrary: ys)
  case Nil
  show ?case by auto
next
  case (Cons x xs)
  show ?case
  proof (cases "f x")
    case (Ok b)
    then show ?thesis by (cases b) (auto simp: obind_eq_Ok Cons.IH)
  qed simp_all
qed

text \<open>Discovery and listing only read: they leave alone whatever \<open>rest\<close> sees.\<close>

definition discovery_frame :: "('w, 'm) discovery \<Rightarrow> ('w \<Rightarrow> 'r) \<Rightarrow> bool" where
  "discovery_frame D rest \<longleftrightarrow>
     (\<forall>w mapper g k v user gvr options.
        rest (snd (NewDiscoveryClientOrDie D w)) = rest w \<and>
        rest (snd (GetAPIGroupResources D w)) = rest w \<and>
        rest (snd (RESTMapping D mapper g k v w)) = rest w \<and>
        rest (snd (NewDynamicOrDie D user w)) = rest w \<and>
        rest (snd (dyn_List D user gvr options w)) = rest w)"

lemma getResourcesForResourceSelector_frame:
  assumes "discovery_frame D rest"
  shows "rest (snd (getResourcesForResourceSelector D U rs w)) = rest w"
  using assms
  unfolding discovery_frame_def getResourcesForResourceSelector_def fetchClassifierDeployedResources_def
  by (intro frame_call) (simp_all split: option.split)

lemma fetchResourcesMatchingResourceSelector_frame:
  assumes "discovery_frame D rest"
  shows "rest (snd (fetchResourcesMatchingResourceSelector L D U rs ns n w)) = rest w"
  using assms
  unfolding discovery_frame_def fetchResourcesMatchingResourceSelector_def Let_def
  by (intro frame_call) simp_all

text \<open>The label selector sent to the API server says exactly what the filters say: read back,
  it is the list of the filters (key, whether the value must be equal, value), in order, for keys and
  values free of the selector syntax's own characters.\<close>

theorem label_selector_roundtrip:
  assumes "fs \<noteq> []" and "\<forall>f \<in> set fs. plain_filter f"
  shows "parse_selector (label_selector '''' fs) =
    map (\<lambda>f. (lf_Key f, lf_Operation f = OperationEqual, lf_Value f)) fs"
proof -
  have "split_on CHR '','' (join_with CHR '','' (map render_filter fs)) = map render_filter fs"
    using assms by (intro split_join) (auto simp: render_no_comma)
  then show ?thesis
    unfolding parse_selector_def label_selector_join [OF assms(1)]
    using assms(2) by (simp add: parse_render)
qed

theorem label_selector_roundtrip_witness:
  "parse_selector (label_selector ''''
     [\<lparr>lf_Key = ''env'', lf_Operation = OperationEqual, lf_Value = ''prod''\<rparr>,
      \<lparr>lf_Key = ''tier'', lf_Operation = OtherOperation ''Different'', lf_Value = ''db''\<rparr>]) =
   [(''env'', True, ''prod''), (''tier'', False, ''db'')]"
  using label_selector_roundtrip [of
      "[\<lparr>lf_Key = ''env'', lf_Operation = OperationEqual, lf_Value = ''prod''\<rparr>,
        \<lparr>lf_Key = ''tier'', lf_Operation = OtherOperation ''Different'', lf_Value = ''db''\<rparr>]"]
  by (simp add: plain_filter_def plain_def)

end
