(* ===== verification/Reference_Env.thy ===== *)
theory Reference_Env
  imports Reports Selection
begin

text \<open>
  A small executable environment for an evaluation: three API servers (the watched Sveltos
  resources, the reports in the managed cluster, the reports in the management cluster), the Secret
  with the kubeconfig, a file system, the deployed resources and four Lua scripts. It meets every contract
  the evaluations put on their parameters, and the witnesses run on it.
\<close>

section \<open>The world\<close>

record ('a, 'b) agent_world =
  aw_sources :: "'a server"
  aw_reports :: "'b server"
  aw_mgmt :: "'b server"
  aw_secrets :: "(string, string) gomap server"
  aw_files :: "(string, string) gomap"
  aw_resources :: "((string \<times> string \<times> string) \<times> unstructured) list"
  aw_version :: string

definition sources_client :: "(('a, 'b) agent_world, 'a) client" where
  "sources_client = server_client aw_sources (\<lambda>s w. w\<lparr>aw_sources := s\<rparr>)"

definition reports_client :: "(('a, 'b) agent_world, 'b) client" where
  "reports_client = server_client aw_reports (\<lambda>s w. w\<lparr>aw_reports := s\<rparr>)"

definition mgmt_client :: "(('a, 'b) agent_world, 'b) client" where
  "mgmt_client = server_client aw_mgmt (\<lambda>s w. w\<lparr>aw_mgmt := s\<rparr>)"

definition secrets_client :: "(('a, 'b) agent_world, (string, string) gomap) client" where
  "secrets_client = server_client aw_secrets (\<lambda>s w. w\<lparr>aw_secrets := s\<rparr>)"

text \<open>A temporary file gets a name longer than every name in use; an empty kubeconfig is invalid.\<close>

definition fresh_name :: "(string, string) gomap \<Rightarrow> string" where
  "fresh_name files = ''kubeconfig'' @ concat (map fst files)"

definition ref_mgmt :: "(('a, 'b) agent_world, string) mgmt_env" where
  "ref_mgmt =
     \<lparr>me_secrets = secrets_client,
      os_CreateTemp = \<lambda>w. let f = fresh_name (aw_files w)
        in (Ok f, w\<lparr>aw_files := put f '''' (aw_files w)\<rparr>),
      os_Write = \<lambda>f s w. if f \<in> keys (aw_files w)
        then (Ok (), w\<lparr>aw_files := put f s (aw_files w)\<rparr>) else (Err (Other ''closed file''), w),
      os_Remove = \<lambda>f w. (Ok (), w\<lparr>aw_files := del f (aw_files w)\<rparr>),
      BuildConfigFromFlags = \<lambda>f w.
        (case map_of (aw_files w) f of
           None \<Rightarrow> (Err (Other ''no such file''), w)
         | Some s \<Rightarrow> if s = '''' then (Err (Other ''invalid configuration''), w) else (Ok s, w)),
      AddToScheme = ret (),
      client_New = \<lambda>_. ret ()\<rparr>"

text \<open>The installed kinds are those with a deployed resource; the plural of a kind is the kind.\<close>

definition ref_discovery :: "(('a, 'b) agent_world, (string \<times> string \<times> string) list) discovery" where
  "ref_discovery =
     \<lparr>NewDiscoveryClientOrDie = ret (),
      GetAPIGroupResources = \<lambda>w. (Ok (map fst (aw_resources w)), w),
      RESTMapping = \<lambda>mapper g k v.
        if (g, v, k) \<in> set mapper then ret k else fail NoMatch,
      NewDynamicOrDie = \<lambda>_. ret (),
      dyn_List = \<lambda>user gvr options w.
        (Ok (map snd (filter (\<lambda>(key, _). key = gvr) (aw_resources w))), w)\<rparr>"

definition ref_scripts :: "string \<Rightarrow> go_value \<Rightarrow> go_value outcome" where
  "ref_scripts script arg =
     (if script = ''yes'' then Ok (GMap [(''matching'', GBool True)])
      else if script = ''some'' then
        Ok (GMap [(''matching'', GBool (arg \<noteq> GSlice []))])
      else if script = ''all'' then Ok (GMap [(''resources'', arg)])
      else if script = ''healthy'' then
        (case arg of
           GSlice rs \<Rightarrow> Ok (GMap [(''resources'',
             GSlice (map (\<lambda>r. GMap [(''resource'', r), (''status'', GStr ''Healthy'')]) rs))])
         | _ \<Rightarrow> Err (Other ''not a table''))
      else Err (Other ''no function evaluate''))"

definition ref_lua :: "(string, go_value) lua_ops" where
  "ref_lua =
     \<lparr>lua_DoString = \<lambda>s. if s = ''bad'' then Err (Other ''syntax error'') else Ok s,
      lua_MapToTable = \<lambda>v. v, lua_Table = GSlice,
      lua_CallEvaluate = \<lambda>l global arg. ref_scripts l arg,
      lua_TableToGo = Some, LuaTableError = ''lua script output is not a lua table''\<rparr>"

definition ref_lib :: libsveltos where
  "ref_lib =
     \<lparr>ReloaderKind = ''Reloader'', lib_GroupVersion = ''lib.projectsveltos.io/v1beta1'',
      core_GroupVersion = ''v1'', apps_Group = ''apps'', apps_Version = ''v1'',
      apps_GroupVersion = ''apps/v1'',
      ClassifierlNameLabel = ''classifier-name'', HealthCheckNameLabel = ''healthcheck-name'',
      EventSourceNameLabel = ''eventsource-name'',
      ServiceAccountNameLabel = ''sa-name'', ServiceAccountNamespaceLabel = ''sa-namespace'',
      DeployedBySveltosAnnotation = ''deployed-by-sveltos'',
      ClassifierSecretNamespace = ''projectsveltos'', ClassifierSecretName = ''kubeconfig'',
      GetClassifierReportName = \<lambda>n c t. t @ ''--'' @ n @ ''--'' @ c,
      GetClassifierReportLabels = \<lambda>n c t. [(''classifier'', n), (''cluster'', c)],
      GetHealthCheckReportName = \<lambda>n c t. t @ ''--'' @ n @ ''--'' @ c,
      GetHealthCheckReportLabels = \<lambda>n c t. [(''healthcheck'', n), (''cluster'', c)],
      GetEventReportName = \<lambda>n c t. t @ ''--'' @ n @ ''--'' @ c,
      GetEventReportLabels = \<lambda>n c t. [(''eventsource'', n), (''cluster'', c)],
      GetReloaderReportName = \<lambda>k ns n c t. t @ ''--'' @ k @ ''--'' @ ns @ ''--'' @ n @ ''--'' @ c,
      GetReloaderReportLabels = \<lambda>c t. [(''cluster'', c)],
      GetReloaderReportAnnotations = \<lambda>k ns n. [(''kind'', k), (''namespace'', ns), (''name'', n)],
      GetServiceAccountNameInManagedCluster = \<lambda>ns n. ns @ ''--'' @ n\<rparr>"

definition ref_world :: "'a kobject list \<Rightarrow> 'b kobject list \<Rightarrow> 'b kobject list \<Rightarrow>
    ((string \<times> string \<times> string) \<times> unstructured) list \<Rightarrow> ('a, 'b) agent_world" where
  "ref_world sources reports mgmt resources =
     \<lparr>aw_sources = new_server sources, aw_reports = new_server reports, aw_mgmt = new_server mgmt,
      aw_secrets = new_server [\<lparr>metadata = empty_meta ''projectsveltos'' ''kubeconfig'',
        Spec = [(''value'', ''config'')], status_Phase = None\<rparr>],
      aw_files = [], aw_resources = resources, aw_version = ''1.27.3''\<rparr>"

definition ref_manager :: "bool \<Rightarrow> manager" where
  "ref_manager send = the (InitializeManager ''cns'' ''cn'' ''capi'' 10 send None)"

section \<open>It meets the contracts\<close>

lemma ref_mgmt_frame:
  "mgmt_frame ref_mgmt (\<lambda>w. (srv_stored aw_reports w, srv_stored aw_mgmt w, srv_stored aw_sources w))"
  by (auto simp: mgmt_frame_def ref_mgmt_def secrets_client_def serve_def Let_def ret_def
      split: list.splits option.splits prod.splits)

lemma ref_discovery_frame: "discovery_frame ref_discovery rest"
  by (auto simp: discovery_frame_def ref_discovery_def ret_def fail_def)

lemma ref_sources_api:
  "api_client sources_client (srv_stored aw_sources) (\<lambda>w. (srv_stored aw_reports w, srv_stored aw_mgmt w))"
  unfolding sources_client_def by (rule server_client_api) (simp add: server_at_def)

lemma ref_reports_api:
  "api_client reports_client (srv_stored aw_reports) (\<lambda>w. (srv_stored aw_mgmt w, srv_stored aw_sources w))"
  unfolding reports_client_def by (rule server_client_api) (simp add: server_at_def)

lemma ref_reports_reliable:
  "reliable_client reports_client (srv_stored aw_reports) (\<lambda>w. (srv_stored aw_mgmt w, srv_stored aw_sources w))
     (\<lambda>w. srv_faults (aw_reports w) = [])"
  unfolding reports_client_def by (rule server_client_reliable) (simp add: server_at_def)

lemma ref_mgmt_api:
  "api_client mgmt_client (srv_stored aw_mgmt) (\<lambda>w. (srv_stored aw_reports w, srv_stored aw_sources w))"
  unfolding mgmt_client_def by (rule server_client_api) (simp add: server_at_def)

lemma ref_report_delivery:
  "report_delivery reports_client (srv_stored aw_reports) (srv_stored aw_mgmt) (srv_stored aw_sources)
     (\<lambda>_. mgmt_client) ref_mgmt"
  by (intro report_delivery.intro report_delivery_axioms.intro ref_reports_api ref_mgmt_api ref_mgmt_frame)

interpretation ref_delivery: report_delivery reports_client "srv_stored aw_reports" "srv_stored aw_mgmt"
  "srv_stored aw_sources" "\<lambda>_. mgmt_client" ref_mgmt
  by (rule ref_report_delivery)

lemma key_length: "k \<in> keys files \<Longrightarrow> length k \<le> length (concat (map fst files))"
  by (induction files) force+

lemma fresh_name_fresh: "fresh_name files \<notin> keys files"
  using key_length [of "fresh_name files" files] by (auto simp: fresh_name_def)

lemma ref_mgmt_temp_files: "temp_files ref_mgmt (\<lambda>w. keys (aw_files w))"
  by (auto simp: temp_files_def ref_mgmt_def secrets_client_def serve_def Let_def ret_def fresh_name_fresh
      split: list.splits option.splits prod.splits)


end
