(* ===== verification/Classifier_Evaluation.thy ===== *)
theory Classifier_Evaluation
  imports Reference_Env
begin

text \<open>
  pkg/evaluation/classifier_evaluation.go: the evaluation of a Classifier. The Kubernetes version of
  the cluster is checked against the version constraints, the deployed resources against the
  resource selectors, and the answer is written to a ClassifierReport, which is sent to the
  management cluster when the agent is run to send reports.
  The version service, Masterminds/semver and the clients are parameters (\<open>classifier_env\<close>).
  semver's NewConstraint returns a pointer and an error, both kept: the code goes on after the error
  and calls Check through the pointer, which is nil then.
\<close>

section \<open>Data\<close>

datatype comparison =
    ComparisonEqual
  | ComparisonNotEqual
  | ComparisonGreaterThan
  | ComparisonGreaterThanOrEqualTo
  | ComparisonLessThan
  | ComparisonLessThanOrEqualTo
  | OtherComparison string

record version_constraint =
  vc_Version :: string
  vc_Comparison :: comparison

record deployed_resource_constraint =
  drc_ResourceSelectors :: "resource_selector list"
  drc_AggregatedClassification :: string

text \<open>A nil slice of version constraints is \<open>None\<close>.\<close>

record classifier_spec =
  cs_KubernetesVersionConstraints :: "version_constraint list option"
  cs_DeployedResourceConstraint :: "deployed_resource_constraint option"

record classifier_report_spec =
  crs_ClusterNamespace :: string
  crs_ClusterName :: string
  crs_ClusterType :: string
  crs_ClassifierName :: string
  crs_Match :: bool

type_synonym classifier = "classifier_spec kobject"
type_synonym classifier_report = "classifier_report_spec kobject"

record ('sv, 'sc) semver =
  semver_NewVersion :: "string \<Rightarrow> 'sv outcome"
  semver_Major :: "'sv \<Rightarrow> 64 word"
  semver_Minor :: "'sv \<Rightarrow> 64 word"
  semver_Patch :: "'sv \<Rightarrow> 64 word"
  semver_NewConstraint :: "string \<Rightarrow> 'sc option \<times> go_error option"
  semver_Check :: "'sc \<Rightarrow> 'sv \<Rightarrow> bool"

record ('w, 'cfg, 'm, 'l, 'v, 'sv, 'sc) classifier_env =
  ce_lib :: libsveltos
  ce_classifiers :: "('w, classifier_spec) client"
  ce_reports :: "('w, classifier_report_spec) client"
  ce_mgmt :: "('w, 'cfg) mgmt_env"
  ce_mgmtReports :: "'cfg \<Rightarrow> ('w, classifier_report_spec) client"
  ce_discovery :: "('w, 'm) discovery"
  ce_lua :: "('l, 'v) lua_ops"
  ce_semver :: "('sv, 'sc) semver"
  ce_GetKubernetesVersion :: "('w, string) act"

section \<open>Is the version a match\<close>

definition version_constraints :: "classifier \<Rightarrow> version_constraint list" where
  "version_constraints c =
     (case cs_KubernetesVersionConstraints (Spec c) of None \<Rightarrow> [] | Some ks \<Rightarrow> ks)"

text \<open>The switch over the comparison: the constraint pointer; an unknown comparison sets none.\<close>

definition comparison_operator :: "comparison \<Rightarrow> string option" where
  "comparison_operator op =
     (case op of
        ComparisonEqual \<Rightarrow> Some ''=''
      | ComparisonNotEqual \<Rightarrow> Some ''!=''
      | ComparisonGreaterThan \<Rightarrow> Some ''>''
      | ComparisonGreaterThanOrEqualTo \<Rightarrow> Some ''>=''
      | ComparisonLessThan \<Rightarrow> Some ''<''
      | ComparisonLessThanOrEqualTo \<Rightarrow> Some ''<=''
      | OtherComparison _ \<Rightarrow> None)"

definition build_constraint :: "('sv, 'sc) semver \<Rightarrow> version_constraint \<Rightarrow> 'sc option" where
  "build_constraint V k =
     (case comparison_operator (vc_Comparison k) of
        None \<Rightarrow> None
      | Some op \<Rightarrow> fst (semver_NewConstraint V (op @ '' '' @ vc_Version k)))"

text \<open>The loop. An error of NewConstraint is only logged; Check through a nil pointer panics.\<close>

fun check_constraints :: "('sv, 'sc) semver \<Rightarrow> 'sv \<Rightarrow> version_constraint list \<Rightarrow> bool outcome" where
  "check_constraints V version [] = Ok True"
| "check_constraints V version (k # ks) =
     (case build_constraint V k of
        None \<Rightarrow> Panic
      | Some c \<Rightarrow>
          if \<not> semver_Check V c version then Ok False else check_constraints V version ks)"

definition comparable_version :: "('sv, 'sc) semver \<Rightarrow> 'sv \<Rightarrow> string" where
  "comparable_version V v =
     show_nat (unat (semver_Major V v)) @ ''.'' @ show_nat (unat (semver_Minor V v)) @ ''.'' @
     show_nat (unat (semver_Patch V v))"

definition isVersionAMatch ::
  "('w, 'cfg, 'm, 'l, 'v, 'sv, 'sc) classifier_env \<Rightarrow> classifier \<Rightarrow> ('w, bool) act" where
  "isVersionAMatch E c =
     andThen (ce_GetKubernetesVersion E) (\<lambda>currentVersion.
     andThen (lift_outcome (semver_NewVersion (ce_semver E) currentVersion)) (\<lambda>currentSemVersion.
     andThen (lift_outcome (semver_NewVersion (ce_semver E)
                (comparable_version (ce_semver E) currentSemVersion))) (\<lambda>comparableSemVersion.
       lift_outcome
         (check_constraints (ce_semver E) comparableSemVersion (version_constraints c)))))"

section \<open>Are the resources a match\<close>

fun match_selectors ::
  "('w, 'm) discovery \<Rightarrow> ('l, 'v) lua_ops \<Rightarrow> string \<Rightarrow> unstructured list \<Rightarrow> resource_selector list \<Rightarrow>
   ('w, bool) act" where
  "match_selectors D U aggregated resources [] =
     (if aggregated \<noteq> '''' then lift_outcome (aggregatedClassification U aggregated resources)
      else ret True)"
| "match_selectors D U aggregated resources (rs # rss) =
     andThen (getResourcesForResourceSelector D U rs) (\<lambda>tmpResult.
       if aggregated = '''' \<and> length tmpResult = 0 then ret False
       else match_selectors D U aggregated (resources @ tmpResult) rss)"

definition areResourcesAMatch ::
  "('w, 'cfg, 'm, 'l, 'v, 'sv, 'sc) classifier_env \<Rightarrow> classifier \<Rightarrow> ('w, bool) act" where
  "areResourcesAMatch E c =
     (case cs_DeployedResourceConstraint (Spec c) of
        None \<Rightarrow> ret True
      | Some d \<Rightarrow>
          match_selectors (ce_discovery E) (ce_lua E) (drc_AggregatedClassification d) []
            (drc_ResourceSelectors d))"

section \<open>ClassifierReports\<close>

definition getClassifierReport :: "libsveltos \<Rightarrow> string \<Rightarrow> bool \<Rightarrow> classifier_report" where
  "getClassifierReport L classifierNm isMatch =
     \<lparr>metadata = (empty_meta ReportNamespace classifierNm)
        \<lparr>om_Labels := Some [(ClassifierlNameLabel L, classifierNm)]\<rparr>,
      Spec = \<lparr>crs_ClusterNamespace = '''', crs_ClusterName = '''', crs_ClusterType = '''',
        crs_ClassifierName = classifierNm, crs_Match = isMatch\<rparr>,
      status_Phase = None\<rparr>"

definition updateClassifierReportStatus ::
  "('w, 'cfg, 'm, 'l, 'v, 'sv, 'sc) classifier_env \<Rightarrow> classifier_report \<Rightarrow> ('w, classifier_report) act" where
  "updateClassifierReportStatus E classifierReport =
     cl_StatusUpdate (ce_reports E)
       (classifierReport\<lparr>status_Phase := Some ReportWaitingForDelivery\<rparr>)"

definition updateClassifierReport ::
  "('w, 'cfg, 'm, 'l, 'v, 'sv, 'sc) classifier_env \<Rightarrow> classifier \<Rightarrow> bool \<Rightarrow> classifier_report \<Rightarrow>
   ('w, classifier_report) act" where
  "updateClassifierReport E c isMatch classifierReport =
     andThen
       (cl_Update (ce_reports E)
          ((set_label (ClassifierlNameLabel (ce_lib E)) (om_Name (metadata c)) classifierReport)
             \<lparr>Spec := (Spec classifierReport)\<lparr>crs_Match := isMatch\<rparr>\<rparr>))
       (\<lambda>r. updateClassifierReportStatus E r)"

definition createClassifierReport ::
  "('w, 'cfg, 'm, 'l, 'v, 'sv, 'sc) classifier_env \<Rightarrow> classifier \<Rightarrow> bool \<Rightarrow> ('w, classifier_report) act" where
  "createClassifierReport E c isMatch =
     call (cl_Get (ce_reports E) ReportNamespace (om_Name (metadata c)))
       (\<lambda>e. if e \<noteq> NotFound then fail e
            else andThen
              (cl_Create (ce_reports E)
                 (getClassifierReport (ce_lib E) (om_Name (metadata c)) isMatch))
              (\<lambda>r. updateClassifierReportStatus E r))
       (\<lambda>classifierReport. updateClassifierReport E c isMatch classifierReport)"

definition cleanClassifierReport ::
  "('w, 'cfg, 'm, 'l, 'v, 'sv, 'sc) classifier_env \<Rightarrow> string \<Rightarrow> ('w, unit) act" where
  "cleanClassifierReport E classifierNm =
     call (cl_Get (ce_reports E) ReportNamespace classifierNm)
       (\<lambda>e. if e = NotFound then ret () else fail e)
       (\<lambda>classifierReport. cl_Delete (ce_reports E) classifierReport)"

text \<open>The report as it is created in, and as it overwrites, the management cluster's.\<close>

definition new_mgmt_report ::
  "libsveltos \<Rightarrow> manager \<Rightarrow> string \<Rightarrow> classifier_report \<Rightarrow> classifier_report" where
  "new_mgmt_report L m classifierNm classifierReport =
     \<lparr>metadata = (empty_meta (clusterNamespace m)
          (GetClassifierReportName L classifierNm (clusterName m) (clusterType m)))
        \<lparr>om_Labels := Some (GetClassifierReportLabels L classifierNm (clusterName m) (clusterType m))\<rparr>,
      Spec = (Spec classifierReport)\<lparr>crs_ClusterNamespace := clusterNamespace m,
        crs_ClusterName := clusterName m, crs_ClusterType := clusterType m\<rparr>,
      status_Phase = None\<rparr>"

definition overwrite_mgmt_report ::
  "libsveltos \<Rightarrow> manager \<Rightarrow> string \<Rightarrow> classifier_report \<Rightarrow> classifier_report \<Rightarrow> classifier_report" where
  "overwrite_mgmt_report L m classifierNm classifierReport current =
     current\<lparr>metadata := (metadata current)
        \<lparr>om_Namespace := clusterNamespace m,
         om_Name := GetClassifierReportName L classifierNm (clusterName m) (clusterType m),
         om_Labels := Some (GetClassifierReportLabels L classifierNm (clusterName m) (clusterType m))\<rparr>,
      Spec := (Spec current)\<lparr>crs_ClusterType := clusterType m,
        crs_Match := crs_Match (Spec classifierReport)\<rparr>\<rparr>"

definition sendClassifierReport ::
  "('w, 'cfg, 'm, 'l, 'v, 'sv, 'sc) classifier_env \<Rightarrow> manager \<Rightarrow> classifier \<Rightarrow> ('w, classifier_report) act" where
  "sendClassifierReport E m c =
     (let classifierNm = om_Name (metadata c) in
      andThen (cl_Get (ce_reports E) ReportNamespace classifierNm) (\<lambda>classifierReport.
      andThen (getManamegentClusterClient (ce_lib E) (ce_mgmt E)) (\<lambda>cfg.
        let agentClient = ce_mgmtReports E cfg in
        call (cl_Get agentClient (clusterNamespace m)
                (GetClassifierReportName (ce_lib E) classifierNm (clusterName m) (clusterType m)))
          (\<lambda>e. if e = NotFound
               then cl_Create agentClient (new_mgmt_report (ce_lib E) m classifierNm classifierReport)
               else fail e)
          (\<lambda>current. cl_Update agentClient
               (overwrite_mgmt_report (ce_lib E) m classifierNm classifierReport current)))))"

section \<open>Evaluating a Classifier\<close>

definition classifier_match ::
  "('w, 'cfg, 'm, 'l, 'v, 'sv, 'sc) classifier_env \<Rightarrow> classifier \<Rightarrow> ('w, bool) act" where
  "classifier_match E c =
     andThen (isVersionAMatch E c) (\<lambda>match. if match then areResourcesAMatch E c else ret False)"

definition evaluateClassifierInstance ::
  "('w, 'cfg, 'm, 'l, 'v, 'sv, 'sc) classifier_env \<Rightarrow> manager \<Rightarrow> string \<Rightarrow> ('w, unit) act" where
  "evaluateClassifierInstance E m classifierNm =
     call (cl_Get (ce_classifiers E) '''' classifierNm)
       (\<lambda>e. if e = NotFound then cleanClassifierReport E classifierNm else fail e)
       (\<lambda>c. if om_DeletionTimestamp (metadata c) \<noteq> None then cleanClassifierReport E classifierNm
            else andThen (classifier_match E c) (\<lambda>match.
                 andThen (createClassifierReport E c match) (\<lambda>_.
                   if sendReport m
                   then andThen (sendClassifierReport E m c) (\<lambda>_. ret ())
                   else ret ())))"

text \<open>One iteration of the loop evaluateClassifiers.\<close>

definition evaluateClassifiers ::
  "('w, 'cfg, 'm, 'l, 'v, 'sv, 'sc) classifier_env \<Rightarrow> string list \<Rightarrow> manager \<Rightarrow> ('w, manager) act" where
  "evaluateClassifiers E others m =
     evaluation_round drain_classifiers EvaluateClassifier (evaluateClassifierInstance E m) others m"

section \<open>Lemmas on the version check\<close>

definition satisfies :: "('sv, 'sc) semver \<Rightarrow> 'sv \<Rightarrow> version_constraint \<Rightarrow> bool" where
  "satisfies V u k = (case build_constraint V k of None \<Rightarrow> False | Some sc \<Rightarrow> semver_Check V sc u)"

lemma check_constraints_all:
  "\<forall>k \<in> set ks. build_constraint V k \<noteq> None \<Longrightarrow>
   check_constraints V v ks = Ok (\<forall>k \<in> set ks. satisfies V v k)"
  by (induction ks) (auto simp: satisfies_def)

lemma check_constraints_panics:
  "\<forall>k \<in> set ks. satisfies V v k \<Longrightarrow>
   build_constraint V bad = None \<Longrightarrow> check_constraints V v (ks @ bad # post) = Panic"
  by (induction ks) (auto simp: satisfies_def split: option.splits)

section \<open>Lemmas on the resource check\<close>

text \<open>Reads are stable while \<open>calm\<close> holds: a selector finds the same resources each time, and
  looking does not disturb \<open>calm\<close>.\<close>

definition stable_resources ::
  "('w, 'm) discovery \<Rightarrow> ('l, 'v) lua_ops \<Rightarrow> ('w \<Rightarrow> bool) \<Rightarrow> resource_selector list \<Rightarrow>
   (resource_selector \<Rightarrow> unstructured list) \<Rightarrow> bool" where
  "stable_resources D U calm rss found \<longleftrightarrow>
     (\<forall>rs \<in> set rss. \<forall>w. calm w \<longrightarrow>
        fst (getResourcesForResourceSelector D U rs w) = Ok (found rs) \<and>
        calm (snd (getResourcesForResourceSelector D U rs w)))"

lemma match_selectors_stable:
  "stable_resources D U calm rss found \<Longrightarrow> calm w \<Longrightarrow>
   fst (match_selectors D U agg acc rss w) =
     (if agg = '''' then Ok (\<forall>rs \<in> set rss. found rs \<noteq> [])
      else aggregatedClassification U agg (acc @ concat (map found rss)))"
proof (induction rss arbitrary: acc w)
  case Nil
  show ?case by (simp add: ret_def lift_outcome_def)
next
  case (Cons rs rss)
  obtain w' where step: "getResourcesForResourceSelector D U rs w = (Ok (found rs), w')" and w': "calm w'"
    using Cons.prems by (cases "getResourcesForResourceSelector D U rs w") (force simp: stable_resources_def)
  have "stable_resources D U calm rss found"
    using Cons.prems by (simp add: stable_resources_def)
  from Cons.IH [OF this w', of "acc @ found rs"] show ?case
    by (auto simp: call_Ok [where f = "getResourcesForResourceSelector D U rs", OF step] ret_def)
qed

section \<open>Lemmas on the reports\<close>

text \<open>The contracts of everything an evaluation of a Classifier talks to: the clients for Classifiers
  and ClassifierReports in the managed cluster, the one for ClassifierReports in the management
  cluster, and reads (the version service, discovery) that change none of them.\<close>

locale classifier_world =
  report_delivery "ce_reports E" reports mgmt sources "ce_mgmtReports E" "ce_mgmt E"
  for E :: "('w, 'cfg, 'm, 'l, 'v, 'sv, 'sc) classifier_env"
    and sources :: "'w \<Rightarrow> string \<times> string \<Rightarrow> classifier option"
    and reports :: "'w \<Rightarrow> string \<times> string \<Rightarrow> classifier_report option"
    and mgmt :: "'w \<Rightarrow> string \<times> string \<Rightarrow> classifier_report option" +
  assumes src: "api_client (ce_classifiers E) sources (\<lambda>w. (reports w, mgmt w))"
    and version_read: "(sources (snd (ce_GetKubernetesVersion E w)),
      reports (snd (ce_GetKubernetesVersion E w)), mgmt (snd (ce_GetKubernetesVersion E w))) =
      (sources w, reports w, mgmt w)"
    and discovery_read: "discovery_frame (ce_discovery E) (\<lambda>w. (sources w, reports w, mgmt w))"
begin

lemma match_selectors_frame:
  "(sources (snd (match_selectors (ce_discovery E) U agg acc rss w)),
    reports (snd (match_selectors (ce_discovery E) U agg acc rss w)),
    mgmt (snd (match_selectors (ce_discovery E) U agg acc rss w))) = (sources w, reports w, mgmt w)"
proof (induction rss arbitrary: acc w)
  case Nil
  show ?case by simp
next
  case (Cons rs rss)
  let ?get = "getResourcesForResourceSelector (ce_discovery E) U rs"
  show ?case
    unfolding match_selectors.simps
    by (rule frame_call [where rest = "\<lambda>w. (sources w, reports w, mgmt w)" and f = ?get])
      (use Cons.IH getResourcesForResourceSelector_frame [OF discovery_read, of U rs] in simp_all)
qed

lemma classifier_match_frame:
  "classifier_match E c w = (r, w') \<Longrightarrow> sources w' = sources w \<and> reports w' = reports w \<and> mgmt w' = mgmt w"
proof -
  let ?rest = "\<lambda>w. (sources w, reports w, mgmt w)"
  have version: "?rest (snd (isVersionAMatch E c w)) = ?rest w" for w
    unfolding isVersionAMatch_def by (intro frame_call) (simp_all add: version_read)
  have resources: "?rest (snd (areResourcesAMatch E c w)) = ?rest w" for w
    by (simp add: areResourcesAMatch_def match_selectors_frame [simplified] split: option.split)
  have "?rest (snd (classifier_match E c w)) = ?rest w"
    unfolding classifier_match_def by (rule frame_call) (use version resources in simp_all)
  then show "classifier_match E c w = (r, w') \<Longrightarrow> ?thesis"
    by simp
qed

lemma createClassifierReport_law:
  assumes run: "createClassifierReport E c b w = (r, w')"
  shows "sources w' = sources w \<and> mgmt w' = mgmt w \<and>
    (\<forall>k. k \<noteq> (ReportNamespace, om_Name (metadata c)) \<longrightarrow> reports w' k = reports w k) \<and>
    (case r of
       Ok y \<Rightarrow> reports w' (ReportNamespace, om_Name (metadata c)) = Some y \<and>
         crs_Match (Spec y) = b \<and> status_Phase y = Some ReportWaitingForDelivery \<and>
         label_of y (ClassifierlNameLabel (ce_lib E)) = Some (om_Name (metadata c))
     | Err e \<Rightarrow> True
     | Panic \<Rightarrow> False)"
proof -
  let ?new = "getClassifierReport (ce_lib E) (om_Name (metadata c)) b"
  have new: "obj_key ?new = (ReportNamespace, om_Name (metadata c))" "crs_Match (Spec ?new) = b"
    "label_of ?new (ClassifierlNameLabel (ce_lib E)) = Some (om_Name (metadata c))"
    by (simp_all add: getClassifierReport_def label_of_def)
  from upsert_law [OF run [unfolded createClassifierReport_def updateClassifierReport_def
        updateClassifierReportStatus_def] new(1)]
  show ?thesis
    using new by (cases r) (auto simp: Let_def split: option.splits)
qed

lemma cleanClassifierReport_law:
  assumes "cleanClassifierReport E n w = (r, w')"
  shows "sources w' = sources w \<and> mgmt w' = mgmt w \<and>
    (\<forall>k. k \<noteq> (ReportNamespace, n) \<longrightarrow> reports w' k = reports w k) \<and>
    (case r of
       Ok _ \<Rightarrow>
         (case reports w (ReportNamespace, n) of
            None \<Rightarrow> reports w' (ReportNamespace, n) = None
          | Some x \<Rightarrow>
              if om_Finalizers (metadata x) = [] then reports w' (ReportNamespace, n) = None
              else \<exists>y. reports w' (ReportNamespace, n) = Some y \<and>
                     om_Finalizers (metadata y) = om_Finalizers (metadata x) \<and>
                     om_DeletionTimestamp (metadata y) \<noteq> None)
     | Err e \<Rightarrow> reports w' = reports w
     | Panic \<Rightarrow> False)"
  using assms stored_key
  by (cases r)
    (fastforce simp: cleanClassifierReport_def call_def ret_def fail_def
      split: prod.splits outcome.splits if_split_asm option.splits dest!: api_dests)+

abbreviation remote_name :: "manager \<Rightarrow> classifier \<Rightarrow> string \<times> string" where
  "remote_name m c \<equiv> (clusterNamespace m,
     GetClassifierReportName (ce_lib E) (om_Name (metadata c)) (clusterName m) (clusterType m))"

lemma sendClassifierReport_law:
  assumes run: "sendClassifierReport E m c w = (Ok z, w')"
    and alive: "\<forall>cur. mgmt w (remote_name m c) = Some cur \<longrightarrow> om_DeletionTimestamp (metadata cur) = None"
  shows "sources w' = sources w \<and> reports w' = reports w \<and>
    (\<forall>k. k \<noteq> remote_name m c \<longrightarrow> mgmt w' k = mgmt w k) \<and>
    (\<exists>x z. reports w (ReportNamespace, om_Name (metadata c)) = Some x \<and>
       mgmt w' (remote_name m c) = Some z \<and>
       crs_Match (Spec z) = crs_Match (Spec x) \<and> crs_ClusterType (Spec z) = clusterType m \<and>
       (mgmt w (remote_name m c) = None \<longrightarrow>
          crs_ClusterNamespace (Spec z) = clusterNamespace m \<and> crs_ClusterName (Spec z) = clusterName m))"
proof -
  let ?n = "om_Name (metadata c)"
  have keys: "obj_key (new_mgmt_report (ce_lib E) m ?n x) = remote_name m c"
    "obj_key (overwrite_mgmt_report (ce_lib E) m ?n x cur) = remote_name m c" for x cur
    by (simp_all add: new_mgmt_report_def overwrite_mgmt_report_def)
  show ?thesis
    by (rule deliver_plain [OF run [unfolded sendClassifierReport_def Let_def] keys])
      (use alive in \<open>auto simp: ret_def new_mgmt_report_def overwrite_mgmt_report_def split: option.splits\<close>)
qed

text \<open>The whole evaluation of a Classifier that is there and not being deleted.\<close>

lemma evaluateClassifierInstance_law:
  assumes get: "cl_Get (ce_classifiers E) '''' n w = (Ok c, w0)"
    and live: "om_DeletionTimestamp (metadata c) = None"
    and answer: "fst (classifier_match E c w0) = Ok b"
    and alive: "\<forall>cur. mgmt w (remote_name m c) = Some cur \<longrightarrow> om_DeletionTimestamp (metadata cur) = None"
    and run: "evaluateClassifierInstance E m n w = (Ok (), w')"
  shows "sources w' = sources w \<and>
    (\<forall>k. k \<noteq> (ReportNamespace, n) \<longrightarrow> reports w' k = reports w k) \<and>
    (\<exists>y. reports w' (ReportNamespace, n) = Some y \<and> crs_Match (Spec y) = b \<and>
       status_Phase y = Some ReportWaitingForDelivery \<and>
       label_of y (ClassifierlNameLabel (ce_lib E)) = Some n) \<and>
    (if sendReport m
     then (\<forall>k. k \<noteq> remote_name m c \<longrightarrow> mgmt w' k = mgmt w k) \<and>
       (\<exists>z. mgmt w' (remote_name m c) = Some z \<and> crs_Match (Spec z) = b \<and>
          crs_ClusterType (Spec z) = clusterType m \<and>
          (mgmt w (remote_name m c) = None \<longrightarrow>
             crs_ClusterNamespace (Spec z) = clusterNamespace m \<and> crs_ClusterName (Spec z) = clusterName m))
     else mgmt w' = mgmt w)"
proof -
  have w0: "sources w0 = sources w" "reports w0 = reports w" "mgmt w0 = mgmt w"
    and c: "sources w ('''', n) = Some c"
    using api_client.get_Ok [OF src get] by auto
  have name: "om_Name (metadata c) = n"
    using api_client.stored_key [OF src c] by simp
  obtain w1 where match: "classifier_match E c w0 = (Ok b, w1)"
    using answer by (metis prod.collapse)
  have w1: "sources w1 = sources w" "reports w1 = reports w" "mgmt w1 = mgmt w"
    using classifier_match_frame [OF match] w0 by auto
  from run get live match obtain y w2 where create: "createClassifierReport E c b w1 = (Ok y, w2)"
    and send: "(if sendReport m then andThen (sendClassifierReport E m c) (\<lambda>_. ret ()) else ret ()) w2
      = (Ok (), w')"
    by (auto simp: evaluateClassifierInstance_def call_Ok call_def [of "createClassifierReport E c b"] fail_def
        split: prod.splits outcome.splits)
  note created = createClassifierReport_law [OF create]
  show ?thesis
  proof (cases "sendReport m")
    case False
    with send created w1 name show ?thesis by (auto simp: ret_def)
  next
    case True
    with send obtain z where "sendClassifierReport E m c w2 = (Ok z, w')"
      by (auto simp: call_def fail_def ret_def split: prod.splits outcome.splits)
    from sendClassifierReport_law [OF this] created w1 name alive True show ?thesis
      by fastforce
  qed
qed

end

section \<open>The reference environment for Classifiers\<close>

definition digits_value :: "string \<Rightarrow> nat" where
  "digits_value s = fold (\<lambda>c n. 10 * n + (of_char c - 48)) s 0"

definition all_digits :: "string \<Rightarrow> bool" where
  "all_digits s \<longleftrightarrow> s \<noteq> [] \<and> list_all (\<lambda>c. CHR ''0'' \<le> c \<and> c \<le> CHR ''9'') s"

definition ref_version :: "string \<Rightarrow> (nat \<times> nat \<times> nat) outcome" where
  "ref_version s =
     (case split_on CHR ''.'' s of
        [a, b, c] \<Rightarrow>
          if all_digits a \<and> all_digits b \<and> all_digits c
          then Ok (digits_value a, digits_value b, digits_value c)
          else Err (Other ''invalid semantic version'')
      | _ \<Rightarrow> Err (Other ''invalid semantic version''))"

definition version_less :: "nat \<times> nat \<times> nat \<Rightarrow> nat \<times> nat \<times> nat \<Rightarrow> bool" where
  "version_less v u \<longleftrightarrow>
     (case (v, u) of ((a, b, c), (a', b', c')) \<Rightarrow>
        a < a' \<or> (a = a' \<and> (b < b' \<or> (b = b' \<and> c < c'))))"

definition ref_check :: "string \<times> nat \<times> nat \<times> nat \<Rightarrow> nat \<times> nat \<times> nat \<Rightarrow> bool" where
  "ref_check sc v =
     (case sc of (op, u) \<Rightarrow>
        if op = ''='' then v = u else if op = ''!='' then v \<noteq> u
        else if op = ''>'' then version_less u v else if op = ''>='' then \<not> version_less v u
        else if op = ''<'' then version_less v u else \<not> version_less u v)"

definition ref_constraint :: "string \<Rightarrow> (string \<times> nat \<times> nat \<times> nat) option \<times> go_error option" where
  "ref_constraint s =
     (case split_on CHR '' '' s of
        [op, u] \<Rightarrow> (case ref_version u of
            Ok v \<Rightarrow> (Some (op, v), None)
          | _ \<Rightarrow> (None, Some (Other ''improper constraint'')))
      | _ \<Rightarrow> (None, Some (Other ''improper constraint'')))"

definition ref_semver :: "(nat \<times> nat \<times> nat, string \<times> nat \<times> nat \<times> nat) semver" where
  "ref_semver =
     \<lparr>semver_NewVersion = ref_version,
      semver_Major = \<lambda>(a, b, c). of_nat a, semver_Minor = \<lambda>(a, b, c). of_nat b,
      semver_Patch = \<lambda>(a, b, c). of_nat c,
      semver_NewConstraint = ref_constraint, semver_Check = ref_check\<rparr>"

type_synonym ref_classifier_world = "(classifier_spec, classifier_report_spec) agent_world"

definition ref_classifier_env :: "(ref_classifier_world, string, (string \<times> string \<times> string) list,
    string, go_value, nat \<times> nat \<times> nat, string \<times> nat \<times> nat \<times> nat) classifier_env" where
  "ref_classifier_env =
     \<lparr>ce_lib = ref_lib, ce_classifiers = sources_client, ce_reports = reports_client,
      ce_mgmt = ref_mgmt, ce_mgmtReports = \<lambda>_. mgmt_client, ce_discovery = ref_discovery,
      ce_lua = ref_lua, ce_semver = ref_semver,
      ce_GetKubernetesVersion = \<lambda>w. (Ok (aw_version w), w)\<rparr>"

definition ref_classifier :: "version_constraint list \<Rightarrow> resource_selector list \<Rightarrow> classifier" where
  "ref_classifier ks rss =
     \<lparr>metadata = empty_meta '''' ''c1'',
      Spec = \<lparr>cs_KubernetesVersionConstraints = Some ks,
        cs_DeployedResourceConstraint = Some \<lparr>drc_ResourceSelectors = rss, drc_AggregatedClassification = ''''\<rparr>\<rparr>,
      status_Phase = None\<rparr>"

interpretation ref_classifiers: classifier_world ref_classifier_env
  "srv_stored aw_sources" "srv_stored aw_reports" "srv_stored aw_mgmt"
  by (intro classifier_world.intro classifier_world_axioms.intro)
    (simp_all add: ref_classifier_env_def ref_report_delivery ref_sources_api ref_discovery_frame)

section \<open>Properties\<close>


text \<open>C38. An error of semver.NewConstraint is logged and then ignored: a constraint that cannot be
  parsed, or whose comparison is none of the six, makes isVersionAMatch call Check through a nil
  pointer and panic, unless an earlier constraint already failed.\<close>

theorem isVersionAMatch_panics:
  assumes "ce_GetKubernetesVersion E w = (Ok current, w')"
    and "semver_NewVersion (ce_semver E) current = Ok v"
    and "semver_NewVersion (ce_semver E) (comparable_version (ce_semver E) v) = Ok u"
    and "version_constraints c = pre @ bad # post"
    and "\<forall>k \<in> set pre. satisfies (ce_semver E) u k"
    and "build_constraint (ce_semver E) bad = None"
  shows "isVersionAMatch E c w = (Panic, w')"
  using assms by (simp add: isVersionAMatch_def call_def lift_outcome_def check_constraints_panics)

text \<open>C21. areResourcesAMatch: without a DeployedResourceConstraint the cluster is a match; without an
  aggregated script it is a match exactly when every ResourceSelector finds a resource; with one, the
  script alone decides, on the resources of all selectors in order.\<close>

theorem areResourcesAMatch_spec:
  assumes "cs_DeployedResourceConstraint (Spec c) = Some d"
    and "stable_resources (ce_discovery E) (ce_lua E) calm (drc_ResourceSelectors d) found"
    and "calm w"
  shows "fst (areResourcesAMatch E c w) =
    (if drc_AggregatedClassification d = ''''
     then Ok (\<forall>rs \<in> set (drc_ResourceSelectors d). found rs \<noteq> [])
     else aggregatedClassification (ce_lua E) (drc_AggregatedClassification d)
            (concat (map found (drc_ResourceSelectors d))))"
  using assms by (simp add: areResourcesAMatch_def match_selectors_stable)

text \<open>C28. Total correctness of createClassifierReport: when the API server answers and no report of that
  name is being deleted, it succeeds, and then the one report stored for the Classifier has the new
  match, the Classifier's name as its label, and waits for delivery; every other report is as before.\<close>

theorem createClassifierReport_total:
  assumes "reliable_client (ce_reports E) reports rest calm"
    and "calm w"
    and "\<forall>x. reports w (ReportNamespace, om_Name (metadata c)) = Some x \<longrightarrow>
           om_DeletionTimestamp (metadata x) = None"
  shows "\<exists>y w'. createClassifierReport E c b w = (Ok y, w') \<and>
    reports w' (ReportNamespace, om_Name (metadata c)) = Some y \<and>
    crs_Match (Spec y) = b \<and> status_Phase y = Some ReportWaitingForDelivery \<and>
    label_of y (ClassifierlNameLabel (ce_lib E)) = Some (om_Name (metadata c)) \<and>
    (\<forall>k. k \<noteq> (ReportNamespace, om_Name (metadata c)) \<longrightarrow> reports w' k = reports w k) \<and>
    rest w' = rest w"
proof -
  let ?n = "om_Name (metadata c)"
  let ?new = "getClassifierReport (ce_lib E) ?n b"
  have new: "obj_key ?new = (ReportNamespace, ?n)" "crs_Match (Spec ?new) = b"
    "label_of ?new (ClassifierlNameLabel (ce_lib E)) = Some ?n"
    by (simp_all add: getClassifierReport_def label_of_def)
  obtain y w' where run: "createClassifierReport E c b w = (Ok y, w')"
    using reliable_client.upsert_succeeds [OF assms new(1),
        where p = ReportWaitingForDelivery and upd = "\<lambda>x. (set_label (ClassifierlNameLabel (ce_lib E)) ?n x)\<lparr>Spec := (Spec x)\<lparr>crs_Match := b\<rparr>\<rparr>"]
    unfolding createClassifierReport_def updateClassifierReport_def updateClassifierReportStatus_def
    by auto
  from api_client.upsert_law [OF reliable_client.axioms(1) [OF assms(1)]
      run [unfolded createClassifierReport_def updateClassifierReport_def
        updateClassifierReportStatus_def] new(1)]
  show ?thesis
    using run new by (auto simp: Let_def split: option.splits)
qed


text \<open>Deletion: evaluating a Classifier that is gone, or that is being deleted, removes its
  ClassifierReport (a report that holds finalizers is marked for deletion) and touches nothing else;
  when it fails nothing has changed, so that the job can be retried.\<close>

theorem evaluateClassifierInstance_cleans:
  assumes "classifier_world E sources reports mgmt"
    and "\<forall>c. sources w ('''', n) = Some c \<longrightarrow> om_DeletionTimestamp (metadata c) \<noteq> None"
    and "evaluateClassifierInstance E m n w = (r, w')"
  shows "sources w' = sources w \<and> mgmt w' = mgmt w \<and>
    (\<forall>k. k \<noteq> (ReportNamespace, n) \<longrightarrow> reports w' k = reports w k) \<and>
    (case r of
       Ok _ \<Rightarrow> \<forall>y. reports w' (ReportNamespace, n) = Some y \<longrightarrow>
         om_Finalizers (metadata y) \<noteq> [] \<and> om_DeletionTimestamp (metadata y) \<noteq> None
     | Err e \<Rightarrow> reports w' = reports w
     | Panic \<Rightarrow> False)"
proof -
  obtain r0 w0 where get: "cl_Get (ce_classifiers E) '''' n w = (r0, w0)"
    by fastforce
  note law = wpD [OF api_client.get_law [OF classifier_world.src [OF assms(1)]] get]
  note clean = classifier_world.cleanClassifierReport_law [OF assms(1), of n w0]
  show ?thesis
    using assms(2,3) get law
    by (cases r0)
      (auto simp: evaluateClassifierInstance_def call_Ok call_Err fail_def dest!: clean
        split: if_splits outcome.splits option.splits)
qed

text \<open>C3. No Classifier evaluation is lost: a round of evaluateClassifiers that ends has evaluated each
  queued Classifier exactly once, and the queue it leaves holds exactly those whose evaluation
  failed and those queued by controllers and watchers during the round.\<close>

theorem evaluateClassifiers_round:
  assumes "queues_ok m"
    and "evaluateClassifiers E others m w = (Ok m', w')"
  shows "queues_ok m' \<and> distinct (map fst (classifierJobQueue m)) \<and>
    map fst (job_outcomes (evaluateClassifierInstance E m) (map fst (classifierJobQueue m)) w)
      = map fst (classifierJobQueue m) \<and>
    keys (classifierJobQueue m') = set others \<union>
      {j. \<exists>e. (j, Err e) \<in> set (job_outcomes (evaluateClassifierInstance E m)
                (map fst (classifierJobQueue m)) w)}"
  using classifier_queue.round_complete [OF assms(1) assms(2) [unfolded evaluateClassifiers_def]]
  by (simp add: drain_classifiers_def)

section \<open>Witnesses\<close>

definition pod_selector :: resource_selector where
  "pod_selector = \<lparr>rs_Group = '''', rs_Version = ''v1'', rs_Kind = ''Pod'', rs_LabelFilters = [],
     rs_Namespace = ''default'', rs_Name = '''', rs_Evaluate = ''yes''\<rparr>"

definition pod :: "string \<Rightarrow> unstructured" where
  "pod n = \<lparr>us_Namespace = ''default'', us_Name = n, us_Kind = ''Pod'', us_APIVersion = ''v1'',
     us_DeletionTimestamp = None, us_content = GMap [(''name'', GStr n)]\<rparr>"

definition ref_pods :: "((string \<times> string \<times> string) \<times> unstructured) list" where
  "ref_pods = [(('''', ''v1'', ''Pod''), pod ''a''), (('''', ''v1'', ''Pod''), pod ''b'')]"

definition at_least :: "string \<Rightarrow> version_constraint" where
  "at_least v = \<lparr>vc_Version = v, vc_Comparison = ComparisonGreaterThanOrEqualTo\<rparr>"

definition ref_classifier_start :: ref_classifier_world where
  "ref_classifier_start = ref_world [ref_classifier [at_least ''1.27.0''] [pod_selector]] [] [] ref_pods"

lemma ref_classifier_found:
  "stable_resources ref_discovery ref_lua (\<lambda>w :: ref_classifier_world. aw_resources w = ref_pods)
     [pod_selector] (\<lambda>_. [pod ''a'', pod ''b''])"
  unfolding stable_resources_def
proof (intro ballI allI impI)
  fix rs :: resource_selector and w :: ref_classifier_world
  assume "rs \<in> set [pod_selector]" and w: "aw_resources w = ref_pods"
  then have rs: "rs = pod_selector" by simp
  have "keep_matching (\<lambda>item. isMatchForResourceSelectorScript ref_lua item (rs_Evaluate pod_selector))
      (map snd (filter (\<lambda>(key, _). key = ('''', ''v1'', ''Pod'')) ref_pods)) = Ok [pod ''a'', pod ''b'']"
    by code_simp
  then show "fst (getResourcesForResourceSelector ref_discovery ref_lua rs w) = Ok [pod ''a'', pod ''b''] \<and>
      aw_resources (snd (getResourcesForResourceSelector ref_discovery ref_lua rs w)) = ref_pods"
    unfolding rs using w
    by (simp add: getResourcesForResourceSelector_def fetchClassifierDeployedResources_def
        ref_discovery_def call_def ret_def lift_outcome_def pod_selector_def ref_pods_def)
qed

lemma ref_classifier_version:
  "ce_GetKubernetesVersion ref_classifier_env ref_classifier_start = (Ok ''1.27.3'', ref_classifier_start)"
  "semver_NewVersion (ce_semver ref_classifier_env) ''1.27.3'' = Ok (1, 27, 3)"
  "semver_NewVersion (ce_semver ref_classifier_env)
     (comparable_version (ce_semver ref_classifier_env) (1, 27, 3)) = Ok (1, 27, 3)"
  by code_simp+


theorem isVersionAMatch_panics_witness:
  "isVersionAMatch ref_classifier_env (ref_classifier [at_least ''1.27.0'', at_least ''latest''] [])
     ref_classifier_start = (Panic, ref_classifier_start)"
proof -
  have "version_constraints (ref_classifier [at_least ''1.27.0'', at_least ''latest''] []) =
      [at_least ''1.27.0''] @ at_least ''latest'' # []"
    "\<forall>k \<in> set [at_least ''1.27.0'']. satisfies (ce_semver ref_classifier_env) (1, 27, 3) k"
    "build_constraint (ce_semver ref_classifier_env) (at_least ''latest'') = None"
    by code_simp+
  from isVersionAMatch_panics [OF ref_classifier_version this] show ?thesis .
qed

theorem areResourcesAMatch_spec_witness:
  "fst (areResourcesAMatch ref_classifier_env (ref_classifier [] [pod_selector]) ref_classifier_start)
     = Ok True"
proof -
  have "cs_DeployedResourceConstraint (Spec (ref_classifier [] [pod_selector])) =
      Some \<lparr>drc_ResourceSelectors = [pod_selector], drc_AggregatedClassification = ''''\<rparr>"
    by (simp add: ref_classifier_def)
  from areResourcesAMatch_spec [OF this, of ref_classifier_env, OF _, of _ _ ref_classifier_start]
    ref_classifier_found
  show ?thesis
    by (fastforce simp: ref_classifier_env_def ref_classifier_start_def ref_world_def)
qed

theorem createClassifierReport_total_witness:
  "\<exists>y w'. createClassifierReport ref_classifier_env (ref_classifier [] []) True ref_classifier_start
     = (Ok y, w') \<and> crs_Match (Spec y) = True \<and> status_Phase y = Some ReportWaitingForDelivery"
proof -
  have "reliable_client (ce_reports ref_classifier_env) (srv_stored aw_reports)
      (\<lambda>w. (srv_stored aw_mgmt w, srv_stored aw_sources w)) (\<lambda>w. srv_faults (aw_reports w) = [])"
    by (simp add: ref_classifier_env_def ref_reports_reliable)
  from createClassifierReport_total [OF this, of ref_classifier_start "ref_classifier [] []" True]
  show ?thesis
    by (auto simp: ref_classifier_start_def ref_world_def new_server_def srv_lookup_def)
qed

lemma ref_classifier_run:
  "cl_Get (ce_classifiers ref_classifier_env) '''' ''c1'' ref_classifier_start =
     (Ok (ref_classifier [at_least ''1.27.0''] [pod_selector]),
      snd (cl_Get (ce_classifiers ref_classifier_env) '''' ''c1'' ref_classifier_start))"
  "fst (classifier_match ref_classifier_env (ref_classifier [at_least ''1.27.0''] [pod_selector])
     (snd (cl_Get (ce_classifiers ref_classifier_env) '''' ''c1'' ref_classifier_start))) = Ok True"
  "evaluateClassifierInstance ref_classifier_env (ref_manager True) ''c1'' ref_classifier_start =
     (Ok (), snd (evaluateClassifierInstance ref_classifier_env (ref_manager True) ''c1'' ref_classifier_start))"
  by code_simp+


theorem evaluateClassifierInstance_cleans_witness:
  "srv_stored aw_reports (snd (evaluateClassifierInstance ref_classifier_env (ref_manager False) ''gone''
     (ref_world [] [getClassifierReport ref_lib ''gone'' True] [] []))) (ReportNamespace, ''gone'') = None"
proof -
  let ?w = "ref_world [] [getClassifierReport ref_lib ''gone'' True] [] [] :: ref_classifier_world"
  let ?run = "evaluateClassifierInstance ref_classifier_env (ref_manager False) ''gone'' ?w"
  have "?run = (Ok (), snd ?run)" and gone: "srv_stored aw_sources ?w ('''', ''gone'') = None"
    and "srv_stored aw_reports (snd ?run) (ReportNamespace, ''gone'') = None \<or>
      om_Finalizers (metadata (the (srv_stored aw_reports (snd ?run) (ReportNamespace, ''gone'')))) = []"
    by code_simp+
  with evaluateClassifierInstance_cleans [OF ref_classifiers.classifier_world_axioms, of ?w "''gone''"
      "ref_manager False" "Ok ()" "snd ?run"]
  show ?thesis
    by (cases "srv_stored aw_reports (snd ?run) (ReportNamespace, ''gone'')") auto
qed

definition queued_classifiers :: manager where
  "queued_classifiers = EvaluateClassifier ''c1'' (EvaluateClassifier ''broken'' (ref_manager False))"

theorem evaluateClassifiers_round_witness:
  "keys (classifierJobQueue (case evaluateClassifiers ref_classifier_env [''late''] queued_classifiers
     (ref_classifier_start\<lparr>aw_version := ''unknown''\<rparr>) of (Ok m, _) \<Rightarrow> m | _ \<Rightarrow> queued_classifiers))
   = {''late'', ''c1''}"
proof -
  let ?w = "ref_classifier_start\<lparr>aw_version := ''unknown''\<rparr>"
  let ?run = "evaluateClassifiers ref_classifier_env [''late''] queued_classifiers ?w"
  let ?m = "case ?run of (Ok m, _) \<Rightarrow> m | _ \<Rightarrow> queued_classifiers"
  have ok: "queues_ok queued_classifiers" and run: "?run = (Ok ?m, snd ?run)"
    and out: "job_outcomes (evaluateClassifierInstance ref_classifier_env queued_classifiers)
      (map fst (classifierJobQueue queued_classifiers)) ?w =
      [(''broken'', Ok ()), (''c1'', Err (Other ''invalid semantic version''))]"
    by code_simp+
  show ?thesis
    using evaluateClassifiers_round [OF ok run] unfolding out by auto
qed

end
