(* ===== verification/Eval_Env.thy ===== *)
theory Eval_Env
  imports Reference_Env
begin

text \<open>
  What the HealthCheck and the EventSource evaluations share: the record of their parameters, the
  loop that collects the resources of all selectors under the tenant's identity, the decoding of
  resources that a script hands back, and the contract (locale \<open>eval_world\<close>) of the stores they
  work on, with the laws of creating, cleaning and delivering a report.
  unstructured.Unstructured is apimachinery's: its UnmarshalJSON and MarshalJSON are parameters, and
  so is what its accessors do through a nil pointer (\<open>ev_nil\<close>; a panic in apimachinery).
\<close>

section \<open>Parameters\<close>

record ('w, 'cfg, 'm, 'l, 'v, 'src, 'rep) eval_env =
  ev_lib :: libsveltos
  ev_sources :: "('w, 'src) client"
  ev_reports :: "('w, 'rep) client"
  ev_mgmt :: "('w, 'cfg) mgmt_env"
  ev_mgmtReports :: "'cfg \<Rightarrow> ('w, 'rep) client"
  ev_discovery :: "('w, 'm) discovery"
  ev_lua :: "('l, 'v) lua_ops"
  ev_UnmarshalJSON :: "json \<Rightarrow> unstructured outcome"
  ev_MarshalJSON :: "unstructured \<Rightarrow> string outcome"
  ev_nil :: "unstructured outcome"

text \<open>A method call through a possibly nil \<^verbatim>\<open>*unstructured.Unstructured\<close>.\<close>

definition deref :: "('w, 'cfg, 'm, 'l, 'v, 'src, 'rep) eval_env \<Rightarrow> unstructured option \<Rightarrow> unstructured outcome" where
  "deref E p = (case p of None \<Rightarrow> ev_nil E | Some u \<Rightarrow> Ok u)"

section \<open>Collecting the resources of all selectors\<close>

definition fetch_selected ::
  "('w, 'cfg, 'm, 'l, 'v, 'src, 'rep) eval_env \<Rightarrow> object_meta \<Rightarrow> resource_selector list \<Rightarrow>
   ('w, unstructured list) act" where
  "fetch_selected E om rss =
     (case getServiceAccountInfo (ev_lib E) om of
        (saNamespace, saName) \<Rightarrow>
          foldA (\<lambda>list rs.
              andThen (fetchResourcesMatchingResourceSelector (ev_lib E) (ev_discovery E) (ev_lua E)
                         rs saNamespace saName)
                (\<lambda>tmpList. ret (list @ tmpList)))
            [] rss)"

section \<open>Decoding\<close>

text \<open>A field or element of type \<^verbatim>\<open>*unstructured.Unstructured\<close>: null is nil, anything else goes to
  its UnmarshalJSON.\<close>

definition unmarshal_pointer ::
  "('w, 'cfg, 'm, 'l, 'v, 'src, 'rep) eval_env \<Rightarrow> json \<Rightarrow> unstructured option outcome" where
  "unmarshal_pointer E j = (if j = JNull then Ok None else obind (ev_UnmarshalJSON E j) (\<lambda>u. Ok (Some u)))"

fun unmarshal_pointers ::
  "('w, 'cfg, 'm, 'l, 'v, 'src, 'rep) eval_env \<Rightarrow> json list \<Rightarrow> unstructured option list outcome" where
  "unmarshal_pointers E [] = Ok []"
| "unmarshal_pointers E (j # js) =
     obind (unmarshal_pointer E j) (\<lambda>p. obind (unmarshal_pointers E js) (\<lambda>ps. Ok (p # ps)))"

section \<open>What a selector may see\<close>

text \<open>One selector: every resource it yields was listed by the dynamic client of the given user, is
  not being deleted, and is accepted by the selector's script.\<close>

lemma fetchResourcesMatchingResourceSelector_sound:
  assumes run: "fetchResourcesMatchingResourceSelector L D U rs saNamespace saName w = (Ok us, w')"
    and listed: "\<And>gvr options w items w'.
      dyn_List D (impersonated_user L saNamespace saName) gvr options w = (Ok items, w') \<Longrightarrow>
      \<forall>u \<in> set items. P u"
  shows "\<forall>u \<in> set us. P u \<and> us_DeletionTimestamp u = None \<and>
    isMatchForEventSource U u (rs_Evaluate rs) = Ok True"
  using run
  by (auto simp: fetchResourcesMatchingResourceSelector_def call_def ret_def fail_def lift_outcome_def
      Let_def keep_matching_Ok split: prod.splits outcome.splits if_splits dest: listed)

lemma foldA_collects:
  assumes "foldA (\<lambda>acc x. andThen (f x) (\<lambda>ys. ret (acc @ ys))) acc xs w = (Ok zs, w')"
  shows "\<exists>yss. length yss = length xs \<and> zs = acc @ concat yss \<and>
    (\<forall>i < length xs. \<exists>w1 w2. f (xs ! i) w1 = (Ok (yss ! i), w2))"
  using assms
proof (induction xs arbitrary: acc w)
  case Nil
  then show ?case by (simp add: ret_def)
next
  case (Cons x xs)
  have "foldA (\<lambda>acc x. andThen (f x) (\<lambda>ys. ret (acc @ ys))) acc (x # xs) =
      andThen (f x) (\<lambda>ys. foldA (\<lambda>acc x. andThen (f x) (\<lambda>ys. ret (acc @ ys))) (acc @ ys) xs)"
    by (simp add: andThen_assoc)
  with Cons.prems obtain ys w1 where f: "f x w = (Ok ys, w1)"
    and tail: "foldA (\<lambda>acc x. andThen (f x) (\<lambda>ys. ret (acc @ ys))) (acc @ ys) xs w1 = (Ok zs, w')"
    by (auto elim: andThen_OkE)
  from Cons.IH [OF tail] obtain yss where yss: "length yss = length xs" "zs = (acc @ ys) @ concat yss"
    "\<forall>i < length xs. \<exists>w1 w2. f (xs ! i) w1 = (Ok (yss ! i), w2)"
    by blast
  show ?case
    by (rule exI [of _ "ys # yss"]) (use f yss in \<open>auto simp: nth_Cons split: nat.splits\<close>)
qed


section \<open>The contract of the stores\<close>

locale eval_world =
  report_delivery "ev_reports E" reports mgmt sources "ev_mgmtReports E" "ev_mgmt E"
  for E :: "('w, 'cfg, 'm, 'l, 'v, 'src, 'rep) eval_env"
    and sources :: "'w \<Rightarrow> string \<times> string \<Rightarrow> 'src kobject option"
    and reports :: "'w \<Rightarrow> string \<times> string \<Rightarrow> 'rep kobject option"
    and mgmt :: "'w \<Rightarrow> string \<times> string \<Rightarrow> 'rep kobject option" +
  assumes src: "api_client (ev_sources E) sources (\<lambda>w. (reports w, mgmt w))"
    and discovery_read: "discovery_frame (ev_discovery E) (\<lambda>w. (sources w, reports w, mgmt w))"
begin

lemma fetch_selected_frame:
  "fetch_selected E om rss w = (r, w') \<Longrightarrow> sources w' = sources w \<and> reports w' = reports w \<and> mgmt w' = mgmt w"
proof -
  let ?rest = "\<lambda>w. (sources w, reports w, mgmt w)"
  have "?rest (snd (fetch_selected E om rss w)) = ?rest w"
    unfolding fetch_selected_def prod.case_distrib case_prod_beta
    by (intro frame_foldA frame_call) (simp_all add: fetchResourcesMatchingResourceSelector_frame
        [OF discovery_read, simplified])
  then show "fetch_selected E om rss w = (r, w') \<Longrightarrow> ?thesis"
    by simp
qed

text \<open>The cleanup both evaluations write: a report already marked for deletion is left alone, another
  one goes back to waiting for delivery and is deleted.\<close>

lemma clean_law:
  assumes "call (cl_Get (ev_reports E) ReportNamespace n)
      (\<lambda>e. if e = NotFound then ret () else fail e)
      (\<lambda>x. if om_DeletionTimestamp (metadata x) \<noteq> None then ret ()
           else andThen (cl_StatusUpdate (ev_reports E) (x\<lparr>status_Phase := Some ReportWaitingForDelivery\<rparr>))
                  (\<lambda>x'. cl_Delete (ev_reports E) x')) w = (r, w')"
  shows "sources w' = sources w \<and> mgmt w' = mgmt w \<and>
    (\<forall>k. k \<noteq> (ReportNamespace, n) \<longrightarrow> reports w' k = reports w k) \<and>
    (case r of
       Ok _ \<Rightarrow> \<forall>y. reports w' (ReportNamespace, n) = Some y \<longrightarrow>
         om_DeletionTimestamp (metadata y) \<noteq> None \<and>
         (reports w (ReportNamespace, n) = Some y \<or>
          om_Finalizers (metadata y) \<noteq> [] \<and> status_Phase y = Some ReportWaitingForDelivery)
     | Err e \<Rightarrow> \<forall>x. reports w (ReportNamespace, n) = Some x \<longrightarrow>
         (\<exists>y. reports w' (ReportNamespace, n) = Some y \<and> Spec y = Spec x)
     | Panic \<Rightarrow> False)"
proof -
  obtain r0 w0 where get: "cl_Get (ev_reports E) ReportNamespace n w = (r0, w0)"
    by fastforce
  show ?thesis
  proof (cases r0)
    case (Ok x)
    then have st: "reports w0 = reports w" "mgmt w0 = mgmt w" "sources w0 = sources w"
      and x: "reports w (ReportNamespace, n) = Some x"
      using get get_Ok by blast+
    have key: "obj_key x = (ReportNamespace, n)"
      using stored_key [OF x] .
    show ?thesis
      using assms st x key
      by (cases r)
        (auto simp: get Ok call_def fail_def ret_def split: prod.splits outcome.splits if_splits dest!: api_dests)
  next
    case (Err e)
    with assms get get_Err show ?thesis
      by (auto simp: run_act split: if_splits)
  next
    case Panic
    with get get_no_panic show ?thesis by blast
  qed
qed

end

section \<open>The reference environment\<close>

text \<open>A resource is its content: an object with a name; its other accessors are fixed.\<close>

fun ref_unmarshal :: "json \<Rightarrow> unstructured outcome" where
  "ref_unmarshal (JObj [(f, JStr n)]) =
     Ok \<lparr>us_Namespace = ''default'', us_Name = n, us_Kind = ''Pod'', us_APIVersion = ''v1'',
         us_DeletionTimestamp = None, us_content = GMap [(f, GStr n)]\<rparr>"
| "ref_unmarshal _ = Err (Other ''Object Kind is missing'')"

definition ref_eval_env :: "(('src, 'rep) agent_world, string, (string \<times> string \<times> string) list,
    string, go_value, 'src, 'rep) eval_env" where
  "ref_eval_env =
     \<lparr>ev_lib = ref_lib, ev_sources = sources_client, ev_reports = reports_client,
      ev_mgmt = ref_mgmt, ev_mgmtReports = \<lambda>_. mgmt_client, ev_discovery = ref_discovery,
      ev_lua = ref_lua, ev_UnmarshalJSON = ref_unmarshal, ev_MarshalJSON = \<lambda>u. Ok (us_Name u),
      ev_nil = Panic\<rparr>"

interpretation ref_eval: eval_world ref_eval_env
  "srv_stored aw_sources" "srv_stored aw_reports" "srv_stored aw_mgmt"
  by (intro eval_world.intro eval_world_axioms.intro)
    (simp_all add: ref_eval_env_def ref_report_delivery ref_sources_api ref_discovery_frame)

section \<open>Witness\<close>

definition tenant_labels :: object_meta where
  "tenant_labels = (empty_meta '''' ''h1'')\<lparr>om_Labels := Some [(''sa-name'', ''eng''), (''sa-namespace'', ''t1'')]\<rparr>"

text \<open>A dynamic client under which the tenant lists only the pods of its namespace.\<close>

definition tenant_discovery :: "(('a, 'b) agent_world, (string \<times> string \<times> string) list) discovery" where
  "tenant_discovery = ref_discovery\<lparr>dyn_List := \<lambda>user gvr options w.
     (Ok (filter (\<lambda>u. user = Some ''system:serviceaccount:projectsveltos:t1--eng'' \<longrightarrow> us_Namespace u = ''t1'')
        (map snd (filter (\<lambda>(key, _). key = gvr) (aw_resources w)))), w)\<rparr>"

definition any_pod :: resource_selector where
  "any_pod = \<lparr>rs_Group = '''', rs_Version = ''v1'', rs_Kind = ''Pod'', rs_LabelFilters = [],
     rs_Namespace = '''', rs_Name = '''', rs_Evaluate = ''''\<rparr>"

definition a_pod :: "string \<Rightarrow> unstructured" where
  "a_pod ns = \<lparr>us_Namespace = ns, us_Name = ''p'', us_Kind = ''Pod'', us_APIVersion = ''v1'',
     us_DeletionTimestamp = None, us_content = GNil\<rparr>"


end
