(* ===== verification/HealthCheck_Evaluation.thy ===== *)
theory HealthCheck_Evaluation
  imports Eval_Env
begin

text \<open>
  pkg/evaluation/healthcheck_evaluation.go: the evaluation of a HealthCheck. The resources its
  selectors match are handed to its Lua script, whose verdict (a status and a message per resource)
  is written to a HealthCheckReport; the report is sent to the management cluster when the agent is
  run to send reports. The parameters are those of \<open>eval_env\<close>.
\<close>

section \<open>Data\<close>

record healthcheck_spec =
  hcs_ResourceSelectors :: "resource_selector list"
  hcs_EvaluateHealth :: string
  hcs_CollectResources :: bool

record resource_status =
  rst_Resource :: "string option"
  rst_ObjectRef :: object_reference
  rst_HealthStatus :: string
  rst_Message :: string

record healthcheck_report_spec =
  hrs_ClusterNamespace :: string
  hrs_ClusterName :: string
  hrs_ClusterType :: string
  hrs_HealthCheckName :: string
  hrs_ResourceStatuses :: "resource_status list"

type_synonym healthcheck = "healthcheck_spec kobject"
type_synonym healthcheck_report = "healthcheck_report_spec kobject"
type_synonym ('w, 'cfg, 'm, 'l, 'v) healthcheck_env =
  "('w, 'cfg, 'm, 'l, 'v, healthcheck_spec, healthcheck_report_spec) eval_env"

text \<open>The struct ResourceResult; the resource is a pointer.\<close>

record resource_result =
  rr_Resource :: "unstructured option"
  rr_Status :: string
  rr_Message :: string

definition zero_result :: resource_result where
  "zero_result = \<lparr>rr_Resource = None, rr_Status = '''', rr_Message = ''''\<rparr>"

section \<open>The verdict of the script\<close>

text \<open>Unmarshal of one ResourceResult, field by field; \<open>bad\<close> records a type error, which is reported
  at the end, while an error of the resource's own UnmarshalJSON stops at once.\<close>

fun unmarshal_result_fields ::
  "('w, 'cfg, 'm, 'l, 'v) healthcheck_env \<Rightarrow> resource_result \<Rightarrow> bool \<Rightarrow> (string \<times> json) list \<Rightarrow>
   (resource_result \<times> bool) outcome" where
  "unmarshal_result_fields E res bad [] = Ok (res, bad)"
| "unmarshal_result_fields E res bad ((k, j) # fs) =
     (if ascii_lower k = ''resource'' then
        obind (unmarshal_pointer E j) (\<lambda>p. unmarshal_result_fields E (res\<lparr>rr_Resource := p\<rparr>) bad fs)
      else if ascii_lower k = ''status'' then
        (case j of
           JStr s \<Rightarrow> unmarshal_result_fields E (res\<lparr>rr_Status := s\<rparr>) bad fs
         | JNull \<Rightarrow> unmarshal_result_fields E res bad fs
         | _ \<Rightarrow> unmarshal_result_fields E res True fs)
      else if ascii_lower k = ''message'' then
        (case j of
           JStr s \<Rightarrow> unmarshal_result_fields E (res\<lparr>rr_Message := s\<rparr>) bad fs
         | JNull \<Rightarrow> unmarshal_result_fields E res bad fs
         | _ \<Rightarrow> unmarshal_result_fields E res True fs)
      else unmarshal_result_fields E res bad fs)"

definition unmarshal_result ::
  "('w, 'cfg, 'm, 'l, 'v) healthcheck_env \<Rightarrow> resource_result \<Rightarrow> json \<Rightarrow> (resource_result \<times> bool) outcome" where
  "unmarshal_result E old j =
     (case j of
        JObj fs \<Rightarrow> unmarshal_result_fields E old False fs
      | JNull \<Rightarrow> Ok (old, False)
      | _ \<Rightarrow> Ok (old, True))"

text \<open>Unmarshal of a slice decodes into the elements that are already there.\<close>

fun unmarshal_results ::
  "('w, 'cfg, 'm, 'l, 'v) healthcheck_env \<Rightarrow> resource_result list \<Rightarrow> json list \<Rightarrow>
   (resource_result list \<times> bool) outcome" where
  "unmarshal_results E olds [] = Ok ([], False)"
| "unmarshal_results E olds (j # js) =
     obind (unmarshal_result E (case olds of [] \<Rightarrow> zero_result | old # _ \<Rightarrow> old) j) (\<lambda>(res, bad).
     obind (unmarshal_results E (tl olds) js) (\<lambda>(ress, bad'). Ok (res # ress, bad \<or> bad')))"

fun unmarshal_health_fields ::
  "('w, 'cfg, 'm, 'l, 'v) healthcheck_env \<Rightarrow> resource_result list \<Rightarrow> bool \<Rightarrow> (string \<times> json) list \<Rightarrow>
   resource_result list outcome" where
  "unmarshal_health_fields E ress bad [] =
     (if bad then Err (Other ''json: cannot unmarshal'') else Ok ress)"
| "unmarshal_health_fields E ress bad ((k, j) # fs) =
     (if ascii_lower k = ''resources'' then
        (case j of
           JArr js \<Rightarrow>
             obind (unmarshal_results E ress js) (\<lambda>(ress', bad').
               unmarshal_health_fields E ress' (bad \<or> bad') fs)
         | JNull \<Rightarrow> unmarshal_health_fields E [] bad fs
         | _ \<Rightarrow> unmarshal_health_fields E ress True fs)
      else unmarshal_health_fields E ress bad fs)"

definition unmarshal_health ::
  "('w, 'cfg, 'm, 'l, 'v) healthcheck_env \<Rightarrow> json \<Rightarrow> resource_result list outcome" where
  "unmarshal_health E j =
     (case j of
        JObj fs \<Rightarrow> unmarshal_health_fields E [] False fs
      | JNull \<Rightarrow> Ok []
      | _ \<Rightarrow> Err (Other ''json: cannot unmarshal''))"

definition getResourceHealthStatuses ::
  "('w, 'cfg, 'm, 'l, 'v) healthcheck_env \<Rightarrow> unstructured list \<Rightarrow> string \<Rightarrow> resource_result list outcome" where
  "getResourceHealthStatuses E resources evaluateHealth =
     obind (script_result (ev_lua E) evaluateHealth ''resources'' (resource_table (ev_lua E) resources))
       (\<lambda>resultJson. unmarshal_health E resultJson)"

definition fetchHealthCheckResources ::
  "('w, 'cfg, 'm, 'l, 'v) healthcheck_env \<Rightarrow> healthcheck \<Rightarrow> ('w, unstructured list) act" where
  "fetchHealthCheckResources E healthCheck =
     fetch_selected E (metadata healthCheck) (hcs_ResourceSelectors (Spec healthCheck))"

text \<open>The body of the loop over the script's results.\<close>

definition resource_status_of ::
  "('w, 'cfg, 'm, 'l, 'v) healthcheck_env \<Rightarrow> bool \<Rightarrow> resource_result \<Rightarrow> resource_status outcome" where
  "resource_status_of E collect res =
     obind (deref E (rr_Resource res)) (\<lambda>u.
     obind (if collect then obind (ev_MarshalJSON E u) (\<lambda>s. Ok (Some s)) else Ok None) (\<lambda>tmpJson.
       Ok \<lparr>rst_Resource = tmpJson,
           rst_ObjectRef = \<lparr>or_Kind = us_Kind u, or_Namespace = us_Namespace u, or_Name = us_Name u,
             or_APIVersion = us_APIVersion u\<rparr>,
           rst_HealthStatus = rr_Status res, rst_Message = rr_Message res\<rparr>))"

fun resource_statuses ::
  "('w, 'cfg, 'm, 'l, 'v) healthcheck_env \<Rightarrow> bool \<Rightarrow> resource_result list \<Rightarrow> resource_status list outcome" where
  "resource_statuses E collect [] = Ok []"
| "resource_statuses E collect (res # ress) =
     obind (resource_status_of E collect res) (\<lambda>st.
     obind (resource_statuses E collect ress) (\<lambda>sts. Ok (st # sts)))"

definition getHealthStatus ::
  "('w, 'cfg, 'm, 'l, 'v) healthcheck_env \<Rightarrow> healthcheck \<Rightarrow> ('w, resource_status list) act" where
  "getHealthStatus E healthCheck =
     andThen (fetchHealthCheckResources E healthCheck) (\<lambda>resources.
       lift_outcome
         (obind (getResourceHealthStatuses E resources (hcs_EvaluateHealth (Spec healthCheck)))
           (\<lambda>ress. resource_statuses E (hcs_CollectResources (Spec healthCheck)) ress)))"

section \<open>HealthCheckReports\<close>

definition getHealthCheckReportReport ::
  "libsveltos \<Rightarrow> string \<Rightarrow> resource_status list \<Rightarrow> healthcheck_report" where
  "getHealthCheckReportReport L healthCheckName statuses =
     \<lparr>metadata = (empty_meta ReportNamespace healthCheckName)
        \<lparr>om_Labels := Some [(HealthCheckNameLabel L, healthCheckName)]\<rparr>,
      Spec = \<lparr>hrs_ClusterNamespace = '''', hrs_ClusterName = '''', hrs_ClusterType = '''',
        hrs_HealthCheckName = healthCheckName, hrs_ResourceStatuses = statuses\<rparr>,
      status_Phase = None\<rparr>"

definition updateHealthCheckReportStatus ::
  "('w, 'cfg, 'm, 'l, 'v) healthcheck_env \<Rightarrow> healthcheck_report \<Rightarrow> ('w, healthcheck_report) act" where
  "updateHealthCheckReportStatus E healthCheckReport =
     cl_StatusUpdate (ev_reports E)
       (healthCheckReport\<lparr>status_Phase := Some ReportWaitingForDelivery\<rparr>)"

definition updateHealthCheckReport ::
  "('w, 'cfg, 'm, 'l, 'v) healthcheck_env \<Rightarrow> healthcheck \<Rightarrow> resource_status list \<Rightarrow> healthcheck_report \<Rightarrow>
   ('w, healthcheck_report) act" where
  "updateHealthCheckReport E healthCheck statuses healthCheckReport =
     andThen
       (cl_Update (ev_reports E)
          ((set_label (HealthCheckNameLabel (ev_lib E)) (om_Name (metadata healthCheck)) healthCheckReport)
             \<lparr>Spec := (Spec healthCheckReport)\<lparr>hrs_ResourceStatuses := statuses\<rparr>\<rparr>))
       (\<lambda>r. updateHealthCheckReportStatus E r)"

definition createHealthCheckReport ::
  "('w, 'cfg, 'm, 'l, 'v) healthcheck_env \<Rightarrow> healthcheck \<Rightarrow> resource_status list \<Rightarrow>
   ('w, healthcheck_report) act" where
  "createHealthCheckReport E healthCheck statuses =
     call (cl_Get (ev_reports E) ReportNamespace (om_Name (metadata healthCheck)))
       (\<lambda>e. if e \<noteq> NotFound then fail e
            else andThen
              (cl_Create (ev_reports E)
                 (getHealthCheckReportReport (ev_lib E) (om_Name (metadata healthCheck)) statuses))
              (\<lambda>r. updateHealthCheckReportStatus E r))
       (\<lambda>healthCheckReport. updateHealthCheckReport E healthCheck statuses healthCheckReport)"

definition cleanHealthCheckReport ::
  "('w, 'cfg, 'm, 'l, 'v) healthcheck_env \<Rightarrow> string \<Rightarrow> ('w, unit) act" where
  "cleanHealthCheckReport E healthCheckName =
     call (cl_Get (ev_reports E) ReportNamespace healthCheckName)
       (\<lambda>e. if e = NotFound then ret () else fail e)
       (\<lambda>healthCheckReport.
          if om_DeletionTimestamp (metadata healthCheckReport) \<noteq> None then ret ()
          else andThen
            (cl_StatusUpdate (ev_reports E)
               (healthCheckReport\<lparr>status_Phase := Some ReportWaitingForDelivery\<rparr>))
            (\<lambda>r. cl_Delete (ev_reports E) r))"

definition new_mgmt_health_report ::
  "libsveltos \<Rightarrow> manager \<Rightarrow> string \<Rightarrow> healthcheck_report \<Rightarrow> healthcheck_report" where
  "new_mgmt_health_report L m healthCheckName healthCheckReport =
     \<lparr>metadata = (empty_meta (clusterNamespace m)
          (GetHealthCheckReportName L healthCheckName (clusterName m) (clusterType m)))
        \<lparr>om_Labels := Some (GetHealthCheckReportLabels L healthCheckName (clusterName m) (clusterType m))\<rparr>,
      Spec = (Spec healthCheckReport)\<lparr>hrs_ClusterNamespace := clusterNamespace m,
        hrs_ClusterName := clusterName m, hrs_ClusterType := clusterType m\<rparr>,
      status_Phase = None\<rparr>"

definition overwrite_mgmt_health_report ::
  "libsveltos \<Rightarrow> manager \<Rightarrow> string \<Rightarrow> healthcheck_report \<Rightarrow> healthcheck_report \<Rightarrow> healthcheck_report" where
  "overwrite_mgmt_health_report L m healthCheckName healthCheckReport current =
     current\<lparr>metadata := (metadata current)
        \<lparr>om_Namespace := clusterNamespace m,
         om_Name := GetHealthCheckReportName L healthCheckName (clusterName m) (clusterType m),
         om_Labels := Some (GetHealthCheckReportLabels L healthCheckName (clusterName m) (clusterType m))\<rparr>,
      Spec := (Spec current)\<lparr>hrs_ClusterType := clusterType m,
        hrs_ResourceStatuses := hrs_ResourceStatuses (Spec healthCheckReport)\<rparr>\<rparr>"

text \<open>Only a delivery that overwrites an existing report marks the local one as processed: the
  branch that creates the report returns first.\<close>

definition sendHealthCheckReport ::
  "('w, 'cfg, 'm, 'l, 'v) healthcheck_env \<Rightarrow> manager \<Rightarrow> healthcheck \<Rightarrow> ('w, healthcheck_report) act" where
  "sendHealthCheckReport E m healthCheck =
     (let healthCheckName = om_Name (metadata healthCheck) in
      andThen (cl_Get (ev_reports E) ReportNamespace healthCheckName) (\<lambda>healthCheckReport.
      andThen (getManamegentClusterClient (ev_lib E) (ev_mgmt E)) (\<lambda>cfg.
        call (cl_Get (ev_mgmtReports E cfg) (clusterNamespace m)
                (GetHealthCheckReportName (ev_lib E) healthCheckName (clusterName m) (clusterType m)))
          (\<lambda>e. if e = NotFound
               then andThen (cl_Create (ev_mgmtReports E cfg)
                      (new_mgmt_health_report (ev_lib E) m healthCheckName healthCheckReport)) ret
               else fail e)
          (\<lambda>current.
             andThen (cl_Update (ev_mgmtReports E cfg)
                 (overwrite_mgmt_health_report (ev_lib E) m healthCheckName healthCheckReport current))
               (\<lambda>_. cl_StatusUpdate (ev_reports E)
                      (healthCheckReport\<lparr>status_Phase := Some ReportProcessed\<rparr>))))))"

section \<open>Evaluating a HealthCheck\<close>

definition evaluateHealthCheckInstance ::
  "('w, 'cfg, 'm, 'l, 'v) healthcheck_env \<Rightarrow> manager \<Rightarrow> string \<Rightarrow> ('w, unit) act" where
  "evaluateHealthCheckInstance E m healthCheckName =
     call (cl_Get (ev_sources E) '''' healthCheckName)
       (\<lambda>e. if e = NotFound then cleanHealthCheckReport E healthCheckName else fail e)
       (\<lambda>healthCheck.
          if om_DeletionTimestamp (metadata healthCheck) \<noteq> None
          then cleanHealthCheckReport E healthCheckName
          else andThen (getHealthStatus E healthCheck) (\<lambda>status.
               andThen (createHealthCheckReport E healthCheck status) (\<lambda>_.
                 if sendReport m
                 then andThen (sendHealthCheckReport E m healthCheck) (\<lambda>_. ret ())
                 else ret ())))"

text \<open>One iteration of the loop evaluateHealthChecks.\<close>

definition evaluateHealthChecks ::
  "('w, 'cfg, 'm, 'l, 'v) healthcheck_env \<Rightarrow> string list \<Rightarrow> manager \<Rightarrow> ('w, manager) act" where
  "evaluateHealthChecks E others m =
     evaluation_round drain_healthChecks EvaluateHealthCheck (evaluateHealthCheckInstance E m) others m"

section \<open>Lemmas\<close>

lemma resource_status_of_Ok:
  "resource_status_of E collect res = Ok st \<Longrightarrow>
     rst_HealthStatus st = rr_Status res \<and> rst_Message st = rr_Message res \<and>
     (\<exists>u. deref E (rr_Resource res) = Ok u \<and>
        rst_ObjectRef st = \<lparr>or_Kind = us_Kind u, or_Namespace = us_Namespace u, or_Name = us_Name u,
          or_APIVersion = us_APIVersion u\<rparr> \<and>
        (if collect then map_option Ok (rst_Resource st) = Some (ev_MarshalJSON E u)
         else rst_Resource st = None))"
  by (auto simp: resource_status_of_def obind_eq_Ok split: if_splits)

lemma resource_statuses_Ok:
  "resource_statuses E collect ress = Ok sts \<longleftrightarrow>
     list_all2 (\<lambda>res st. resource_status_of E collect res = Ok st) ress sts"
  by (induction ress arbitrary: sts) (auto simp: obind_eq_Ok list_all2_Cons1)

lemma resource_statuses_nil:
  "\<forall>res \<in> set pre. \<exists>st. resource_status_of E collect res = Ok st \<Longrightarrow> ev_nil E = Panic \<Longrightarrow>
   rr_Resource res = None \<Longrightarrow> resource_statuses E collect (pre @ res # post) = Panic"
  by (induction pre) (auto simp: resource_status_of_def [of _ _ res] deref_def)

locale healthcheck_world = eval_world E sources reports mgmt
  for E :: "('w, 'cfg, 'm, 'l, 'v) healthcheck_env"
    and sources :: "'w \<Rightarrow> string \<times> string \<Rightarrow> healthcheck option"
    and reports :: "'w \<Rightarrow> string \<times> string \<Rightarrow> healthcheck_report option"
    and mgmt :: "'w \<Rightarrow> string \<times> string \<Rightarrow> healthcheck_report option"
begin

lemma getHealthStatus_frame:
  "getHealthStatus E h w = (r, w') \<Longrightarrow> sources w' = sources w \<and> reports w' = reports w \<and> mgmt w' = mgmt w"
  using fetch_selected_frame [of "metadata h" "hcs_ResourceSelectors (Spec h)" w]
  by (auto simp: getHealthStatus_def fetchHealthCheckResources_def call_def fail_def lift_outcome_def
      split: prod.splits outcome.splits)

lemma createHealthCheckReport_law:
  assumes run: "createHealthCheckReport E h sts w = (r, w')"
  shows "sources w' = sources w \<and> mgmt w' = mgmt w \<and>
    (\<forall>k. k \<noteq> (ReportNamespace, om_Name (metadata h)) \<longrightarrow> reports w' k = reports w k) \<and>
    (case r of
       Ok y \<Rightarrow> reports w' (ReportNamespace, om_Name (metadata h)) = Some y \<and>
         hrs_ResourceStatuses (Spec y) = sts \<and> status_Phase y = Some ReportWaitingForDelivery \<and>
         label_of y (HealthCheckNameLabel (ev_lib E)) = Some (om_Name (metadata h))
     | Err e \<Rightarrow> True
     | Panic \<Rightarrow> False)"
proof -
  let ?new = "getHealthCheckReportReport (ev_lib E) (om_Name (metadata h)) sts"
  have new: "obj_key ?new = (ReportNamespace, om_Name (metadata h))"
    "hrs_ResourceStatuses (Spec ?new) = sts"
    "label_of ?new (HealthCheckNameLabel (ev_lib E)) = Some (om_Name (metadata h))"
    by (simp_all add: getHealthCheckReportReport_def label_of_def)
  from upsert_law [OF run [unfolded createHealthCheckReport_def updateHealthCheckReport_def
        updateHealthCheckReportStatus_def] new(1)]
  show ?thesis
    using new by (cases r) (auto simp: Let_def split: option.splits)
qed

abbreviation remote_name :: "manager \<Rightarrow> healthcheck \<Rightarrow> string \<times> string" where
  "remote_name m h \<equiv> (clusterNamespace m,
     GetHealthCheckReportName (ev_lib E) (om_Name (metadata h)) (clusterName m) (clusterType m))"

lemma sendHealthCheckReport_law:
  assumes run: "sendHealthCheckReport E m h w = (Ok z, w')"
    and alive: "\<forall>cur. mgmt w (remote_name m h) = Some cur \<longrightarrow> om_DeletionTimestamp (metadata cur) = None"
  shows "sources w' = sources w \<and>
    (\<forall>k. k \<noteq> (ReportNamespace, om_Name (metadata h)) \<longrightarrow> reports w' k = reports w k) \<and>
    (\<forall>k. k \<noteq> remote_name m h \<longrightarrow> mgmt w' k = mgmt w k) \<and>
    (\<exists>x y z. reports w (ReportNamespace, om_Name (metadata h)) = Some x \<and>
       reports w' (ReportNamespace, om_Name (metadata h)) = Some y \<and>
       Spec y = Spec x \<and> label_of y = label_of x \<and>
       status_Phase y = (if mgmt w (remote_name m h) = None then status_Phase x else Some ReportProcessed) \<and>
       mgmt w' (remote_name m h) = Some z \<and>
       hrs_ResourceStatuses (Spec z) = hrs_ResourceStatuses (Spec x) \<and> hrs_ClusterType (Spec z) = clusterType m)"
proof -
  let ?n = "om_Name (metadata h)"
  let ?ku = "\<lambda>x _. cl_StatusUpdate (ev_reports E) (x\<lparr>status_Phase := Some ReportProcessed\<rparr>)"
  have keys: "obj_key (new_mgmt_health_report (ev_lib E) m ?n x) = remote_name m h"
    "obj_key (overwrite_mgmt_health_report (ev_lib E) m ?n x cur) = remote_name m h" for x cur
    by (simp_all add: new_mgmt_health_report_def overwrite_mgmt_health_report_def)
  note delivery = deliver_law [where kc = "\<lambda>_. ret" and ku = ?ku,
      OF run [unfolded sendHealthCheckReport_def Let_def] keys]
  obtain x y w1 where x: "reports w (ReportNamespace, ?n) = Some x"
    and same: "reports w1 = reports w" "sources w1 = sources w"
      "\<forall>k. k \<noteq> remote_name m h \<longrightarrow> mgmt w1 k = mgmt w k"
    and fin: "case mgmt w (remote_name m h) of
       None \<Rightarrow> Spec y = Spec (new_mgmt_health_report (ev_lib E) m ?n x) \<and>
         mgmt w1 (remote_name m h) = Some y \<and> ret y w1 = (Ok z, w')
     | Some cur \<Rightarrow> Spec y = Spec (overwrite_mgmt_health_report (ev_lib E) m ?n x cur) \<and>
         mgmt w1 (remote_name m h) = Some y \<and> ?ku x y w1 = (Ok z, w')"
    by (rule delivery) (use alive in \<open>force split: option.splits\<close>)
  have key: "obj_key x = (ReportNamespace, ?n)"
    using stored_key [OF x] .
  show ?thesis
  proof (cases "mgmt w (remote_name m h)")
    case None
    with fin same x show ?thesis by (auto simp: ret_def new_mgmt_health_report_def)
  next
    case (Some cur)
    with fin have "cl_StatusUpdate (ev_reports E) (x\<lparr>status_Phase := Some ReportProcessed\<rparr>) w1 = (Ok z, w')"
      by simp
    from status_Ok [OF this] Some fin same x key show ?thesis
      by (auto simp: overwrite_mgmt_health_report_def)
  qed
qed

lemma evaluateHealthCheckInstance_law:
  assumes get: "cl_Get (ev_sources E) '''' n w = (Ok h, w0)"
    and live: "om_DeletionTimestamp (metadata h) = None"
    and answer: "fst (getHealthStatus E h w0) = Ok sts"
    and alive: "\<forall>cur. mgmt w (remote_name m h) = Some cur \<longrightarrow> om_DeletionTimestamp (metadata cur) = None"
    and run: "evaluateHealthCheckInstance E m n w = (Ok (), w')"
  shows "sources w' = sources w \<and>
    (\<forall>k. k \<noteq> (ReportNamespace, n) \<longrightarrow> reports w' k = reports w k) \<and>
    (\<exists>y. reports w' (ReportNamespace, n) = Some y \<and> hrs_ResourceStatuses (Spec y) = sts \<and>
       label_of y (HealthCheckNameLabel (ev_lib E)) = Some n \<and>
       status_Phase y = Some (if sendReport m \<and> mgmt w (remote_name m h) \<noteq> None
         then ReportProcessed else ReportWaitingForDelivery)) \<and>
    (if sendReport m
     then (\<forall>k. k \<noteq> remote_name m h \<longrightarrow> mgmt w' k = mgmt w k) \<and>
       (\<exists>z. mgmt w' (remote_name m h) = Some z \<and> hrs_ResourceStatuses (Spec z) = sts \<and>
          hrs_ClusterType (Spec z) = clusterType m)
     else mgmt w' = mgmt w)"
proof -
  have w0: "sources w0 = sources w" "reports w0 = reports w" "mgmt w0 = mgmt w"
    and h: "sources w ('''', n) = Some h"
    using api_client.get_Ok [OF src get] by auto
  have name: "om_Name (metadata h) = n"
    using api_client.stored_key [OF src h] by simp
  obtain w1 where status: "getHealthStatus E h w0 = (Ok sts, w1)"
    using answer by (metis prod.collapse)
  have w1: "sources w1 = sources w" "reports w1 = reports w" "mgmt w1 = mgmt w"
    using getHealthStatus_frame [OF status] w0 by auto
  from run get live status obtain y w2 where create: "createHealthCheckReport E h sts w1 = (Ok y, w2)"
    and send: "(if sendReport m then andThen (sendHealthCheckReport E m h) (\<lambda>_. ret ()) else ret ()) w2
      = (Ok (), w')"
    by (auto simp: evaluateHealthCheckInstance_def call_Ok
        call_def [of "createHealthCheckReport E h sts"] fail_def split: prod.splits outcome.splits)
  note created = createHealthCheckReport_law [OF create]
  show ?thesis
  proof (cases "sendReport m")
    case False
    with send created w1 name show ?thesis by (auto simp: ret_def)
  next
    case True
    with send obtain z where "sendHealthCheckReport E m h w2 = (Ok z, w')"
      by (auto simp: call_def fail_def ret_def split: prod.splits outcome.splits)
    from sendHealthCheckReport_law [OF this] created w1 name alive True show ?thesis
      by fastforce
  qed
qed

end

interpretation ref_healthchecks: healthcheck_world ref_eval_env
  "srv_stored aw_sources" "srv_stored aw_reports" "srv_stored aw_mgmt"
  by (intro healthcheck_world.intro ref_eval.eval_world_axioms)

section \<open>Properties\<close>

text \<open>C33. getHealthStatus reports the script's verdict and nothing else: when it succeeds there is one
  ResourceStatus per entry of the script's result, in order, with the entry's status and message and
  the identity of the entry's resource, and the resource itself only when the HealthCheck collects
  resources.\<close>

theorem getHealthStatus_verdict:
  assumes "getHealthStatus E h w = (Ok sts, w')"
  shows "\<exists>resources ress.
    fetchHealthCheckResources E h w = (Ok resources, w') \<and>
    getResourceHealthStatuses E resources (hcs_EvaluateHealth (Spec h)) = Ok ress \<and>
    list_all2 (\<lambda>res st. rst_HealthStatus st = rr_Status res \<and> rst_Message st = rr_Message res \<and>
      (\<exists>u. deref E (rr_Resource res) = Ok u \<and>
         or_Kind (rst_ObjectRef st) = us_Kind u \<and> or_Namespace (rst_ObjectRef st) = us_Namespace u \<and>
         or_Name (rst_ObjectRef st) = us_Name u \<and> or_APIVersion (rst_ObjectRef st) = us_APIVersion u \<and>
         (if hcs_CollectResources (Spec h)
          then map_option Ok (rst_Resource st) = Some (ev_MarshalJSON E u)
          else rst_Resource st = None))) ress sts"
proof -
  from assms obtain resources ress where fetch: "fetchHealthCheckResources E h w = (Ok resources, w')"
    and verdict: "getResourceHealthStatuses E resources (hcs_EvaluateHealth (Spec h)) = Ok ress"
    and sts: "resource_statuses E (hcs_CollectResources (Spec h)) ress = Ok sts"
    by (auto simp: getHealthStatus_def call_def lift_outcome_def fail_def obind_eq_Ok
        split: prod.splits outcome.splits)
  from sts have "list_all2 (\<lambda>res st. resource_status_of E (hcs_CollectResources (Spec h)) res = Ok st) ress sts"
    by (simp add: resource_statuses_Ok)
  then have "list_all2 (\<lambda>res st. rst_HealthStatus st = rr_Status res \<and> rst_Message st = rr_Message res \<and>
      (\<exists>u. deref E (rr_Resource res) = Ok u \<and>
         or_Kind (rst_ObjectRef st) = us_Kind u \<and> or_Namespace (rst_ObjectRef st) = us_Namespace u \<and>
         or_Name (rst_ObjectRef st) = us_Name u \<and> or_APIVersion (rst_ObjectRef st) = us_APIVersion u \<and>
         (if hcs_CollectResources (Spec h)
          then map_option Ok (rst_Resource st) = Some (ev_MarshalJSON E u)
          else rst_Resource st = None))) ress sts"
    by (rule list_all2_mono) (drule resource_status_of_Ok, force)
  with fetch verdict show ?thesis by blast
qed

text \<open>A script that returns an entry without a resource crashes the agent: the entry's nil
  resource is read through, and getHealthStatus panics instead of returning an error.\<close>

theorem getHealthStatus_nil_resource_panics:
  assumes "fetchHealthCheckResources E h w = (Ok resources, w')"
    and "getResourceHealthStatuses E resources (hcs_EvaluateHealth (Spec h)) = Ok (pre @ res # post)"
    and "\<forall>r \<in> set pre. \<exists>st. resource_status_of E (hcs_CollectResources (Spec h)) r = Ok st"
    and "rr_Resource res = None" and "ev_nil E = Panic"
  shows "getHealthStatus E h w = (Panic, w')"
  using assms
  by (simp add: getHealthStatus_def call_Ok lift_outcome_def resource_statuses_nil)

text \<open>The evaluation of a HealthCheck, end to end: if evaluateHealthCheckInstance succeeds on a
  HealthCheck that is not being deleted, its HealthCheckReport holds exactly the statuses computed;
  when the agent sends reports they are in the management cluster's report too. The local report is
  marked processed only when the management cluster already had one; a first delivery leaves it
  waiting. No other report and no HealthCheck changes.\<close>

theorem evaluateHealthCheckInstance_reports:
  assumes "healthcheck_world E sources reports mgmt"
    and "cl_Get (ev_sources E) '''' n w = (Ok h, w0)"
    and "om_DeletionTimestamp (metadata h) = None"
    and "fst (getHealthStatus E h w0) = Ok sts"
    and "remote = (clusterNamespace m, GetHealthCheckReportName (ev_lib E) n (clusterName m) (clusterType m))"
    and "\<forall>cur. mgmt w remote = Some cur \<longrightarrow> om_DeletionTimestamp (metadata cur) = None"
    and "evaluateHealthCheckInstance E m n w = (Ok (), w')"
  shows "sources w' = sources w \<and>
    (\<forall>k. k \<noteq> (ReportNamespace, n) \<longrightarrow> reports w' k = reports w k) \<and>
    (\<exists>y. reports w' (ReportNamespace, n) = Some y \<and> hrs_ResourceStatuses (Spec y) = sts \<and>
       label_of y (HealthCheckNameLabel (ev_lib E)) = Some n \<and>
       status_Phase y = Some (if sendReport m \<and> mgmt w remote \<noteq> None
         then ReportProcessed else ReportWaitingForDelivery)) \<and>
    (if sendReport m
     then (\<forall>k. k \<noteq> remote \<longrightarrow> mgmt w' k = mgmt w k) \<and>
       (\<exists>z. mgmt w' remote = Some z \<and> hrs_ResourceStatuses (Spec z) = sts \<and>
          hrs_ClusterType (Spec z) = clusterType m)
     else mgmt w' = mgmt w)"
proof -
  note src = eval_world.src [OF healthcheck_world.axioms [OF assms(1)]]
  have name: "om_Name (metadata h) = n"
    using api_client.stored_key [OF src] api_client.get_Ok [OF src assms(2)] by blast
  show ?thesis
    using healthcheck_world.evaluateHealthCheckInstance_law
      [OF assms(1-4) assms(6) [unfolded assms(5), folded name] assms(7)]
    unfolding assms(5) name .
qed

text \<open>Deletion of a HealthCheck: evaluating one that is gone or being deleted leaves no live
  HealthCheckReport: the report is removed, or it was already marked for deletion, or it has finalizers
  and is now marked for deletion and waiting, so that the deletion is delivered. Nothing else changes.\<close>

theorem evaluateHealthCheckInstance_cleans:
  assumes "healthcheck_world E sources reports mgmt"
    and "\<forall>h. sources w ('''', n) = Some h \<longrightarrow> om_DeletionTimestamp (metadata h) \<noteq> None"
    and "evaluateHealthCheckInstance E m n w = (r, w')"
  shows "sources w' = sources w \<and> mgmt w' = mgmt w \<and>
    (\<forall>k. k \<noteq> (ReportNamespace, n) \<longrightarrow> reports w' k = reports w k) \<and>
    (case r of
       Ok _ \<Rightarrow> \<forall>y. reports w' (ReportNamespace, n) = Some y \<longrightarrow>
         om_DeletionTimestamp (metadata y) \<noteq> None \<and>
         (reports w (ReportNamespace, n) = Some y \<or>
          om_Finalizers (metadata y) \<noteq> [] \<and> status_Phase y = Some ReportWaitingForDelivery)
     | Err e \<Rightarrow> \<forall>x. reports w (ReportNamespace, n) = Some x \<longrightarrow>
         (\<exists>y. reports w' (ReportNamespace, n) = Some y \<and> Spec y = Spec x)
     | Panic \<Rightarrow> False)"
proof -
  note world = healthcheck_world.axioms [OF assms(1)]
  obtain r0 w0 where get: "cl_Get (ev_sources E) '''' n w = (r0, w0)"
    by fastforce
  note law = wpD [OF api_client.get_law [OF eval_world.src [OF world]] get]
  note clean = eval_world.clean_law [OF world, of n w0, folded cleanHealthCheckReport_def]
  show ?thesis
  proof (cases "cleanHealthCheckReport E n w0 = (r, w')")
    case True
    from clean [OF this] law show ?thesis by (cases r) auto
  next
    case False
    with assms(2,3) get law show ?thesis
      by (cases r0) (auto simp: evaluateHealthCheckInstance_def run_act split: if_splits)
  qed
qed

text \<open>No HealthCheck evaluation is lost: a round of evaluateHealthChecks that ends has evaluated each
  queued HealthCheck exactly once, and the queue it leaves holds exactly those whose evaluation
  failed and those queued meanwhile.\<close>

theorem evaluateHealthChecks_round:
  assumes "queues_ok m"
    and "evaluateHealthChecks E others m w = (Ok m', w')"
  shows "queues_ok m' \<and> distinct (map fst (healthCheckJobQueue m)) \<and>
    map fst (job_outcomes (evaluateHealthCheckInstance E m) (map fst (healthCheckJobQueue m)) w)
      = map fst (healthCheckJobQueue m) \<and>
    keys (healthCheckJobQueue m') = set others \<union>
      {j. \<exists>e. (j, Err e) \<in> set (job_outcomes (evaluateHealthCheckInstance E m)
                (map fst (healthCheckJobQueue m)) w)}"
  using healthCheck_queue.round_complete [OF assms(1) assms(2) [unfolded evaluateHealthChecks_def]]
  by (simp add: drain_healthChecks_def)

section \<open>Witnesses\<close>

type_synonym ref_health_world = "(healthcheck_spec, healthcheck_report_spec) agent_world"

definition ref_healthcheck :: "string \<Rightarrow> healthcheck" where
  "ref_healthcheck script =
     \<lparr>metadata = empty_meta '''' ''h1'',
      Spec = \<lparr>hcs_ResourceSelectors = [\<lparr>rs_Group = '''', rs_Version = ''v1'', rs_Kind = ''Pod'',
          rs_LabelFilters = [], rs_Namespace = '''', rs_Name = '''', rs_Evaluate = ''''\<rparr>],
        hcs_EvaluateHealth = script, hcs_CollectResources = True\<rparr>,
      status_Phase = None\<rparr>"

definition ref_health_start :: ref_health_world where
  "ref_health_start = ref_world [ref_healthcheck ''healthy''] []
     [new_mgmt_health_report ref_lib (ref_manager True) ''h1'' (getHealthCheckReportReport ref_lib ''h1'' [])]
     [(('''', ''v1'', ''Pod''),
       \<lparr>us_Namespace = ''default'', us_Name = ''a'', us_Kind = ''Pod'', us_APIVersion = ''v1'',
        us_DeletionTimestamp = None, us_content = GMap [(''name'', GStr ''a'')]\<rparr>)]"

definition ref_health_statuses :: "resource_status list" where
  "ref_health_statuses = [\<lparr>rst_Resource = Some ''a'',
     rst_ObjectRef = \<lparr>or_Kind = ''Pod'', or_Namespace = ''default'', or_Name = ''a'', or_APIVersion = ''v1''\<rparr>,
     rst_HealthStatus = ''Healthy'', rst_Message = ''''\<rparr>]"

lemma ref_health_status:
  "getHealthStatus ref_eval_env (ref_healthcheck ''healthy'') ref_health_start =
     (Ok ref_health_statuses, ref_health_start)"
  by code_simp

theorem getHealthStatus_verdict_witness:
  "\<exists>resources ress. fetchHealthCheckResources ref_eval_env (ref_healthcheck ''healthy'') ref_health_start
       = (Ok resources, ref_health_start) \<and>
     getResourceHealthStatuses ref_eval_env resources ''healthy'' = Ok ress \<and>
     list_all2 (\<lambda>res st. rst_HealthStatus st = rr_Status res) ress ref_health_statuses"
proof -
  obtain resources ress where
    "fetchHealthCheckResources ref_eval_env (ref_healthcheck ''healthy'') ref_health_start
       = (Ok resources, ref_health_start)"
    "getResourceHealthStatuses ref_eval_env resources
       (hcs_EvaluateHealth (Spec (ref_healthcheck ''healthy''))) = Ok ress"
    "list_all2 (\<lambda>res st. rst_HealthStatus st = rr_Status res) ress ref_health_statuses"
    using getHealthStatus_verdict [OF ref_health_status]
    by (elim exE conjE) (rule that, assumption+, erule list_all2_mono, blast)
  then show ?thesis by (auto simp: ref_healthcheck_def)
qed

definition odd_lua :: "(string, go_value) lua_ops" where
  "odd_lua = ref_lua\<lparr>lua_CallEvaluate := \<lambda>_ _ _.
     Ok (GMap [(''resources'', GSlice [GMap [(''status'', GStr ''Healthy'')]])])\<rparr>"

theorem getHealthStatus_nil_resource_panics_witness:
  "getHealthStatus (ref_eval_env\<lparr>ev_lua := odd_lua\<rparr>) (ref_healthcheck ''healthy'') ref_health_start
     = (Panic, ref_health_start)"
proof -
  let ?E = "ref_eval_env\<lparr>ev_lua := odd_lua\<rparr>"
  have "fetchHealthCheckResources ?E (ref_healthcheck ''healthy'') ref_health_start =
      (Ok (map snd (aw_resources ref_health_start)), ref_health_start)"
    "getResourceHealthStatuses ?E (map snd (aw_resources ref_health_start))
       (hcs_EvaluateHealth (Spec (ref_healthcheck ''healthy''))) =
      Ok ([] @ zero_result\<lparr>rr_Status := ''Healthy''\<rparr> # [])"
    "rr_Resource (zero_result\<lparr>rr_Status := ''Healthy''\<rparr>) = None" "ev_nil ?E = Panic"
    by code_simp+
  with getHealthStatus_nil_resource_panics [of ?E "ref_healthcheck ''healthy''" ref_health_start _ _ "[]"]
  show ?thesis by fastforce
qed

lemma ref_health_run:
  "cl_Get (ev_sources ref_eval_env) '''' ''h1'' ref_health_start =
     (Ok (ref_healthcheck ''healthy''), snd (cl_Get (ev_sources ref_eval_env) '''' ''h1'' ref_health_start))"
  "fst (getHealthStatus ref_eval_env (ref_healthcheck ''healthy'')
     (snd (cl_Get (ev_sources ref_eval_env) '''' ''h1'' ref_health_start))) = Ok ref_health_statuses"
  "evaluateHealthCheckInstance ref_eval_env (ref_manager True) ''h1'' ref_health_start =
     (Ok (), snd (evaluateHealthCheckInstance ref_eval_env (ref_manager True) ''h1'' ref_health_start))"
  by code_simp+

theorem evaluateHealthCheckInstance_reports_witness:
  "\<exists>y z. srv_stored aw_reports (snd (evaluateHealthCheckInstance ref_eval_env (ref_manager True)
        ''h1'' ref_health_start)) (ReportNamespace, ''h1'') = Some y \<and>
     hrs_ResourceStatuses (Spec y) = ref_health_statuses \<and>
     srv_stored aw_mgmt (snd (evaluateHealthCheckInstance ref_eval_env (ref_manager True)
        ''h1'' ref_health_start)) (''cns'', ''capi--h1--cn'') = Some z \<and>
     hrs_ResourceStatuses (Spec z) = ref_health_statuses"
proof -
  have "om_DeletionTimestamp (metadata (ref_healthcheck ''healthy'')) = None"
    "(''cns'', ''capi--h1--cn'') = (clusterNamespace (ref_manager True),
       GetHealthCheckReportName (ev_lib (ref_eval_env :: (_, _, _, _, _, healthcheck_spec,
           healthcheck_report_spec) eval_env)) ''h1'' (clusterName (ref_manager True))
         (clusterType (ref_manager True)))"
    and "sendReport (ref_manager True)"
    by code_simp+
  moreover have "\<forall>cur. srv_stored aw_mgmt ref_health_start (''cns'', ''capi--h1--cn'') = Some cur \<longrightarrow>
      om_DeletionTimestamp (metadata cur) = None"
    by (auto simp: ref_health_start_def ref_world_def new_server_def srv_lookup_def
        new_mgmt_health_report_def split: if_splits)
  ultimately show ?thesis
    using evaluateHealthCheckInstance_reports [OF ref_healthchecks.healthcheck_world_axioms ref_health_run(1)
        _ ref_health_run(2) _ _ ref_health_run(3)]
    by auto
qed

theorem evaluateHealthCheckInstance_cleans_witness:
  "srv_stored aw_reports (snd (evaluateHealthCheckInstance ref_eval_env (ref_manager False) ''gone''
     (ref_world [] [getHealthCheckReportReport ref_lib ''gone'' []] [] []))) (ReportNamespace, ''gone'') = None"
proof -
  let ?w = "ref_world [] [getHealthCheckReportReport ref_lib ''gone'' []] [] [] :: ref_health_world"
  let ?run = "evaluateHealthCheckInstance ref_eval_env (ref_manager False) ''gone'' ?w"
  have "?run = (Ok (), snd ?run)" "srv_stored aw_sources ?w ('''', ''gone'') = None"
    "om_DeletionTimestamp (metadata (the (srv_stored aw_reports ?w (ReportNamespace, ''gone'')))) = None"
    "srv_stored aw_reports (snd ?run) (ReportNamespace, ''gone'') = None \<or>
      om_Finalizers (metadata (the (srv_stored aw_reports (snd ?run) (ReportNamespace, ''gone'')))) = []"
    by code_simp+
  with evaluateHealthCheckInstance_cleans [OF ref_healthchecks.healthcheck_world_axioms, of ?w "''gone''"
      "ref_manager False" "Ok ()" "snd ?run"]
  show ?thesis
    by (cases "srv_stored aw_reports (snd ?run) (ReportNamespace, ''gone'')") auto
qed

theorem evaluateHealthChecks_round_witness:
  "keys (healthCheckJobQueue (case evaluateHealthChecks ref_eval_env [''late'']
     (EvaluateHealthCheck ''h1'' (ref_manager False)) (ref_world [ref_healthcheck ''bad''] [] [] []) of
       (Ok m, _) \<Rightarrow> m | _ \<Rightarrow> ref_manager False)) = {''late'', ''h1''}"
proof -
  let ?w = "ref_world [ref_healthcheck ''bad''] [] [] [] :: ref_health_world"
  let ?queued = "EvaluateHealthCheck ''h1'' (ref_manager False)"
  let ?run = "evaluateHealthChecks ref_eval_env [''late''] ?queued ?w"
  let ?m = "case ?run of (Ok m, _) \<Rightarrow> m | _ \<Rightarrow> ref_manager False"
  have ok: "queues_ok ?queued" by code_simp
  have out: "job_outcomes (evaluateHealthCheckInstance ref_eval_env ?queued)
      (map fst (healthCheckJobQueue ?queued)) ?w = [(''h1'', Err (Other ''syntax error''))]"
    by code_simp
  have run: "?run = (Ok ?m, snd ?run)" by code_simp
  show ?thesis
    using evaluateHealthChecks_round [OF ok run] unfolding out by auto
qed

end
