(* ===== verification/EventSource_Evaluation.thy ===== *)
theory EventSource_Evaluation
  imports Eval_Env
begin

text \<open>
  pkg/evaluation/eventsource_evaluation.go: the evaluation of an EventSource. The resources its
  selectors match, passed through its aggregation script when it has one, are written to an
  EventReport, which is sent to the management cluster when the agent is run to send reports.
  createEventReport is also how the messaging part (theory \<open>Nats\<close>) records CloudEvents.
  The parameters are those of \<open>eval_env\<close> and client-go's RetryOnConflict, of which the code relies on
  the documented behaviour: the function is run again while it returns a conflict, a bounded number
  of times, and the last result is returned (\<open>retries_on_conflict\<close>).
  A nil slice is \<open>None\<close> where the code tests for it.
\<close>

section \<open>Data\<close>

record messaging_match_criteria =
  mc_Subject :: string
  mc_CloudEventSource :: string
  mc_CloudEventSubject :: string
  mc_CloudEventType :: string

record eventsource_spec =
  ess_ResourceSelectors :: "resource_selector list"
  ess_AggregatedSelection :: string
  ess_CollectResources :: bool
  ess_MessagingMatchCriteria :: "messaging_match_criteria list option"

text \<open>A range over a nil slice runs no iteration.\<close>

definition match_criteria :: "eventsource_spec \<Rightarrow> messaging_match_criteria list" where
  "match_criteria spec = (case ess_MessagingMatchCriteria spec of None \<Rightarrow> [] | Some criteria \<Rightarrow> criteria)"

record event_report_spec =
  ers_ClusterNamespace :: string
  ers_ClusterName :: string
  ers_ClusterType :: string
  ers_EventSourceName :: string
  ers_MatchingResources :: "object_reference list option"
  ers_Resources :: "string option"
  ers_CloudEvents :: "string list"

type_synonym eventsource = "eventsource_spec kobject"
type_synonym event_report = "event_report_spec kobject"
type_synonym ('w, 'cfg, 'm, 'l, 'v) event_env =
  "('w, 'cfg, 'm, 'l, 'v, eventsource_spec, event_report_spec) eval_env"

text \<open>RetryOnConflict at the type it is used at, and \<open>n\<close> further attempts.\<close>

type_synonym ('w, 'a) retry = "('w, 'a) act \<Rightarrow> ('w, 'a) act"

fun retry_runs :: "nat \<Rightarrow> ('w, 'a) act \<Rightarrow> ('w, 'a) act" where
  "retry_runs 0 f w = f w"
| "retry_runs (Suc n) f w = (case f w of (Err Conflict, w') \<Rightarrow> retry_runs n f w' | (r, w') \<Rightarrow> (r, w'))"

definition retries_on_conflict :: "('w, 'a) retry \<Rightarrow> bool" where
  "retries_on_conflict R \<longleftrightarrow> (\<forall>f w. \<exists>n. R f w = retry_runs n f w)"

section \<open>The matching resources\<close>

text \<open>Unmarshal of aggregatedStatus; a nil slice of resources is \<open>None\<close>.\<close>

fun unmarshal_aggregated_fields ::
  "('w, 'cfg, 'm, 'l, 'v) event_env \<Rightarrow> unstructured option list option \<Rightarrow> bool \<Rightarrow> (string \<times> json) list \<Rightarrow>
   unstructured option list option outcome" where
  "unmarshal_aggregated_fields E ps bad [] =
     (if bad then Err (Other ''json: cannot unmarshal'') else Ok ps)"
| "unmarshal_aggregated_fields E ps bad ((k, j) # fs) =
     (if ascii_lower k = ''resources'' then
        (case j of
           JArr js \<Rightarrow> obind (unmarshal_pointers E js) (\<lambda>ps'. unmarshal_aggregated_fields E (Some ps') bad fs)
         | JNull \<Rightarrow> unmarshal_aggregated_fields E None bad fs
         | _ \<Rightarrow> unmarshal_aggregated_fields E ps True fs)
      else if ascii_lower k = ''message'' then
        (case j of
           JStr s \<Rightarrow> unmarshal_aggregated_fields E ps bad fs
         | JNull \<Rightarrow> unmarshal_aggregated_fields E ps bad fs
         | _ \<Rightarrow> unmarshal_aggregated_fields E ps True fs)
      else unmarshal_aggregated_fields E ps bad fs)"

definition unmarshal_aggregated ::
  "('w, 'cfg, 'm, 'l, 'v) event_env \<Rightarrow> json \<Rightarrow> unstructured option list option outcome" where
  "unmarshal_aggregated E j =
     (case j of
        JObj fs \<Rightarrow> unmarshal_aggregated_fields E None False fs
      | JNull \<Rightarrow> Ok None
      | _ \<Rightarrow> Err (Other ''json: cannot unmarshal''))"

text \<open>The loop that logs every match reads through each pointer.\<close>

fun deref_all ::
  "('w, 'cfg, 'm, 'l, 'v) event_env \<Rightarrow> unstructured option list \<Rightarrow> unstructured list outcome" where
  "deref_all E [] = Ok []"
| "deref_all E (p # ps) = obind (deref E p) (\<lambda>u. obind (deref_all E ps) (\<lambda>us. Ok (u # us)))"

definition aggregatedSelection ::
  "('w, 'cfg, 'm, 'l, 'v) event_env \<Rightarrow> string \<Rightarrow> unstructured list \<Rightarrow> unstructured list option outcome" where
  "aggregatedSelection E luaScript resources =
     (if luaScript = '''' then Ok (Some resources)
      else obind (script_result (ev_lua E) luaScript ''resources'' (resource_table (ev_lua E) resources))
        (\<lambda>resultJson.
         obind (unmarshal_aggregated E resultJson) (\<lambda>result.
           case result of
             None \<Rightarrow> Ok None
           | Some ps \<Rightarrow> obind (deref_all E ps) (\<lambda>us. Ok (Some us)))))"

definition fetchResourcesMatchingEventSource ::
  "('w, 'cfg, 'm, 'l, 'v) event_env \<Rightarrow> eventsource \<Rightarrow> ('w, unstructured list option) act" where
  "fetchResourcesMatchingEventSource E event =
     andThen (fetch_selected E (metadata event) (ess_ResourceSelectors (Spec event))) (\<lambda>list.
       if ess_AggregatedSelection (Spec event) \<noteq> ''''
       then lift_outcome (aggregatedSelection E (ess_AggregatedSelection (Spec event)) list)
       else ret (Some list))"

definition reference_to :: "unstructured \<Rightarrow> object_reference" where
  "reference_to u = \<lparr>or_Kind = us_Kind u, or_Namespace = us_Namespace u, or_Name = us_Name u,
     or_APIVersion = us_APIVersion u\<rparr>"

definition getEventMatchingResources ::
  "('w, 'cfg, 'm, 'l, 'v) event_env \<Rightarrow> eventsource \<Rightarrow>
   ('w, object_reference list \<times> unstructured list option) act" where
  "getEventMatchingResources E event =
     andThen (fetchResourcesMatchingEventSource E event) (\<lambda>resources.
       case resources of
         None \<Rightarrow> ret ([], None)
       | Some us \<Rightarrow>
           ret (map reference_to us,
                Some (if ess_CollectResources (Spec event) then us else [])))"

text \<open>The documents one after the other, each followed by three dashes.\<close>

fun marshalSliceOfUnstructured ::
  "('w, 'cfg, 'm, 'l, 'v) event_env \<Rightarrow> unstructured list \<Rightarrow> string outcome" where
  "marshalSliceOfUnstructured E [] = Ok ''''"
| "marshalSliceOfUnstructured E (u # us) =
     obind (ev_MarshalJSON E u) (\<lambda>tmpJson.
     obind (marshalSliceOfUnstructured E us) (\<lambda>result. Ok (tmpJson @ ''---'' @ result)))"

section \<open>EventReports\<close>

definition getEventReport ::
  "libsveltos \<Rightarrow> string \<Rightarrow> object_reference list option \<Rightarrow> string option \<Rightarrow> string option \<Rightarrow> event_report" where
  "getEventReport L eventName matchingResources jsonResources cloudEvent =
     \<lparr>metadata = (empty_meta ReportNamespace eventName)
        \<lparr>om_Labels := Some [(EventSourceNameLabel L, eventName)]\<rparr>,
      Spec = \<lparr>ers_ClusterNamespace = '''', ers_ClusterName = '''', ers_ClusterType = '''',
        ers_EventSourceName = eventName,
        ers_MatchingResources = matchingResources,
        ers_Resources = (if matchingResources \<noteq> None then jsonResources else None),
        ers_CloudEvents = (case cloudEvent of None \<Rightarrow> [] | Some ce \<Rightarrow> [ce])\<rparr>,
      status_Phase = None\<rparr>"

definition updateEventReportStatus ::
  "('w, 'cfg, 'm, 'l, 'v) event_env \<Rightarrow> event_report \<Rightarrow> ('w, event_report) act" where
  "updateEventReportStatus E eventReport =
     cl_StatusUpdate (ev_reports E) (eventReport\<lparr>status_Phase := Some ReportWaitingForDelivery\<rparr>)"

definition event_update ::
  "object_reference list option \<Rightarrow> string option \<Rightarrow> string option \<Rightarrow> event_report_spec \<Rightarrow> event_report_spec" where
  "event_update matchinResources jsonResources cloudEvent s =
     (let s1 = (if matchinResources \<noteq> None
                then s\<lparr>ers_MatchingResources := matchinResources, ers_Resources := jsonResources\<rparr> else s)
      in case cloudEvent of
           None \<Rightarrow> s1
         | Some ce \<Rightarrow> s1\<lparr>ers_CloudEvents := ers_CloudEvents s1 @ [ce]\<rparr>)"

definition updateEventReport ::
  "('w, 'cfg, 'm, 'l, 'v) event_env \<Rightarrow> eventsource \<Rightarrow> object_reference list option \<Rightarrow> string option \<Rightarrow>
   string option \<Rightarrow> event_report \<Rightarrow> ('w, event_report) act" where
  "updateEventReport E event matchinResources jsonResources cloudEvent eventReport =
     andThen
       (cl_Update (ev_reports E)
          ((set_label (EventSourceNameLabel (ev_lib E)) (om_Name (metadata event)) eventReport)
             \<lparr>Spec := event_update matchinResources jsonResources cloudEvent (Spec eventReport)\<rparr>))
       (\<lambda>r. updateEventReportStatus E r)"

text \<open>The function that is retried, and createEventReport.\<close>

definition event_report_attempt ::
  "('w, 'cfg, 'm, 'l, 'v) event_env \<Rightarrow> eventsource \<Rightarrow> object_reference list option \<Rightarrow> string option \<Rightarrow>
   string option \<Rightarrow> ('w, event_report) act" where
  "event_report_attempt E event matchinResources jsonResources cloudEvent =
     call (cl_Get (ev_reports E) ReportNamespace (om_Name (metadata event)))
       (\<lambda>e. if e \<noteq> NotFound then fail e
            else andThen
              (cl_Create (ev_reports E)
                 (getEventReport (ev_lib E) (om_Name (metadata event)) matchinResources jsonResources cloudEvent))
              (\<lambda>r. updateEventReportStatus E r))
       (\<lambda>eventReport. updateEventReport E event matchinResources jsonResources cloudEvent eventReport)"

definition createEventReport ::
  "('w, event_report) retry \<Rightarrow> ('w, 'cfg, 'm, 'l, 'v) event_env \<Rightarrow> eventsource \<Rightarrow>
   object_reference list option \<Rightarrow> string option \<Rightarrow> string option \<Rightarrow> ('w, event_report) act" where
  "createEventReport RetryOnConflict E event matchinResources jsonResources cloudEvent =
     RetryOnConflict (event_report_attempt E event matchinResources jsonResources cloudEvent)"

definition cleanEventReport ::
  "('w, 'cfg, 'm, 'l, 'v) event_env \<Rightarrow> string \<Rightarrow> ('w, unit) act" where
  "cleanEventReport E eventName =
     call (cl_Get (ev_reports E) ReportNamespace eventName)
       (\<lambda>e. if e = NotFound then ret () else fail e)
       (\<lambda>eventReport.
          if om_DeletionTimestamp (metadata eventReport) \<noteq> None then ret ()
          else andThen
            (cl_StatusUpdate (ev_reports E) (eventReport\<lparr>status_Phase := Some ReportWaitingForDelivery\<rparr>))
            (\<lambda>r. cl_Delete (ev_reports E) r))"

definition new_mgmt_event_report ::
  "libsveltos \<Rightarrow> manager \<Rightarrow> string \<Rightarrow> event_report \<Rightarrow> event_report" where
  "new_mgmt_event_report L m eventName eventReport =
     \<lparr>metadata = (empty_meta (clusterNamespace m)
          (GetEventReportName L eventName (clusterName m) (clusterType m)))
        \<lparr>om_Labels := Some (GetEventReportLabels L eventName (clusterName m) (clusterType m))\<rparr>,
      Spec = (Spec eventReport)\<lparr>ers_ClusterNamespace := clusterNamespace m,
        ers_ClusterName := clusterName m, ers_ClusterType := clusterType m\<rparr>,
      status_Phase = None\<rparr>"

text \<open>An existing report gets the new matching resources; its collected resources and its
  CloudEvents stay what they were.\<close>

definition overwrite_mgmt_event_report ::
  "libsveltos \<Rightarrow> manager \<Rightarrow> string \<Rightarrow> event_report \<Rightarrow> event_report \<Rightarrow> event_report" where
  "overwrite_mgmt_event_report L m eventName eventReport current =
     current\<lparr>metadata := (metadata current)
        \<lparr>om_Namespace := clusterNamespace m,
         om_Name := GetEventReportName L eventName (clusterName m) (clusterType m),
         om_Labels := Some (GetEventReportLabels L eventName (clusterName m) (clusterType m))\<rparr>,
      Spec := (Spec current)\<lparr>ers_ClusterType := clusterType m,
        ers_MatchingResources := ers_MatchingResources (Spec eventReport)\<rparr>\<rparr>"

definition sendEventReport ::
  "('w, 'cfg, 'm, 'l, 'v) event_env \<Rightarrow> manager \<Rightarrow> eventsource \<Rightarrow> ('w, event_report) act" where
  "sendEventReport E m event =
     (let eventName = om_Name (metadata event) in
      andThen (cl_Get (ev_reports E) ReportNamespace eventName) (\<lambda>eventReport.
      andThen (getManamegentClusterClient (ev_lib E) (ev_mgmt E)) (\<lambda>cfg.
        call (cl_Get (ev_mgmtReports E cfg) (clusterNamespace m)
                (GetEventReportName (ev_lib E) eventName (clusterName m) (clusterType m)))
          (\<lambda>e. if e = NotFound
               then andThen (cl_Create (ev_mgmtReports E cfg)
                      (new_mgmt_event_report (ev_lib E) m eventName eventReport)) ret
               else fail e)
          (\<lambda>current.
             andThen (cl_Update (ev_mgmtReports E cfg)
                 (overwrite_mgmt_event_report (ev_lib E) m eventName eventReport current))
               (\<lambda>_. cl_StatusUpdate (ev_reports E)
                      (eventReport\<lparr>status_Phase := Some ReportProcessed\<rparr>))))))"

section \<open>Evaluating an EventSource\<close>

definition collected_json ::
  "('w, 'cfg, 'm, 'l, 'v) event_env \<Rightarrow> object_reference list \<Rightarrow> unstructured list option \<Rightarrow> string option outcome" where
  "collected_json E matchingResources collectedResources =
     (case collectedResources of
        None \<Rightarrow> Ok None
      | Some us \<Rightarrow>
          if length matchingResources = 0 then Ok None
          else obind (marshalSliceOfUnstructured E us) (\<lambda>s. Ok (Some s)))"

definition evaluateEventSourceInstance ::
  "('w, event_report) retry \<Rightarrow> ('w, 'cfg, 'm, 'l, 'v) event_env \<Rightarrow> manager \<Rightarrow> string \<Rightarrow> ('w, unit) act" where
  "evaluateEventSourceInstance RetryOnConflict E m eventName =
     call (cl_Get (ev_sources E) '''' eventName)
       (\<lambda>e. if e = NotFound then cleanEventReport E eventName else fail e)
       (\<lambda>event.
          if om_DeletionTimestamp (metadata event) \<noteq> None then cleanEventReport E eventName
          else andThen (getEventMatchingResources E event) (\<lambda>(matchingResources, collectedResources).
               andThen (lift_outcome (collected_json E matchingResources collectedResources)) (\<lambda>jsonResources.
               andThen (createEventReport RetryOnConflict E event (Some matchingResources) jsonResources None) (\<lambda>_.
                 if sendReport m
                 then andThen (sendEventReport E m event) (\<lambda>_. ret ())
                 else ret ()))))"

text \<open>One iteration of the loop evaluateEventSources.\<close>

definition evaluateEventSources ::
  "('w, event_report) retry \<Rightarrow> ('w, 'cfg, 'm, 'l, 'v) event_env \<Rightarrow> string list \<Rightarrow> manager \<Rightarrow>
   ('w, manager) act" where
  "evaluateEventSources RetryOnConflict E others m =
     evaluation_round drain_eventSources EvaluateEventSource
       (evaluateEventSourceInstance RetryOnConflict E m) others m"

section \<open>Lemmas\<close>

text \<open>A retried function: an invariant its failed attempts keep holds when the last one starts.\<close>

lemma retry_runs_last:
  assumes step: "\<And>w1 e w2. I w1 \<Longrightarrow> f w1 = (Err e, w2) \<Longrightarrow> I w2"
  shows "retry_runs n f w = (r, w') \<Longrightarrow> I w \<Longrightarrow> \<exists>w1. I w1 \<and> f w1 = (r, w')"
proof (induction n arbitrary: w)
  case 0
  then show ?case by auto
next
  case (Suc n)
  show ?case
  proof (cases "\<exists>w2. f w = (Err Conflict, w2)")
    case True
    then obtain w2 where w2: "f w = (Err Conflict, w2)" by blast
    with Suc.prems step show ?thesis
      by (intro Suc.IH [of w2]) auto
  next
    case False
    with Suc.prems(1) have "f w = (r, w')"
      by (auto split: prod.splits outcome.splits go_error.splits)
    with Suc.prems show ?thesis by blast
  qed
qed

lemma retry_last:
  assumes "retries_on_conflict R" and "R f w = (r, w')" and "I w"
    and "\<And>w1 e w2. I w1 \<Longrightarrow> f w1 = (Err e, w2) \<Longrightarrow> I w2"
  obtains w1 where "I w1" "f w1 = (r, w')"
proof -
  obtain n where run: "retry_runs n f w = (r, w')"
    using assms(1,2) by (metis retries_on_conflict_def)
  have "\<exists>w1. I w1 \<and> f w1 = (r, w')"
    by (rule retry_runs_last [of I f, OF _ run assms(3)]) (rule assms(4))
  with that show thesis by blast
qed

lemma deref_all_Some: "deref_all E (map Some us) = Ok us"
  by (induction us) (auto simp: deref_def)

lemma event_update_simps [simp]:
  "ers_MatchingResources (event_update (Some ms) j ce s) = Some ms"
  "ers_Resources (event_update (Some ms) j ce s) = j"
  "ers_CloudEvents (event_update om j (Some c) s) = ers_CloudEvents s @ [c]"
  "ers_CloudEvents (event_update om j None s) = ers_CloudEvents s"
  "ers_MatchingResources (event_update None j ce s) = ers_MatchingResources s"
  "ers_Resources (event_update None j ce s) = ers_Resources s"
  by (auto simp: event_update_def Let_def split: option.splits)

lemma getEventReport_simps [simp]:
  "obj_key (getEventReport L n ms j ce) = (ReportNamespace, n)"
  "om_DeletionTimestamp (metadata (getEventReport L n ms j ce)) = None"
  "label_of (getEventReport L n ms j ce) (EventSourceNameLabel L) = Some n"
  "ers_MatchingResources (Spec (getEventReport L n ms j ce)) = ms"
  "ers_Resources (Spec (getEventReport L n (Some ms') j ce)) = j"
  "ers_CloudEvents (Spec (getEventReport L n ms j (Some c))) = [c]"
  "ers_CloudEvents (Spec (getEventReport L n ms j None)) = []"
  by (simp_all add: getEventReport_def label_of_def)

locale event_world = eval_world E sources reports mgmt
  for E :: "('w, 'cfg, 'm, 'l, 'v) event_env"
    and sources :: "'w \<Rightarrow> string \<times> string \<Rightarrow> eventsource option"
    and reports :: "'w \<Rightarrow> string \<times> string \<Rightarrow> event_report option"
    and mgmt :: "'w \<Rightarrow> string \<times> string \<Rightarrow> event_report option" +
  fixes R :: "('w, event_report) retry"
  assumes retry: "retries_on_conflict R"
begin

lemma event_report_attempt_law:
  assumes run: "event_report_attempt E ev ms j ce w = (r, w')"
  shows "sources w' = sources w \<and> mgmt w' = mgmt w \<and>
    (\<forall>k. k \<noteq> (ReportNamespace, om_Name (metadata ev)) \<longrightarrow> reports w' k = reports w k) \<and>
    (case r of
       Ok y \<Rightarrow> reports w' (ReportNamespace, om_Name (metadata ev)) = Some y \<and>
         status_Phase y = Some ReportWaitingForDelivery \<and>
         label_of y (EventSourceNameLabel (ev_lib E)) = Some (om_Name (metadata ev)) \<and>
         Spec y = (case reports w (ReportNamespace, om_Name (metadata ev)) of
             None \<Rightarrow> Spec (getEventReport (ev_lib E) (om_Name (metadata ev)) ms j ce)
           | Some x \<Rightarrow> event_update ms j ce (Spec x))
     | Err e \<Rightarrow> True
     | Panic \<Rightarrow> False)"
  using upsert_law [OF run [unfolded event_report_attempt_def updateEventReport_def
        updateEventReportStatus_def]]
  by (cases r) (auto simp: Let_def split: option.splits)

lemma createEventReport_law:
  assumes run: "createEventReport R E ev (Some ms) j None w = (r, w')"
  shows "sources w' = sources w \<and> mgmt w' = mgmt w \<and>
    (\<forall>k. k \<noteq> (ReportNamespace, om_Name (metadata ev)) \<longrightarrow> reports w' k = reports w k) \<and>
    (case r of
       Ok y \<Rightarrow> reports w' (ReportNamespace, om_Name (metadata ev)) = Some y \<and>
         status_Phase y = Some ReportWaitingForDelivery \<and>
         label_of y (EventSourceNameLabel (ev_lib E)) = Some (om_Name (metadata ev)) \<and>
         ers_MatchingResources (Spec y) = Some ms \<and> ers_Resources (Spec y) = j
     | Err e \<Rightarrow> True
     | Panic \<Rightarrow> False)"
proof -
  let ?I = "\<lambda>w1. sources w1 = sources w \<and> mgmt w1 = mgmt w \<and>
    (\<forall>k. k \<noteq> (ReportNamespace, om_Name (metadata ev)) \<longrightarrow> reports w1 k = reports w k)"
  obtain w1 where w1: "?I w1" and last: "event_report_attempt E ev (Some ms) j None w1 = (r, w')"
    by (rule retry_last [OF retry run [unfolded createEventReport_def], where I = ?I])
      (auto dest: event_report_attempt_law)
  from event_report_attempt_law [OF last] w1 show ?thesis
    by (cases r) (auto split: option.splits)
qed

abbreviation events_of :: "'w \<Rightarrow> eventsource \<Rightarrow> string list" where
  "events_of w ev \<equiv> (case reports w (ReportNamespace, om_Name (metadata ev)) of
     None \<Rightarrow> [] | Some x \<Rightarrow> ers_CloudEvents (Spec x))"

lemma event_attempt_fails:
  assumes "event_report_attempt E ev None None (Some ce) w = (Err e, w')"
    and "\<forall>x. reports w (ReportNamespace, om_Name (metadata ev)) = Some x \<longrightarrow>
      om_DeletionTimestamp (metadata x) = None"
  shows "(events_of w' ev = events_of w ev \<or> events_of w' ev = events_of w ev @ [ce]) \<and>
    (\<forall>x. reports w' (ReportNamespace, om_Name (metadata ev)) = Some x \<longrightarrow>
      om_DeletionTimestamp (metadata x) = None)"
  using upsert_fails [OF assms(1) [unfolded event_report_attempt_def updateEventReport_def
        updateEventReportStatus_def] _ _ _ assms(2)] assms(2)
  by (auto split: option.splits)

text \<open>A CloudEvent is appended at least once; each conflict between the update and the status
  update of an attempt appends it once more.\<close>

lemma createEventReport_cloud_event:
  assumes run: "createEventReport R E ev None None (Some ce) w = (Ok y, w')"
    and alive: "\<forall>x. reports w (ReportNamespace, om_Name (metadata ev)) = Some x \<longrightarrow>
      om_DeletionTimestamp (metadata x) = None"
  shows "reports w' (ReportNamespace, om_Name (metadata ev)) = Some y \<and>
    status_Phase y = Some ReportWaitingForDelivery \<and>
    (\<exists>k. ers_CloudEvents (Spec y) = events_of w ev @ replicate (Suc k) ce) \<and>
    sources w' = sources w \<and> mgmt w' = mgmt w \<and>
    (\<forall>k. k \<noteq> (ReportNamespace, om_Name (metadata ev)) \<longrightarrow> reports w' k = reports w k)"
proof -
  let ?I = "\<lambda>w1. (sources w1 = sources w \<and> mgmt w1 = mgmt w \<and>
    (\<forall>k. k \<noteq> (ReportNamespace, om_Name (metadata ev)) \<longrightarrow> reports w1 k = reports w k)) \<and>
    (\<forall>x. reports w1 (ReportNamespace, om_Name (metadata ev)) = Some x \<longrightarrow>
      om_DeletionTimestamp (metadata x) = None) \<and>
    (\<exists>k. events_of w1 ev = events_of w ev @ replicate k ce)"
  have step: "?I w2" if I: "?I w1" and f: "event_report_attempt E ev None None (Some ce) w1 = (Err e, w2)"
    for w1 e w2
  proof -
    obtain k where k: "events_of w1 ev = events_of w ev @ replicate k ce"
      using I by blast
    have "events_of w2 ev = events_of w ev @ replicate k ce \<or>
        events_of w2 ev = events_of w ev @ replicate (Suc k) ce"
      using event_attempt_fails [OF f] I k by (auto simp: replicate_append_same)
    moreover have "\<forall>x. reports w2 (ReportNamespace, om_Name (metadata ev)) = Some x \<longrightarrow>
        om_DeletionTimestamp (metadata x) = None"
      using event_attempt_fails [OF f] I by blast
    ultimately show ?thesis
      using event_report_attempt_law [OF f] I by (metis (no_types, lifting))
  qed
  have start: "?I w"
    using alive by (auto intro: exI [of _ 0])
  obtain w1 where w1: "?I w1" and last: "event_report_attempt E ev None None (Some ce) w1 = (Ok y, w')"
    by (rule retry_last [OF retry run [unfolded createEventReport_def], where I = ?I, OF start step])
  then obtain k where k: "events_of w1 ev = events_of w ev @ replicate k ce"
    by blast
  have "ers_CloudEvents (Spec y) = events_of w1 ev @ [ce]"
    using event_report_attempt_law [OF last] by (auto split: option.splits)
  with k have "ers_CloudEvents (Spec y) = events_of w ev @ replicate (Suc k) ce"
    by (simp add: replicate_append_same)
  then show ?thesis
    using event_report_attempt_law [OF last] w1 by auto
qed

end

context event_world
begin

abbreviation remote_name :: "manager \<Rightarrow> eventsource \<Rightarrow> string \<times> string" where
  "remote_name m ev \<equiv> (clusterNamespace m,
     GetEventReportName (ev_lib E) (om_Name (metadata ev)) (clusterName m) (clusterType m))"

text \<open>What a delivery copies: everything when the management cluster has no report yet, and only the
  matching resources afterwards.\<close>

lemma sendEventReport_law:
  assumes run: "sendEventReport E m ev w = (Ok z, w')"
    and alive: "\<forall>cur. mgmt w (remote_name m ev) = Some cur \<longrightarrow> om_DeletionTimestamp (metadata cur) = None"
  shows "sources w' = sources w \<and>
    (\<forall>k. k \<noteq> (ReportNamespace, om_Name (metadata ev)) \<longrightarrow> reports w' k = reports w k) \<and>
    (\<forall>k. k \<noteq> remote_name m ev \<longrightarrow> mgmt w' k = mgmt w k) \<and>
    (\<exists>x y z. reports w (ReportNamespace, om_Name (metadata ev)) = Some x \<and>
       reports w' (ReportNamespace, om_Name (metadata ev)) = Some y \<and>
       Spec y = Spec x \<and> label_of y = label_of x \<and>
       status_Phase y = (if mgmt w (remote_name m ev) = None then status_Phase x else Some ReportProcessed) \<and>
       mgmt w' (remote_name m ev) = Some z \<and>
       ers_MatchingResources (Spec z) = ers_MatchingResources (Spec x) \<and>
       (case mgmt w (remote_name m ev) of
          None \<Rightarrow> ers_Resources (Spec z) = ers_Resources (Spec x) \<and>
            ers_CloudEvents (Spec z) = ers_CloudEvents (Spec x)
        | Some cur \<Rightarrow> ers_Resources (Spec z) = ers_Resources (Spec cur) \<and>
            ers_CloudEvents (Spec z) = ers_CloudEvents (Spec cur)))"
proof -
  let ?n = "om_Name (metadata ev)"
  let ?ku = "\<lambda>x _. cl_StatusUpdate (ev_reports E) (x\<lparr>status_Phase := Some ReportProcessed\<rparr>)"
  have keys: "obj_key (new_mgmt_event_report (ev_lib E) m ?n x) = remote_name m ev"
    "obj_key (overwrite_mgmt_event_report (ev_lib E) m ?n x cur) = remote_name m ev" for x cur
    by (simp_all add: new_mgmt_event_report_def overwrite_mgmt_event_report_def)
  note delivery = deliver_law [where kc = "\<lambda>_. ret" and ku = ?ku,
      OF run [unfolded sendEventReport_def Let_def] keys]
  obtain x y w1 where x: "reports w (ReportNamespace, ?n) = Some x"
    and same: "reports w1 = reports w" "sources w1 = sources w"
      "\<forall>k. k \<noteq> remote_name m ev \<longrightarrow> mgmt w1 k = mgmt w k"
    and fin: "case mgmt w (remote_name m ev) of
       None \<Rightarrow> Spec y = Spec (new_mgmt_event_report (ev_lib E) m ?n x) \<and>
         mgmt w1 (remote_name m ev) = Some y \<and> ret y w1 = (Ok z, w')
     | Some cur \<Rightarrow> Spec y = Spec (overwrite_mgmt_event_report (ev_lib E) m ?n x cur) \<and>
         mgmt w1 (remote_name m ev) = Some y \<and> ?ku x y w1 = (Ok z, w')"
    by (rule delivery) (use alive in \<open>force split: option.splits\<close>)
  have key: "obj_key x = (ReportNamespace, ?n)"
    using stored_key [OF x] .
  show ?thesis
  proof (cases "mgmt w (remote_name m ev)")
    case None
    with fin same x show ?thesis by (auto simp: ret_def new_mgmt_event_report_def)
  next
    case (Some cur)
    with fin have "cl_StatusUpdate (ev_reports E) (x\<lparr>status_Phase := Some ReportProcessed\<rparr>) w1 = (Ok z, w')"
      by simp
    from status_Ok [OF this] Some fin same x key show ?thesis
      by (auto simp: overwrite_mgmt_event_report_def)
  qed
qed

lemma getEventMatchingResources_frame:
  "getEventMatchingResources E ev w = (r, w') \<Longrightarrow>
   sources w' = sources w \<and> reports w' = reports w \<and> mgmt w' = mgmt w"
  using fetch_selected_frame [of "metadata ev" "ess_ResourceSelectors (Spec ev)" w]
  by (auto simp: getEventMatchingResources_def fetchResourcesMatchingEventSource_def call_def fail_def
      ret_def lift_outcome_def split: prod.splits outcome.splits option.splits if_splits)

lemma evaluateEventSourceInstance_law:
  assumes get: "cl_Get (ev_sources E) '''' n w = (Ok ev, w0)"
    and live: "om_DeletionTimestamp (metadata ev) = None"
    and found: "fst (getEventMatchingResources E ev w0) = Ok (ms, us)"
    and alive: "\<forall>cur. mgmt w (remote_name m ev) = Some cur \<longrightarrow> om_DeletionTimestamp (metadata cur) = None"
    and run: "evaluateEventSourceInstance R E m n w = (Ok (), w')"
  shows "sources w' = sources w \<and>
    (\<forall>k. k \<noteq> (ReportNamespace, n) \<longrightarrow> reports w' k = reports w k) \<and>
    (\<exists>y. reports w' (ReportNamespace, n) = Some y \<and> ers_MatchingResources (Spec y) = Some ms \<and>
       collected_json E ms us = Ok (ers_Resources (Spec y)) \<and>
       label_of y (EventSourceNameLabel (ev_lib E)) = Some n \<and>
       status_Phase y = Some (if sendReport m \<and> mgmt w (remote_name m ev) \<noteq> None
         then ReportProcessed else ReportWaitingForDelivery)) \<and>
    (if sendReport m
     then (\<forall>k. k \<noteq> remote_name m ev \<longrightarrow> mgmt w' k = mgmt w k) \<and>
       (\<exists>z. mgmt w' (remote_name m ev) = Some z \<and> ers_MatchingResources (Spec z) = Some ms)
     else mgmt w' = mgmt w)"
proof -
  have w0: "sources w0 = sources w" "reports w0 = reports w" "mgmt w0 = mgmt w"
    and ev: "sources w ('''', n) = Some ev"
    using api_client.get_Ok [OF src get] by auto
  have name: "om_Name (metadata ev) = n"
    using api_client.stored_key [OF src ev] by simp
  obtain w1 where matching: "getEventMatchingResources E ev w0 = (Ok (ms, us), w1)"
    using found by (metis prod.collapse)
  have w1: "sources w1 = sources w" "reports w1 = reports w" "mgmt w1 = mgmt w"
    using getEventMatchingResources_frame [OF matching] w0 by auto
  from run get live matching obtain j y w2 where j: "collected_json E ms us = Ok j"
    and create: "createEventReport R E ev (Some ms) j None w1 = (Ok y, w2)"
    and send: "(if sendReport m then andThen (sendEventReport E m ev) (\<lambda>_. ret ()) else ret ()) w2
      = (Ok (), w')"
    by (auto simp: evaluateEventSourceInstance_def call_Ok lift_outcome_def
        call_def [of "createEventReport R E ev _ _ _"] call_def [of "lift_outcome _"] fail_def
        split: prod.splits outcome.splits)
  note created = createEventReport_law [OF create]
  show ?thesis
  proof (cases "sendReport m")
    case False
    with send created w1 name j show ?thesis by (auto simp: ret_def)
  next
    case True
    with send obtain z where "sendEventReport E m ev w2 = (Ok z, w')"
      by (auto simp: call_def fail_def ret_def split: prod.splits outcome.splits)
    from sendEventReport_law [OF this] created w1 name alive True j show ?thesis
      by fastforce
  qed
qed

end

definition ref_retry :: "('w, 'a) retry" where
  "ref_retry = retry_runs 4"

lemma ref_retries: "retries_on_conflict ref_retry"
  by (auto simp: retries_on_conflict_def ref_retry_def)

interpretation ref_events: event_world ref_eval_env
  "srv_stored aw_sources" "srv_stored aw_reports" "srv_stored aw_mgmt" ref_retry
  by (intro event_world.intro event_world_axioms.intro ref_eval.eval_world_axioms ref_retries)

section \<open>Properties\<close>

text \<open>The evaluation of an EventSource, end to end: if evaluateEventSourceInstance succeeds on an
  EventSource that is not being deleted, its EventReport lists exactly the matching resources, in order,
  holds the collected resources when there are any to collect, and is marked for delivery, or as
  processed after a delivery that overwrote an existing report; the management cluster's report
  lists the same resources when the agent sends reports. Nothing else changes, whatever
  conflicts were retried.\<close>

theorem evaluateEventSourceInstance_reports:
  assumes "event_world E sources reports mgmt R"
    and "cl_Get (ev_sources E) '''' n w = (Ok ev, w0)"
    and "om_DeletionTimestamp (metadata ev) = None"
    and "fst (getEventMatchingResources E ev w0) = Ok (ms, us)"
    and "remote = (clusterNamespace m, GetEventReportName (ev_lib E) n (clusterName m) (clusterType m))"
    and "\<forall>cur. mgmt w remote = Some cur \<longrightarrow> om_DeletionTimestamp (metadata cur) = None"
    and "evaluateEventSourceInstance R E m n w = (Ok (), w')"
  shows "sources w' = sources w \<and>
    (\<forall>k. k \<noteq> (ReportNamespace, n) \<longrightarrow> reports w' k = reports w k) \<and>
    (\<exists>y. reports w' (ReportNamespace, n) = Some y \<and> ers_MatchingResources (Spec y) = Some ms \<and>
       collected_json E ms us = Ok (ers_Resources (Spec y)) \<and>
       label_of y (EventSourceNameLabel (ev_lib E)) = Some n \<and>
       status_Phase y = Some (if sendReport m \<and> mgmt w remote \<noteq> None
         then ReportProcessed else ReportWaitingForDelivery)) \<and>
    (if sendReport m
     then (\<forall>k. k \<noteq> remote \<longrightarrow> mgmt w' k = mgmt w k) \<and>
       (\<exists>z. mgmt w' remote = Some z \<and> ers_MatchingResources (Spec z) = Some ms)
     else mgmt w' = mgmt w)"
proof -
  note src = eval_world.src [OF event_world.axioms(1) [OF assms(1)]]
  have name: "om_Name (metadata ev) = n"
    using api_client.stored_key [OF src] api_client.get_Ok [OF src assms(2)] by blast
  show ?thesis
    using event_world.evaluateEventSourceInstance_law
      [OF assms(1-4) assms(6) [unfolded assms(5), folded name] assms(7)]
    unfolding assms(5) name .
qed

text \<open>C29. Deletion of an EventSource: evaluating one that is gone or being deleted leaves no live
  EventReport: the report is removed, or it was already marked for deletion, or it has finalizers and is
  now marked for deletion and waiting for delivery. Nothing else changes.\<close>

theorem evaluateEventSourceInstance_cleans:
  assumes "event_world E sources reports mgmt R"
    and "\<forall>ev. sources w ('''', n) = Some ev \<longrightarrow> om_DeletionTimestamp (metadata ev) \<noteq> None"
    and "evaluateEventSourceInstance R E m n w = (r, w')"
  shows "sources w' = sources w \<and> mgmt w' = mgmt w \<and>
    (\<forall>k. k \<noteq> (ReportNamespace, n) \<longrightarrow> reports w' k = reports w k) \<and>
    (case r of
       Ok _ \<Rightarrow> \<forall>y. reports w' (ReportNamespace, n) = Some y \<longrightarrow>
         om_DeletionTimestamp (metadata y) \<noteq> None \<and>
         (reports w (ReportNamespace, n) = Some y \<or>
          om_Finalizers (metadata y) \<noteq> [] \<and> status_Phase y = Some ReportWaitingForDelivery)
     | Err e \<Rightarrow> \<forall>x. reports w (ReportNamespace, n) = Some x \<longrightarrow>
         (\<exists>y. reports w' (ReportNamespace, n) = Some y \<and> Spec y = Spec x)
     | Panic \<Rightarrow> False)"
proof -
  note world = event_world.axioms(1) [OF assms(1)]
  obtain r0 w0 where get: "cl_Get (ev_sources E) '''' n w = (r0, w0)"
    by fastforce
  note law = wpD [OF api_client.get_law [OF eval_world.src [OF world]] get]
  note clean = eval_world.clean_law [OF world, of n w0, folded cleanEventReport_def]
  show ?thesis
  proof (cases "cleanEventReport E n w0 = (r, w')")
    case True
    from clean [OF this] law show ?thesis by (cases r) auto
  next
    case False
    with assms(2,3) get law show ?thesis
      by (cases r0) (auto simp: evaluateEventSourceInstance_def run_act split: if_splits)
  qed
qed

text \<open>A delivery to a management cluster that already has the report is incomplete: sendEventReport
  copies the matching resources only, and the collected resources and the CloudEvents there stay
  those of the first delivery, while the local report is marked as processed.\<close>

theorem sendEventReport_stale:
  assumes "event_world E sources reports mgmt R"
    and "remote = (clusterNamespace m,
           GetEventReportName (ev_lib E) (om_Name (metadata ev)) (clusterName m) (clusterType m))"
    and "mgmt w remote = Some cur" and "om_DeletionTimestamp (metadata cur) = None"
    and "sendEventReport E m ev w = (Ok z, w')"
  shows "\<exists>x y z. reports w (ReportNamespace, om_Name (metadata ev)) = Some x \<and>
    reports w' (ReportNamespace, om_Name (metadata ev)) = Some y \<and>
    status_Phase y = Some ReportProcessed \<and> mgmt w' remote = Some z \<and>
    ers_MatchingResources (Spec z) = ers_MatchingResources (Spec x) \<and>
    ers_Resources (Spec z) = ers_Resources (Spec cur) \<and>
    ers_CloudEvents (Spec z) = ers_CloudEvents (Spec cur)"
  using event_world.sendEventReport_law [OF assms(1) assms(5)] assms(2-4) by auto

text \<open>No EventSource evaluation is lost: a round of evaluateEventSources that ends has evaluated
  each queued EventSource exactly once, and the queue it leaves holds exactly those whose
  evaluation failed and those queued meanwhile.\<close>

theorem evaluateEventSources_round:
  assumes "queues_ok m"
    and "evaluateEventSources R E others m w = (Ok m', w')"
  shows "queues_ok m' \<and> distinct (map fst (eventSourceJobQueue m)) \<and>
    map fst (job_outcomes (evaluateEventSourceInstance R E m) (map fst (eventSourceJobQueue m)) w)
      = map fst (eventSourceJobQueue m) \<and>
    keys (eventSourceJobQueue m') = set others \<union>
      {j. \<exists>e. (j, Err e) \<in> set (job_outcomes (evaluateEventSourceInstance R E m)
                (map fst (eventSourceJobQueue m)) w)}"
  using eventSource_queue.round_complete [OF assms(1) assms(2) [unfolded evaluateEventSources_def]]
  by (simp add: drain_eventSources_def)

section \<open>Witnesses\<close>

type_synonym ref_event_world = "(eventsource_spec, event_report_spec) agent_world"

definition ref_eventsource :: "string \<Rightarrow> eventsource" where
  "ref_eventsource script =
     \<lparr>metadata = empty_meta '''' ''e1'',
      Spec = \<lparr>ess_ResourceSelectors = [any_pod], ess_AggregatedSelection = script,
        ess_CollectResources = True,
        ess_MessagingMatchCriteria = Some [\<lparr>mc_Subject = ''orders'', mc_CloudEventSource = '''',
          mc_CloudEventSubject = '''', mc_CloudEventType = ''created''\<rparr>]\<rparr>,
      status_Phase = None\<rparr>"

definition ref_event_start :: ref_event_world where
  "ref_event_start = ref_world [ref_eventsource ''all''] []
     [new_mgmt_event_report ref_lib (ref_manager True) ''e1'' (getEventReport ref_lib ''e1'' None None None)]
     [(('''', ''v1'', ''Pod''),
       \<lparr>us_Namespace = ''default'', us_Name = ''a'', us_Kind = ''Pod'', us_APIVersion = ''v1'',
        us_DeletionTimestamp = None, us_content = GMap [(''name'', GStr ''a'')]\<rparr>)]"

definition ref_event_pod :: unstructured where
  "ref_event_pod = \<lparr>us_Namespace = ''default'', us_Name = ''a'', us_Kind = ''Pod'', us_APIVersion = ''v1'',
     us_DeletionTimestamp = None, us_content = GMap [(''name'', GStr ''a'')]\<rparr>"

lemma ref_event_run:
  "cl_Get (ev_sources ref_eval_env) '''' ''e1'' ref_event_start =
     (Ok (ref_eventsource ''all''), snd (cl_Get (ev_sources ref_eval_env) '''' ''e1'' ref_event_start))"
  "fst (getEventMatchingResources ref_eval_env (ref_eventsource ''all'')
     (snd (cl_Get (ev_sources ref_eval_env) '''' ''e1'' ref_event_start))) =
     Ok ([reference_to ref_event_pod], Some [ref_event_pod])"
  "evaluateEventSourceInstance ref_retry ref_eval_env (ref_manager True) ''e1'' ref_event_start =
     (Ok (), snd (evaluateEventSourceInstance ref_retry ref_eval_env (ref_manager True) ''e1'' ref_event_start))"
  by code_simp+

lemma ref_event_remote:
  "(''cns'', ''capi--e1--cn'') = (clusterNamespace (ref_manager True),
     GetEventReportName (ev_lib (ref_eval_env :: (_, _, _, _, _, eventsource_spec,
         event_report_spec) eval_env)) ''e1'' (clusterName (ref_manager True))
       (clusterType (ref_manager True)))"
  by code_simp

theorem evaluateEventSourceInstance_reports_witness:
  "\<exists>y z. srv_stored aw_reports (snd (evaluateEventSourceInstance ref_retry ref_eval_env (ref_manager True)
        ''e1'' ref_event_start)) (ReportNamespace, ''e1'') = Some y \<and>
     ers_MatchingResources (Spec y) = Some [reference_to ref_event_pod] \<and>
     srv_stored aw_mgmt (snd (evaluateEventSourceInstance ref_retry ref_eval_env (ref_manager True)
        ''e1'' ref_event_start)) (''cns'', ''capi--e1--cn'') = Some z \<and>
     ers_MatchingResources (Spec z) = Some [reference_to ref_event_pod]"
proof -
  have "om_DeletionTimestamp (metadata (ref_eventsource ''all'')) = None"
    and "sendReport (ref_manager True)"
    by code_simp+
  moreover have "\<forall>cur. srv_stored aw_mgmt ref_event_start (''cns'', ''capi--e1--cn'') = Some cur \<longrightarrow>
      om_DeletionTimestamp (metadata cur) = None"
    by (auto simp: ref_event_start_def ref_world_def new_server_def srv_lookup_def
        new_mgmt_event_report_def split: if_splits)
  ultimately show ?thesis
    using evaluateEventSourceInstance_reports [OF ref_events.event_world_axioms ref_event_run(1)
        _ ref_event_run(2) ref_event_remote _ ref_event_run(3)]
    by auto
qed

theorem evaluateEventSourceInstance_cleans_witness:
  "srv_stored aw_reports (snd (evaluateEventSourceInstance ref_retry ref_eval_env (ref_manager False) ''gone''
     (ref_world [] [getEventReport ref_lib ''gone'' None None None] [] []))) (ReportNamespace, ''gone'') = None"
proof -
  let ?w = "ref_world [] [getEventReport ref_lib ''gone'' None None None] [] [] :: ref_event_world"
  let ?run = "evaluateEventSourceInstance ref_retry ref_eval_env (ref_manager False) ''gone'' ?w"
  have "?run = (Ok (), snd ?run)" "srv_stored aw_sources ?w ('''', ''gone'') = None"
    "om_DeletionTimestamp (metadata (the (srv_stored aw_reports ?w (ReportNamespace, ''gone'')))) = None"
    "srv_stored aw_reports (snd ?run) (ReportNamespace, ''gone'') = None \<or>
      om_Finalizers (metadata (the (srv_stored aw_reports (snd ?run) (ReportNamespace, ''gone'')))) = []"
    by code_simp+
  with evaluateEventSourceInstance_cleans [OF ref_events.event_world_axioms, of ?w "''gone''"
      "ref_manager False" "Ok ()" "snd ?run"]
  show ?thesis
    by (cases "srv_stored aw_reports (snd ?run) (ReportNamespace, ''gone'')") auto
qed

definition ref_event_second :: ref_event_world where
  "ref_event_second = ref_world [] [getEventReport ref_lib ''e1'' None None (Some ''ce'')]
     [new_mgmt_event_report ref_lib (ref_manager True) ''e1'' (getEventReport ref_lib ''e1'' None None None)] []"

theorem sendEventReport_stale_witness:
  "\<exists>x z. srv_stored aw_reports ref_event_second (ReportNamespace, ''e1'') = Some x \<and>
     ers_CloudEvents (Spec x) = [''ce''] \<and>
     srv_stored aw_mgmt (snd (sendEventReport ref_eval_env (ref_manager True) (ref_eventsource '''')
        ref_event_second)) (''cns'', ''capi--e1--cn'') = Some z \<and> ers_CloudEvents (Spec z) = []"
proof -
  let ?run = "sendEventReport ref_eval_env (ref_manager True) (ref_eventsource '''') ref_event_second"
  let ?cur = "new_mgmt_event_report ref_lib (ref_manager True) ''e1'' (getEventReport ref_lib ''e1'' None None None)"
  let ?y = "case fst ?run of Ok y \<Rightarrow> y | _ \<Rightarrow> ?cur"
  have cur: "srv_stored aw_mgmt ref_event_second (''cns'', ''capi--e1--cn'') = Some ?cur"
    and alive: "om_DeletionTimestamp (metadata ?cur) = None"
    and run: "?run = (Ok ?y, snd ?run)"
    and local: "srv_stored aw_reports ref_event_second (ReportNamespace, ''e1'') =
      Some (getEventReport ref_lib ''e1'' None None (Some ''ce''))"
    and name: "om_Name (metadata (ref_eventsource '''')) = ''e1''"
    by code_simp+
  have stale: "ers_CloudEvents (Spec ?cur) = []"
    by code_simp
  show ?thesis
    using sendEventReport_stale [OF ref_events.event_world_axioms
        ref_event_remote [folded name] cur alive run] local stale unfolding name by auto
qed

theorem evaluateEventSources_round_witness:
  "keys (eventSourceJobQueue (case evaluateEventSources ref_retry ref_eval_env [''late'']
     (EvaluateEventSource ''e1'' (ref_manager False)) (ref_world [ref_eventsource ''bad''] [] [] []) of
       (Ok m, _) \<Rightarrow> m | _ \<Rightarrow> ref_manager False)) = {''late'', ''e1''}"
proof -
  let ?w = "ref_world [ref_eventsource ''bad''] [] [] [] :: ref_event_world"
  let ?queued = "EvaluateEventSource ''e1'' (ref_manager False)"
  let ?run = "evaluateEventSources ref_retry ref_eval_env [''late''] ?queued ?w"
  let ?m = "case ?run of (Ok m, _) \<Rightarrow> m | _ \<Rightarrow> ref_manager False"
  have ok: "queues_ok ?queued" and run: "?run = (Ok ?m, snd ?run)"
    and out: "job_outcomes (evaluateEventSourceInstance ref_retry ref_eval_env ?queued)
      (map fst (eventSourceJobQueue ?queued)) ?w = [(''e1'', Err (Other ''syntax error''))]"
    by code_simp+
  show ?thesis
    using evaluateEventSources_round [OF ok run] unfolding out by auto
qed

end
