(* ===== verification/Nats.thy ===== *)
theory Nats
  imports EventSource_Evaluation
begin

text \<open>
  pkg/evaluation/nats_evaluation.go: CloudEvents that arrive over NATS or JetStream. An event is
  offered to every EventSource registered for messaging; where one of its criteria matches, the event
  is appended to the EventReport. The Secret with the messaging configuration is read once, and a
  change of it (seen as a change of its SHA-256) restarts the process.
  Parameters (\<open>nats_env\<close>): the NATS and CloudEvents libraries, regexp, sha256, the decoding of the
  configuration document, and the kill system call. The two loops that wait for a server or for
  the API server may run forever: they take a number of attempts, and running out is \<open>None\<close>.
\<close>

section \<open>Data\<close>

record cloud_event =
  ce_Source :: string
  ce_Subject :: string
  ce_Type :: string
  ce_DataContentType :: string
  ce_MarshalJSON :: "string outcome"

record client_cert =
  cc_CertPem :: string
  cc_KeyPem :: string

record messaging_authorization =
  ma_User :: "(string \<times> string) option"
  ma_Token :: "string option"
  ma_ClientCert :: "client_cert option"
  ma_RootCA :: "string option"

record configuration =
  cfg_URL :: string
  cfg_Subjects :: "string list"
  cfg_Authorization :: messaging_authorization

record messaging_config =
  msg_Nats :: "configuration option"
  msg_Jetstream :: "configuration option"

datatype nats_option = UserInfo string string | Token string | ClientCert string string | RootCAs string

definition natsSecretNamespace :: string where
  "natsSecretNamespace = ''projectsveltos''"

definition natsSecretName :: string where
  "natsSecretName = ''sveltos-nats''"

definition natsKey :: string where
  "natsKey = ''sveltos-nats''"

type_synonym secret = "(string, string) gomap kobject"

record ('w, 'conn, 'js, 'cons) nats_env =
  ne_secrets :: "('w, (string, string) gomap) client"
  ne_decode :: "string \<Rightarrow> messaging_config \<times> go_error option"
  ne_sha256 :: "string \<Rightarrow> string"
  ne_kill :: "('w, unit) act"
  ne_regexp :: "string \<Rightarrow> (string \<Rightarrow> bool) option"
  ne_UnmarshalCE :: "string \<Rightarrow> cloud_event outcome"
  ne_CreateTemp :: "('w, string) act"
  ne_Write :: "string \<Rightarrow> string \<Rightarrow> ('w, unit) act"
  ne_Sync :: "string \<Rightarrow> ('w, unit) act"
  ne_Remove :: "string \<Rightarrow> ('w, unit) act"
  ne_Connect :: "string \<Rightarrow> nats_option list \<Rightarrow> ('w, 'conn) act"
  ne_ErrNoServers :: go_error
  ne_Subscribe :: "'conn \<Rightarrow> string \<Rightarrow> ('w, unit) act"
  ne_NewJetStream :: "'conn \<Rightarrow> ('w, 'js) act"
  ne_Consumer :: "'js \<Rightarrow> string \<Rightarrow> ('w, 'cons) act"
  ne_Consume :: "'cons \<Rightarrow> ('w, unit) act"

section \<open>Which EventSources an event concerns\<close>

text \<open>\<^verbatim>\<open>strings.Contains\<close>.\<close>

definition contains :: "string \<Rightarrow> string \<Rightarrow> bool" where
  "contains s sub = list_ex (\<lambda>t. take (length sub) t = sub) (suffixes s)"

definition isJSON :: "cloud_event \<Rightarrow> bool" where
  "isJSON ce = contains (ce_DataContentType ce) ''application/json''"

definition isStringMatchingRegex ::
  "('w, 'conn, 'js, 'cons) nats_env \<Rightarrow> string \<Rightarrow> string \<Rightarrow> bool" where
  "isStringMatchingRegex N regexString stringToCheck =
     (if regexString = '''' then True
      else (case ne_regexp N regexString of None \<Rightarrow> False | Some r \<Rightarrow> r stringToCheck))"

definition isCloudEventAMatch ::
  "('w, 'conn, 'js, 'cons) nats_env \<Rightarrow> cloud_event \<Rightarrow> string \<Rightarrow> messaging_match_criteria \<Rightarrow> bool" where
  "isCloudEventAMatch N ce natsSubject criteria =
     (isStringMatchingRegex N (mc_Subject criteria) natsSubject \<and>
      isStringMatchingRegex N (mc_CloudEventSource criteria) (ce_Source ce) \<and>
      isStringMatchingRegex N (mc_CloudEventSubject criteria) (ce_Subject ce) \<and>
      isStringMatchingRegex N (mc_CloudEventType criteria) (ce_Type ce))"

definition processCloudEvent ::
  "('w, 'conn, 'js, 'cons) nats_env \<Rightarrow> ('w, event_report) retry \<Rightarrow> ('w, 'cfg, 'm, 'l, 'v) event_env \<Rightarrow>
   manager \<Rightarrow> string \<Rightarrow> cloud_event \<Rightarrow> string \<Rightarrow> ('w, unit) act" where
  "processCloudEvent N RetryOnConflict E m natsSubject ce eventSourceName =
     call (cl_Get (ev_sources E) '''' eventSourceName)
       (\<lambda>e. if e = NotFound then cleanEventReport E eventSourceName else fail e)
       (\<lambda>eventSource.
          if om_DeletionTimestamp (metadata eventSource) \<noteq> None then cleanEventReport E eventSourceName
          else andThen (lift_outcome (ce_MarshalJSON ce)) (\<lambda>ceJsonBytes.
            if list_ex (isCloudEventAMatch N ce natsSubject) (match_criteria (Spec eventSource))
            then andThen (createEventReport RetryOnConflict E eventSource None None (Some ceJsonBytes)) (\<lambda>_.
                   if sendReport m
                   then andThen (sendEventReport E m eventSource) (\<lambda>_. ret ())
                   else ret ())
            else ret ()))"

definition evaluateCloudEvent ::
  "('w, 'conn, 'js, 'cons) nats_env \<Rightarrow> ('w, event_report) retry \<Rightarrow> ('w, 'cfg, 'm, 'l, 'v) event_env \<Rightarrow>
   manager \<Rightarrow> string \<Rightarrow> cloud_event \<Rightarrow> ('w, unit) act" where
  "evaluateCloudEvent N RetryOnConflict E m natsSubject ce =
     foldA (\<lambda>_ n. processCloudEvent N RetryOnConflict E m natsSubject ce n) ()
       (map fst (natsEventSources m))"

section \<open>Message handlers\<close>

text \<open>The function passed to Subscribe: an event that cannot be processed is lost.\<close>

definition nats_handler ::
  "('w, 'conn, 'js, 'cons) nats_env \<Rightarrow> ('w, event_report) retry \<Rightarrow> ('w, 'cfg, 'm, 'l, 'v) event_env \<Rightarrow>
   manager \<Rightarrow> string \<Rightarrow> string \<Rightarrow> ('w, unit) act" where
  "nats_handler N RetryOnConflict E m subject data =
     call (lift_outcome (ne_UnmarshalCE N data)) (\<lambda>_. ret ()) (\<lambda>ce.
       if \<not> isJSON ce then ret ()
       else call (evaluateCloudEvent N RetryOnConflict E m subject ce) (\<lambda>_. ret ()) ret)"

text \<open>The function passed to Consume: what it tells the server about the message.\<close>

datatype acknowledgement = Ack | NakWithDelay | NoAnswer

definition jetstream_handler ::
  "('w, 'conn, 'js, 'cons) nats_env \<Rightarrow> ('w, event_report) retry \<Rightarrow> ('w, 'cfg, 'm, 'l, 'v) event_env \<Rightarrow>
   manager \<Rightarrow> string \<Rightarrow> string \<Rightarrow> ('w, acknowledgement) act" where
  "jetstream_handler N RetryOnConflict E m subject data =
     call (lift_outcome (ne_UnmarshalCE N data)) (\<lambda>_. ret NoAnswer) (\<lambda>ce.
       if \<not> isJSON ce then ret NoAnswer
       else call (evaluateCloudEvent N RetryOnConflict E m subject ce)
              (\<lambda>_. ret NakWithDelay) (\<lambda>_. ret Ack))"

section \<open>Connecting\<close>

definition createTempFileWithContent ::
  "('w, 'conn, 'js, 'cons) nats_env \<Rightarrow> string \<Rightarrow> ('w, string) act" where
  "createTempFileWithContent N data =
     andThen (ne_CreateTemp N) (\<lambda>tmpfile.
     call (ne_Write N tmpfile data)
       (\<lambda>e. call (ne_Remove N tmpfile) (\<lambda>_. fail e) (\<lambda>_. fail e))
       (\<lambda>_. call (ne_Sync N tmpfile)
          (\<lambda>e. call (ne_Remove N tmpfile) (\<lambda>_. fail e) (\<lambda>_. fail e))
          (\<lambda>_. ret tmpfile)))"

text \<open>A file that cannot be written ends the function with the options gathered so far.\<close>

definition connectOptions ::
  "('w, 'conn, 'js, 'cons) nats_env \<Rightarrow> messaging_authorization \<Rightarrow> ('w, nats_option list) act" where
  "connectOptions N authorization =
     (let options =
        (case ma_User authorization of None \<Rightarrow> [] | Some (u, p) \<Rightarrow> [UserInfo u p]) @
        (case ma_Token authorization of None \<Rightarrow> [] | Some t \<Rightarrow> [Token t]);
        withRootCA = (\<lambda>opts. case ma_RootCA authorization of
          None \<Rightarrow> ret opts
        | Some ca \<Rightarrow> call (createTempFileWithContent N ca) (\<lambda>_. ret opts)
            (\<lambda>rootCA. ret (opts @ [RootCAs rootCA])))
      in case ma_ClientCert authorization of
           None \<Rightarrow> withRootCA options
         | Some cc \<Rightarrow>
             call (createTempFileWithContent N (cc_CertPem cc)) (\<lambda>_. ret options) (\<lambda>certPem.
             call (createTempFileWithContent N (cc_KeyPem cc)) (\<lambda>_. ret options) (\<lambda>keyPem.
               withRootCA (options @ [ClientCert certPem keyPem]))))"

definition restart :: "('w, 'conn, 'js, 'cons) nats_env \<Rightarrow> ('w, unit) act" where
  "restart N = call (ne_kill N) (\<lambda>_. panic) ret"

text \<open>The connect loop: again while there is no server.\<close>

fun connect_loop ::
  "('w, 'conn, 'js, 'cons) nats_env \<Rightarrow> nat \<Rightarrow> string \<Rightarrow> nats_option list \<Rightarrow> 'w \<Rightarrow> ('conn outcome \<times> 'w) option" where
  "connect_loop N 0 url options w = None"
| "connect_loop N (Suc n) url options w =
     (case ne_Connect N url options w of
        (Err e, w') \<Rightarrow> if e = ne_ErrNoServers N then connect_loop N n url options w' else Some (Err e, w')
      | (r, w') \<Rightarrow> Some (r, w'))"

definition subscribe_all ::
  "('w, 'conn, 'js, 'cons) nats_env \<Rightarrow> 'conn \<Rightarrow> string list \<Rightarrow> ('w, unit) act" where
  "subscribe_all N nc subjects =
     foldA (\<lambda>_ subject. call (ne_Subscribe N nc subject) (\<lambda>_. restart N) ret) () subjects"

definition listenToNats ::
  "('w, 'conn, 'js, 'cons) nats_env \<Rightarrow> nat \<Rightarrow> configuration option \<Rightarrow> 'w \<Rightarrow> (unit outcome \<times> 'w) option" where
  "listenToNats N attempts configuration w =
     (case configuration of
        None \<Rightarrow> Some (Ok (), w)
      | Some config \<Rightarrow>
          (case connectOptions N (cfg_Authorization config) w of
             (Ok options, w1) \<Rightarrow>
               (case connect_loop N attempts (cfg_URL config) options w1 of
                  None \<Rightarrow> None
                | Some (Ok nc, w2) \<Rightarrow> Some (subscribe_all N nc (cfg_Subjects config) w2)
                | Some (Err _, w2) \<Rightarrow> Some (Ok (), w2)
                | Some (Panic, w2) \<Rightarrow> Some (Panic, w2))
           | (Err _, w1) \<Rightarrow> Some (Ok (), w1)
           | (Panic, w1) \<Rightarrow> Some (Panic, w1)))"

text \<open>A subject without a stream or without the consumer is skipped.\<close>

definition consume_all ::
  "('w, 'conn, 'js, 'cons) nats_env \<Rightarrow> 'js \<Rightarrow> string list \<Rightarrow> ('w, unit) act" where
  "consume_all N js subjects =
     foldA (\<lambda>_ subject. call (ne_Consumer N js subject) (\<lambda>_. ret ()) (\<lambda>cons.
       call (ne_Consume N cons) (\<lambda>_. restart N) ret)) () subjects"

definition listenToJetStream ::
  "('w, 'conn, 'js, 'cons) nats_env \<Rightarrow> nat \<Rightarrow> configuration option \<Rightarrow> 'w \<Rightarrow> (unit outcome \<times> 'w) option" where
  "listenToJetStream N attempts configuration w =
     (case configuration of
        None \<Rightarrow> Some (Ok (), w)
      | Some config \<Rightarrow>
          (case connectOptions N (cfg_Authorization config) w of
             (Ok options, w1) \<Rightarrow>
               (case connect_loop N attempts (cfg_URL config) options w1 of
                  None \<Rightarrow> None
                | Some (Ok nc, w2) \<Rightarrow>
                    Some (call (ne_NewJetStream N nc) (\<lambda>_. ret ())
                            (\<lambda>js. consume_all N js (cfg_Subjects config)) w2)
                | Some (Err _, w2) \<Rightarrow> Some (Ok (), w2)
                | Some (Panic, w2) \<Rightarrow> Some (Panic, w2))
           | (Err _, w1) \<Rightarrow> Some (Ok (), w1)
           | (Panic, w1) \<Rightarrow> Some (Panic, w1)))"

section \<open>The messaging configuration\<close>

definition evaluateHash :: "('w, 'conn, 'js, 'cons) nats_env \<Rightarrow> (string, string) gomap \<Rightarrow> string option" where
  "evaluateHash N data = (case map_of data natsKey of None \<Rightarrow> None | Some c \<Rightarrow> Some (ne_sha256 N c))"

text \<open>The configuration is \<open>None\<close> when there is no Secret; a document that does not decode is
  used as far as it was decoded. A missing key reads as the empty document.\<close>

fun loadMessagingConfiguration ::
  "('w, 'conn, 'js, 'cons) nats_env \<Rightarrow> nat \<Rightarrow> manager \<Rightarrow> 'w \<Rightarrow>
   ((messaging_config option \<times> manager) outcome \<times> 'w) option" where
  "loadMessagingConfiguration N 0 m w = None"
| "loadMessagingConfiguration N (Suc n) m w =
     (case cl_Get (ne_secrets N) natsSecretNamespace natsSecretName w of
        (Ok secret, w') \<Rightarrow>
          Some (Ok (Some (fst (ne_decode N (case map_of (Spec secret) natsKey of None \<Rightarrow> '''' | Some c \<Rightarrow> c))),
                    m\<lparr>messagingConfigurationHash := evaluateHash N (Spec secret)\<rparr>), w')
      | (Err e, w') \<Rightarrow>
          if e = NotFound then Some (Ok (None, m), w') else loadMessagingConfiguration N n m w'
      | (Panic, w') \<Rightarrow> Some (Panic, w'))"

text \<open>A notification carries the object, \<open>None\<close> when it is not an unstructured one, and the
  conversion of its content to a Secret's data.\<close>

definition reactToNATS ::
  "('w, 'conn, 'js, 'cons) nats_env \<Rightarrow> (unstructured \<Rightarrow> (string, string) gomap \<times> go_error option) \<Rightarrow> manager \<Rightarrow>
   gvk option \<Rightarrow> unstructured option \<Rightarrow> ('w, unit) act" where
  "reactToNATS N FromUnstructured m g obj =
     (case g of
        None \<Rightarrow> ret ()
      | Some k \<Rightarrow>
          if k \<noteq> getSecretGVK then ret ()
          else (case obj of
             None \<Rightarrow> ret ()
           | Some u \<Rightarrow>
               if us_Namespace u = natsSecretNamespace \<and> us_Name u = natsSecretName
               then (case FromUnstructured u of
                  (data, err) \<Rightarrow>
                    andThen (if err \<noteq> None then restart N else ret ()) (\<lambda>_.
                      if evaluateHash N data \<noteq> messagingConfigurationHash m then restart N else ret ()))
               else ret ()))"

section \<open>Lemmas\<close>

context event_world
begin

lemma events_of_name: "om_Name (metadata ev) = n \<Longrightarrow>
    events_of w ev = (case reports w (ReportNamespace, n) of None \<Rightarrow> [] | Some x \<Rightarrow> ers_CloudEvents (Spec x))"
  by simp

text \<open>One EventSource, in an agent that does not send reports: at most its own report changes, and it
  gets the event when a criterion matches.\<close>

lemma processCloudEvent_frame:
  assumes run: "processCloudEvent N R E m subject ce n w = (Ok (), w')"
    and quiet: "\<not> sendReport m"
    and alive: "\<forall>x. reports w (ReportNamespace, n) = Some x \<longrightarrow> om_DeletionTimestamp (metadata x) = None"
  shows "sources w' = sources w \<and> mgmt w' = mgmt w \<and>
    (\<forall>k. k \<noteq> (ReportNamespace, n) \<longrightarrow> reports w' k = reports w k) \<and>
    (\<forall>ev. sources w ('''', n) = Some ev \<longrightarrow> om_DeletionTimestamp (metadata ev) = None \<longrightarrow>
       list_ex (isCloudEventAMatch N ce subject) (match_criteria (Spec ev)) \<longrightarrow>
       (\<exists>y j k. reports w' (ReportNamespace, n) = Some y \<and> ce_MarshalJSON ce = Ok j \<and>
          status_Phase y = Some ReportWaitingForDelivery \<and>
          ers_CloudEvents (Spec y) =
            (case reports w (ReportNamespace, n) of None \<Rightarrow> [] | Some x \<Rightarrow> ers_CloudEvents (Spec x))
              @ replicate (Suc k) j))"
proof (cases "sources w ('''', n)")
  case None
  from api_client.get_absent [OF src None run [unfolded processCloudEvent_def]]
  obtain w0 where w0: "sources w0 = sources w" "reports w0 = reports w" "mgmt w0 = mgmt w"
    and "cleanEventReport E n w0 = (Ok (), w')" by auto
  from clean_law [OF this(4) [unfolded cleanEventReport_def]] None w0 show ?thesis by simp
next
  case (Some ev)
  have name: "om_Name (metadata ev) = n"
    using api_client.stored_key [OF src Some] by simp
  from api_client.get_present [OF src Some run [unfolded processCloudEvent_def]]
  obtain w0 where w0: "sources w0 = sources w" "reports w0 = reports w" "mgmt w0 = mgmt w"
    and body: "(if om_DeletionTimestamp (metadata ev) \<noteq> None then cleanEventReport E n
       else andThen (lift_outcome (ce_MarshalJSON ce)) (\<lambda>j.
         if list_ex (isCloudEventAMatch N ce subject) (match_criteria (Spec ev))
         then andThen (createEventReport R E ev None None (Some j)) (\<lambda>_.
           if sendReport m then andThen (sendEventReport E m ev) (\<lambda>_. ret ()) else ret ())
         else ret ())) w0 = (Ok (), w')" by auto
  show ?thesis
  proof (cases "om_DeletionTimestamp (metadata ev) = None \<and>
      list_ex (isCloudEventAMatch N ce subject) (match_criteria (Spec ev))")
    case True
    with body quiet obtain j y where j: "ce_MarshalJSON ce = Ok j"
      and create: "createEventReport R E ev None None (Some j) w0 = (Ok y, w')"
      by (auto simp: lift_outcome_def ret_def elim!: andThen_OkE)
    have "\<forall>x. reports w0 (ReportNamespace, om_Name (metadata ev)) = Some x \<longrightarrow>
        om_DeletionTimestamp (metadata x) = None"
      using alive w0 name by simp
    from createEventReport_cloud_event [OF create this] Some True j w0 name show ?thesis
      by auto
  next
    case False
    show ?thesis
    proof (cases "om_DeletionTimestamp (metadata ev) = None")
      case True
      with False body w0 Some show ?thesis
        by (auto simp: ret_def lift_outcome_def elim!: andThen_OkE)
    next
      case deleted: False
      with body have "cleanEventReport E n w0 = (Ok (), w')" by simp
      from clean_law [OF this [unfolded cleanEventReport_def]] Some deleted w0 show ?thesis by auto
    qed
  qed
qed

lemma process_all_frame:
  assumes "foldA (\<lambda>_ n. processCloudEvent N R E m subject ce n) () ns w = (Ok (), w')"
    and "\<not> sendReport m"
    and "\<forall>n \<in> set ns. \<forall>x. reports w (ReportNamespace, n) = Some x \<longrightarrow> om_DeletionTimestamp (metadata x) = None"
    and "distinct ns"
  shows "sources w' = sources w \<and> mgmt w' = mgmt w \<and>
    (\<forall>k. k \<notin> Pair ReportNamespace ` set ns \<longrightarrow> reports w' k = reports w k) \<and>
    (\<forall>n \<in> set ns. \<forall>ev. sources w ('''', n) = Some ev \<longrightarrow> om_DeletionTimestamp (metadata ev) = None \<longrightarrow>
       list_ex (isCloudEventAMatch N ce subject) (match_criteria (Spec ev)) \<longrightarrow>
       (\<exists>y j k. reports w' (ReportNamespace, n) = Some y \<and> ce_MarshalJSON ce = Ok j \<and>
          status_Phase y = Some ReportWaitingForDelivery \<and>
          ers_CloudEvents (Spec y) =
            (case reports w (ReportNamespace, n) of None \<Rightarrow> [] | Some x \<Rightarrow> ers_CloudEvents (Spec x))
              @ replicate (Suc k) j))"
  using assms
proof (induction ns arbitrary: w)
  case Nil
  then show ?case by (simp add: ret_def)
next
  case (Cons a ns)
  from Cons.prems(1) obtain w1 where first: "processCloudEvent N R E m subject ce a w = (Ok (), w1)"
    and others: "foldA (\<lambda>_ n. processCloudEvent N R E m subject ce n) () ns w1 = (Ok (), w')"
    by (auto elim!: andThen_OkE)
  note head = processCloudEvent_frame [OF first Cons.prems(2)]
  have heads: "sources w1 = sources w" "mgmt w1 = mgmt w"
    "\<And>k. k \<noteq> (ReportNamespace, a) \<Longrightarrow> reports w1 k = reports w k"
    using head Cons.prems(3) by auto
  have before: "reports w1 (ReportNamespace, n) = reports w (ReportNamespace, n)" if "n \<in> set ns" for n
    by (rule heads(3)) (use that Cons.prems(4) in auto)
  have "\<forall>n \<in> set ns. \<forall>x. reports w1 (ReportNamespace, n) = Some x \<longrightarrow>
      om_DeletionTimestamp (metadata x) = None"
    using before Cons.prems(3) by simp
  note tail = Cons.IH [OF others Cons.prems(2) this]
  have same: "reports w' (ReportNamespace, a) = reports w1 (ReportNamespace, a)"
    using tail Cons.prems(4) by auto
  show ?case
    using tail head heads same before Cons.prems(3,4) by auto
qed

end

section \<open>Properties\<close>

text \<open>C11. A CloudEvent acknowledged to JetStream has been recorded: when the handler answers Ack (in an
  agent that does not send reports itself), the report of every registered EventSource that is there,
  not being deleted, and has a matching criterion ends with the event and waits for delivery;
  reports of other names, the EventSources and the management cluster are unchanged. The event is
  appended once more for every attempt whose status update conflicted after its update.\<close>

theorem jetstream_ack_recorded:
  assumes "event_world E sources reports mgmt R"
    and "jetstream_handler N R E m subject data w = (Ok Ack, w')"
    and "\<not> sendReport m" and "queues_ok m"
    and "\<forall>n \<in> keys (natsEventSources m). \<forall>x. reports w (ReportNamespace, n) = Some x \<longrightarrow>
           om_DeletionTimestamp (metadata x) = None"
  shows "\<exists>ce. ne_UnmarshalCE N data = Ok ce \<and> isJSON ce \<and>
    sources w' = sources w \<and> mgmt w' = mgmt w \<and>
    (\<forall>k. k \<notin> Pair ReportNamespace ` keys (natsEventSources m) \<longrightarrow> reports w' k = reports w k) \<and>
    (\<forall>n \<in> keys (natsEventSources m). \<forall>ev.
       sources w ('''', n) = Some ev \<longrightarrow> om_DeletionTimestamp (metadata ev) = None \<longrightarrow>
       list_ex (isCloudEventAMatch N ce subject) (match_criteria (Spec ev)) \<longrightarrow>
       (\<exists>y j k. reports w' (ReportNamespace, n) = Some y \<and> ce_MarshalJSON ce = Ok j \<and>
          status_Phase y = Some ReportWaitingForDelivery \<and>
          ers_CloudEvents (Spec y) =
            (case reports w (ReportNamespace, n) of None \<Rightarrow> [] | Some x \<Rightarrow> ers_CloudEvents (Spec x))
              @ replicate (Suc k) j))"
proof -
  from assms(2) obtain ce where ce: "ne_UnmarshalCE N data = Ok ce" "isJSON ce"
    and run: "evaluateCloudEvent N R E m subject ce w = (Ok (), w')"
    by (auto simp: jetstream_handler_def call_def ret_def lift_outcome_def
        split: prod.splits outcome.splits if_splits)
  have "distinct (map fst (natsEventSources m))"
    using assms(4) by (simp add: queues_ok_def)
  with event_world.process_all_frame [OF assms(1) run [unfolded evaluateCloudEvent_def] assms(3)] assms(5)
  show ?thesis using ce by (auto simp: image_image)
qed

text \<open>Only a real change of the messaging configuration restarts the agent: with a collision-free
  hash and a Secret that converts, a notification about the messaging Secret asks for a restart exactly when the
  content under the messaging key differs from the one the agent loaded.\<close>

theorem reactToNATS_restart:
  assumes "inj (ne_sha256 N)"
    and "messagingConfigurationHash m = evaluateHash N loaded"
    and "us_Namespace u = natsSecretNamespace" and "us_Name u = natsSecretName"
    and "FromUnstructured u = (data, None)"
  shows "reactToNATS N FromUnstructured m (Some getSecretGVK) (Some u) =
    (if map_of data natsKey = map_of loaded natsKey then ret () else restart N)"
proof -
  have "evaluateHash N data = evaluateHash N loaded \<longleftrightarrow> map_of data natsKey = map_of loaded natsKey"
    using assms(1) by (auto simp: evaluateHash_def inj_eq split: option.splits)
  then show ?thesis
    using assms(2-5) by (simp add: reactToNATS_def)
qed

text \<open>A conflict duplicates a CloudEvent: on a server whose first status update meets a conflict,
  createEventReport succeeds on its second attempt and the report holds the one event twice, because
  the attempt that failed had already appended it.\<close>

theorem createEventReport_duplicates:
  "(case createEventReport ref_retry ref_eval_env (ref_eventsource '''') None None (Some ''ce'')
      ((ref_world [] [] [] [] :: ref_event_world)\<lparr>aw_reports :=
         (new_server [getEventReport ref_lib ''e1'' None None None])
           \<lparr>srv_faults := [None, None, Some ''conflict'']\<rparr>\<rparr>) of
     (Ok y, _) \<Rightarrow> ers_CloudEvents (Spec y) | _ \<Rightarrow> []) = [''ce'', ''ce'']"
  by code_simp

section \<open>Witnesses\<close>

definition ref_nats :: "(ref_event_world, unit, unit, unit) nats_env" where
  "ref_nats =
     \<lparr>ne_secrets = secrets_client,
      ne_decode = \<lambda>s. (\<lparr>msg_Nats = None, msg_Jetstream = None\<rparr>, None),
      ne_sha256 = \<lambda>s. s, ne_kill = ret (),
      ne_regexp = \<lambda>s. Some (\<lambda>t. t = s),
      ne_UnmarshalCE = \<lambda>s. if s = '''' then Err (Other ''not a cloud event'')
        else Ok \<lparr>ce_Source = ''shop'', ce_Subject = s, ce_Type = ''created'',
               ce_DataContentType = ''application/json; charset=utf-8'', ce_MarshalJSON = Ok s\<rparr>,
      ne_CreateTemp = ret ''t'', ne_Write = \<lambda>_ _. ret (), ne_Sync = \<lambda>_. ret (), ne_Remove = \<lambda>_. ret (),
      ne_Connect = \<lambda>_ _. ret (), ne_ErrNoServers = Other ''no servers'',
      ne_Subscribe = \<lambda>_ _. ret (), ne_NewJetStream = \<lambda>_. ret (), ne_Consumer = \<lambda>_ _. ret (),
      ne_Consume = \<lambda>_. ret ()\<rparr>"

theorem jetstream_ack_recorded_witness:
  "\<exists>y k. srv_stored aw_reports (snd (jetstream_handler ref_nats ref_retry ref_eval_env
        (RegisterNatsEventSource ''e1'' (ref_manager False)) ''orders'' ''o17'' ref_event_start))
        (ReportNamespace, ''e1'') = Some y \<and> ers_CloudEvents (Spec y) = replicate (Suc k) ''o17''"
proof -
  let ?registered = "RegisterNatsEventSource ''e1'' (ref_manager False)"
  let ?run = "jetstream_handler ref_nats ref_retry ref_eval_env ?registered ''orders'' ''o17'' ref_event_start"
  let ?ce = "\<lparr>ce_Source = ''shop'', ce_Subject = ''o17'', ce_Type = ''created'',
    ce_DataContentType = ''application/json; charset=utf-8'', ce_MarshalJSON = Ok ''o17''\<rparr>"
  have run: "?run = (Ok Ack, snd ?run)" by code_simp
  have quiet: "\<not> sendReport ?registered" "queues_ok ?registered"
    and names: "map fst (natsEventSources ?registered) = [''e1'']"
    and ce: "ne_UnmarshalCE ref_nats ''o17'' = Ok ?ce"
    and ev: "srv_stored aw_sources ref_event_start ('''', ''e1'') = Some (ref_eventsource ''all'')"
      "om_DeletionTimestamp (metadata (ref_eventsource ''all'')) = None"
    and matched: "list_ex (isCloudEventAMatch ref_nats ?ce ''orders'')
      (match_criteria (Spec (ref_eventsource ''all'')))"
    and none: "srv_stored aw_reports ref_event_start (ReportNamespace, ''e1'') = None"
    by code_simp+
  have keys: "keys (natsEventSources ?registered) = {''e1''}"
    using names by (metis list.set_map list.simps(15) empty_set)
  have "\<forall>n \<in> keys (natsEventSources ?registered). \<forall>x.
      srv_stored aw_reports ref_event_start (ReportNamespace, n) = Some x \<longrightarrow>
      om_DeletionTimestamp (metadata x) = None"
    using keys none by simp
  from jetstream_ack_recorded [OF ref_events.event_world_axioms run quiet this] keys ce ev matched none
  show ?thesis by fastforce
qed

theorem reactToNATS_restart_witness:
  "reactToNATS ref_nats (\<lambda>u. ([(natsKey, ''new'')], None))
     ((ref_manager False)\<lparr>messagingConfigurationHash := Some ''old''\<rparr>) (Some getSecretGVK)
     (Some ((a_pod ''projectsveltos'')\<lparr>us_Name := natsSecretName\<rparr>)) = restart ref_nats"
proof -
  let ?u = "(a_pod ''projectsveltos'')\<lparr>us_Name := natsSecretName\<rparr>"
  have hash: "inj (ne_sha256 ref_nats)"
    "messagingConfigurationHash ((ref_manager False)\<lparr>messagingConfigurationHash := Some ''old''\<rparr>)
      = evaluateHash ref_nats [(natsKey, ''old'')]"
    by (simp_all add: ref_nats_def inj_def evaluateHash_def)
  have secret: "us_Namespace ?u = natsSecretNamespace" "us_Name ?u = natsSecretName"
    by (simp_all add: a_pod_def natsSecretNamespace_def)
  show ?thesis
    using reactToNATS_restart [OF hash secret, of "\<lambda>u. ([(natsKey, ''new'')], None)", OF refl] by simp
qed

end
