(* ===== verification/Object_Set.thy ===== *)
theory Object_Set
  imports Kube
begin

text \<open>
  The sets of object references the controllers and the reloader maps hold are values of
  libsveltos's lib/set package, which is not part of this repository: its operations are a
  parameter, the record \<open>set_ops\<close>, and what the agent relies on is the locale \<open>object_set\<close>.
  A set in the code is a pointer. The zero value \<^verbatim>\<open>&Set{}\<close> is \<open>set_new\<close>; a method called through
  a nil pointer (a map lookup of a missing key) is the separate field \<open>set_nil_ok\<close>: whether the
  methods tolerate a nil receiver (and then see an empty set) or read through it and panic.
\<close>

section \<open>The operations\<close>

record 's set_ops =
  set_new :: 's
  set_insert :: "'s \<Rightarrow> object_reference \<Rightarrow> 's"
  set_erase :: "'s \<Rightarrow> object_reference \<Rightarrow> 's"
  set_len :: "'s \<Rightarrow> nat"
  set_items :: "'s \<Rightarrow> object_reference list"
  set_difference :: "'s \<Rightarrow> 's \<Rightarrow> object_reference list"
  set_nil_ok :: bool

text \<open>The program's two idioms on a Go map from keys to set pointers: insert into the set of a key,
  making the set when the key is new; and erase from the set of every key.\<close>

definition insert_at :: "'s set_ops \<Rightarrow> 'k \<Rightarrow> object_reference \<Rightarrow> ('k, 's) gomap \<Rightarrow> ('k, 's) gomap" where
  "insert_at S k r m =
     put k (set_insert S (case map_of m k of None \<Rightarrow> set_new S | Some s \<Rightarrow> s) r) m"

definition erase_everywhere :: "'s set_ops \<Rightarrow> object_reference \<Rightarrow> ('k, 's) gomap \<Rightarrow> ('k, 's) gomap" where
  "erase_everywhere S r m = map (\<lambda>(k, s). (k, set_erase S s r)) m"

text \<open>What the set of a key holds, with \<open>elems\<close> the meaning of a set.\<close>

definition members :: "('s \<Rightarrow> object_reference set) \<Rightarrow> ('k, 's) gomap \<Rightarrow> 'k \<Rightarrow> object_reference set" where
  "members elems m k = (case map_of m k of None \<Rightarrow> {} | Some s \<Rightarrow> elems s)"

text \<open>Sets as lists without repetition: the instance the witnesses run on.\<close>

definition list_set :: "bool \<Rightarrow> object_reference list set_ops" where
  "list_set nil_ok =
     \<lparr>set_new = [], set_insert = \<lambda>s r. if r \<in> set s then s else s @ [r],
      set_erase = \<lambda>s r. filter (\<lambda>x. x \<noteq> r) s, set_len = length, set_items = \<lambda>s. s,
      set_difference = \<lambda>s t. filter (\<lambda>x. x \<notin> set t) s, set_nil_ok = nil_ok\<rparr>"

section \<open>The contract of a set\<close>

locale object_set =
  fixes S :: "'s set_ops" and elems :: "'s \<Rightarrow> object_reference set"
  assumes elems_new [simp]: "elems (set_new S) = {}"
    and elems_insert [simp]: "elems (set_insert S s r) = insert r (elems s)"
    and elems_erase [simp]: "elems (set_erase S s r) = elems s - {r}"
    and len_zero [simp]: "set_len S s = 0 \<longleftrightarrow> elems s = {}"
    and set_items_elems [simp]: "set (set_items S s) = elems s"
    and set_difference_elems [simp]: "set (set_difference S s t) = elems s - elems t"
begin

lemma members_empty [simp]: "members elems [] k = {}"
  by (simp add: members_def)

lemma members_insert_at [simp]:
  "members elems (insert_at S k r m) = (members elems m)(k := insert r (members elems m k))"
  by (auto simp: members_def insert_at_def fun_eq_iff split: option.splits)

lemma members_erase_everywhere [simp]:
  "members elems (erase_everywhere S r m) k = members elems m k - {r}"
  by (auto simp: members_def erase_everywhere_def map_of_map_value split: option.splits)

lemma members_put [simp]: "members elems (put k s m) = (members elems m)(k := elems s)"
  by (auto simp: members_def fun_eq_iff)

lemma members_del [simp]: "members elems (del k m) = (members elems m)(k := {})"
  by (auto simp: members_def fun_eq_iff)

end

lemma keys_insert_at [simp]: "keys (insert_at S k r m) = insert k (keys m)"
  by (simp add: insert_at_def)

lemma gomap_ok_insert_at [simp]: "gomap_ok m \<Longrightarrow> gomap_ok (insert_at S k r m)"
  by (simp add: insert_at_def)

lemma keys_erase_everywhere [simp]: "keys (erase_everywhere S r m) = keys m"
  by (force simp: erase_everywhere_def)

lemma gomap_ok_erase_everywhere [simp]: "gomap_ok (erase_everywhere S r m) = gomap_ok m"
  by (simp add: erase_everywhere_def comp_def case_prod_beta)

section \<open>Lists are sets\<close>

lemma list_set_simps [simp]:
  "set_new (list_set b) = []"
  "set_insert (list_set b) s r = (if r \<in> set s then s else s @ [r])"
  "set_erase (list_set b) s r = filter (\<lambda>x. x \<noteq> r) s"
  "set_len (list_set b) s = length s"
  "set_items (list_set b) s = s"
  "set_difference (list_set b) s t = filter (\<lambda>x. x \<notin> set t) s"
  "set_nil_ok (list_set b) = b"
  by (simp_all add: list_set_def)

interpretation lset: object_set "list_set b" set
  by unfold_locales auto

end
