(* ===== verification/Reloader_Evaluation.thy ===== *)
theory Reloader_Evaluation
  imports Eval_Env Object_Set
begin

text \<open>
  pkg/evaluation/reloader_evaluation.go: the three package-level maps (the workloads a Reloader names,
  the Reloaders naming a workload, the workloads mounting a ConfigMap or Secret), the evaluation of a
  Reloader, which keeps them, and the evaluation of a changed ConfigMap or Secret, which turns the
  volume map into a ReloaderReport.
  The maps are a record beside the world (\<open>reloader_maps\<close>), so that an evaluation that fails half way
  leaves them as far as it got. A lookup of a missing key is a nil set: calling Erase through it is
  a panic unless the set library tolerates nil receivers (\<open>set_nil_ok\<close>).
\<close>

section \<open>Data\<close>

record reloader_info =
  ri_Kind :: string
  ri_Namespace :: string
  ri_Name :: string

type_synonym reloader = "reloader_info list kobject"

record reloader_report_spec =
  rrs_ClusterNamespace :: string
  rrs_ClusterName :: string
  rrs_ClusterType :: string
  rrs_ResourcesToReload :: "reloader_info list"

type_synonym reloader_report = "reloader_report_spec kobject"

text \<open>corev1.Volume: the two sources the agent looks at.\<close>

record volume =
  vol_ConfigMap :: "string option"
  vol_Secret :: "string option"

type_synonym workload = "volume list kobject"

record 's reloader_maps =
  reloaderMap :: "(object_reference, 's) gomap"
  resourceMap :: "(object_reference, 's) gomap"
  volumeMap :: "(object_reference, 's) gomap"

record ('w, 'cfg) reloader_env =
  re_lib :: libsveltos
  re_reloaders :: "('w, reloader_info list) client"
  re_deployments :: "('w, volume list) client"
  re_statefulSets :: "('w, volume list) client"
  re_daemonSets :: "('w, volume list) client"
  re_reports :: "('w, reloader_report_spec) client"
  re_mgmt :: "('w, 'cfg) mgmt_env"
  re_mgmtReports :: "'cfg \<Rightarrow> ('w, reloader_report_spec) client"

text \<open>An action on the world, and an update of the maps, as steps of an evaluation.\<close>

definition on_world :: "('w, 'a) act \<Rightarrow> ('s reloader_maps \<times> 'w, 'a) act" where
  "on_world f st = (case f (snd st) of (r, w') \<Rightarrow> (r, (fst st, w')))"

definition on_maps :: "('s reloader_maps \<Rightarrow> 's reloader_maps) \<Rightarrow> ('s reloader_maps \<times> 'w, unit) act" where
  "on_maps g st = (Ok (), (g (fst st), snd st))"

section \<open>References\<close>

definition initializeReloaderMaps :: "'s reloader_maps" where
  "initializeReloaderMaps = \<lparr>reloaderMap = [], resourceMap = [], volumeMap = []\<rparr>"

definition getReloaderObjectReference :: "libsveltos \<Rightarrow> string \<Rightarrow> object_reference" where
  "getReloaderObjectReference L reloaderName =
     \<lparr>or_Kind = ReloaderKind L, or_Namespace = '''', or_Name = reloaderName,
      or_APIVersion = lib_GroupVersion L\<rparr>"

definition getObjectRef :: "libsveltos \<Rightarrow> reloader_info \<Rightarrow> object_reference" where
  "getObjectRef L reloaderInfo =
     \<lparr>or_Kind = ri_Kind reloaderInfo, or_Namespace = ri_Namespace reloaderInfo,
      or_Name = ri_Name reloaderInfo, or_APIVersion = apps_GroupVersion L\<rparr>"

section \<open>Cleaning the maps\<close>

definition cleanVolumeMap :: "'s set_ops \<Rightarrow> object_reference \<Rightarrow> 's reloader_maps \<Rightarrow> 's reloader_maps" where
  "cleanVolumeMap S resource M =
     M\<lparr>volumeMap := filter (\<lambda>(_, s). set_len S s \<noteq> 0) (erase_everywhere S resource (volumeMap M))\<rparr>"

definition cleanReloaderMap :: "libsveltos \<Rightarrow> string \<Rightarrow> 's reloader_maps \<Rightarrow> 's reloader_maps" where
  "cleanReloaderMap L reloaderName M =
     M\<lparr>reloaderMap := del (getReloaderObjectReference L reloaderName) (reloaderMap M)\<rparr>"

text \<open>Every set loses the Reloader; an entry whose set is empty then is deleted, and the workload is
  taken out of the volume map.\<close>

definition cleanResourceMap ::
  "'s set_ops \<Rightarrow> libsveltos \<Rightarrow> string \<Rightarrow> 's reloader_maps \<Rightarrow> 's reloader_maps" where
  "cleanResourceMap S L reloaderName M =
     (let erased = erase_everywhere S (getReloaderObjectReference L reloaderName) (resourceMap M);
          emptied = map fst (filter (\<lambda>(_, s). set_len S s = 0) erased)
      in fold (cleanVolumeMap S) emptied
           (M\<lparr>resourceMap := filter (\<lambda>(_, s). set_len S s \<noteq> 0) erased\<rparr>))"

section \<open>The volumes of a workload\<close>

definition volume_refs :: "libsveltos \<Rightarrow> string \<Rightarrow> volume \<Rightarrow> object_reference list" where
  "volume_refs L ns v =
     (case vol_ConfigMap v of
        Some n \<Rightarrow> [\<lparr>or_Kind = ''ConfigMap'', or_Namespace = ns, or_Name = n, or_APIVersion = core_GroupVersion L\<rparr>]
      | None \<Rightarrow>
          (case vol_Secret v of
             Some n \<Rightarrow> [\<lparr>or_Kind = ''Secret'', or_Namespace = ns, or_Name = n, or_APIVersion = core_GroupVersion L\<rparr>]
           | None \<Rightarrow> []))"

definition getVolumes :: "libsveltos \<Rightarrow> workload \<Rightarrow> object_reference list" where
  "getVolumes L resource = concat (map (volume_refs L (om_Namespace (metadata resource))) (Spec resource))"

definition getDeploymentVolumeMounts ::
  "('w, 'cfg) reloader_env \<Rightarrow> reloader_info \<Rightarrow> ('w, object_reference list) act" where
  "getDeploymentVolumeMounts E info =
     andThen (cl_Get (re_deployments E) (ri_Namespace info) (ri_Name info)) (\<lambda>depl. ret (getVolumes (re_lib E) depl))"

definition getStatufulSetVolumeMounts ::
  "('w, 'cfg) reloader_env \<Rightarrow> reloader_info \<Rightarrow> ('w, object_reference list) act" where
  "getStatufulSetVolumeMounts E info =
     andThen (cl_Get (re_statefulSets E) (ri_Namespace info) (ri_Name info))
       (\<lambda>statufulSet. ret (getVolumes (re_lib E) statufulSet))"

definition getDaemonSetVolumeMounts ::
  "('w, 'cfg) reloader_env \<Rightarrow> reloader_info \<Rightarrow> ('w, object_reference list) act" where
  "getDaemonSetVolumeMounts E info =
     andThen (cl_Get (re_daemonSets E) (ri_Namespace info) (ri_Name info))
       (\<lambda>daemonSet. ret (getVolumes (re_lib E) daemonSet))"

definition getResourceVolumeMounts ::
  "('w, 'cfg) reloader_env \<Rightarrow> reloader_info \<Rightarrow> ('w, object_reference list) act" where
  "getResourceVolumeMounts E info =
     (if ri_Kind info = ''Deployment'' then getDeploymentVolumeMounts E info
      else if ri_Kind info = ''StatefulSet'' then getStatufulSetVolumeMounts E info
      else if ri_Kind info = ''DaemonSet'' then getDaemonSetVolumeMounts E info
      else fail (Other ''unknown reloaderInfo''))"

definition updateVolumeMap ::
  "'s set_ops \<Rightarrow> ('w, 'cfg) reloader_env \<Rightarrow> reloader_info \<Rightarrow> ('s reloader_maps \<times> 'w, unit) act" where
  "updateVolumeMap S E info =
     andThen (on_world (getResourceVolumeMounts E info)) (\<lambda>volumes.
       on_maps (\<lambda>M. M\<lparr>volumeMap :=
         fold (\<lambda>v. insert_at S v (getObjectRef (re_lib E) info)) volumes (volumeMap M)\<rparr>))"

section \<open>Evaluating a Reloader\<close>

text \<open>The body of the loop over the resources to be removed.\<close>

definition drop_resource ::
  "'s set_ops \<Rightarrow> object_reference \<Rightarrow> object_reference \<Rightarrow> ('s reloader_maps \<times> 'w, unit) act" where
  "drop_resource S reloaderRef r st =
     (case map_of (resourceMap (fst st)) r of
        None \<Rightarrow> if set_nil_ok S then on_maps (cleanVolumeMap S r) st else (Panic, st)
      | Some s \<Rightarrow>
          let s' = set_erase S s reloaderRef in
          if set_len S s' = 0
          then on_maps (\<lambda>M. cleanVolumeMap S r (M\<lparr>resourceMap := del r (resourceMap M)\<rparr>)) st
          else on_maps (\<lambda>M. M\<lparr>resourceMap := put r s' (resourceMap M)\<rparr>) st)"

definition drop_old ::
  "'s set_ops \<Rightarrow> object_reference \<Rightarrow> 's \<Rightarrow> ('s reloader_maps \<times> 'w, unit) act" where
  "drop_old S reloaderRef currentResources st =
     (let toBeRemoved = (case map_of (reloaderMap (fst st)) reloaderRef of
                           Some v \<Rightarrow> set_difference S v currentResources | None \<Rightarrow> [])
      in foldA (\<lambda>_ r. drop_resource S reloaderRef r) () toBeRemoved st)"

text \<open>One iteration of the loop over the workloads the Reloader names; the removal of the workloads
  it named before is inside the loop.\<close>

definition reloader_step ::
  "'s set_ops \<Rightarrow> ('w, 'cfg) reloader_env \<Rightarrow> object_reference \<Rightarrow> 's \<Rightarrow> reloader_info \<Rightarrow>
   ('s reloader_maps \<times> 'w, 's) act" where
  "reloader_step S E reloaderRef currentResources info =
     (let resource = getObjectRef (re_lib E) info;
          current = set_insert S currentResources resource
      in andThen (on_maps (\<lambda>M. M\<lparr>resourceMap := insert_at S resource reloaderRef (resourceMap M)\<rparr>)) (\<lambda>_.
         andThen (updateVolumeMap S E info) (\<lambda>_.
         andThen (drop_old S reloaderRef current) (\<lambda>_. ret current))))"

definition evaluateReloaderInstance ::
  "'s set_ops \<Rightarrow> ('w, 'cfg) reloader_env \<Rightarrow> string \<Rightarrow> ('s reloader_maps \<times> 'w, unit) act" where
  "evaluateReloaderInstance S E reloaderName =
     (let clean = on_maps (\<lambda>M. cleanResourceMap S (re_lib E) reloaderName
                                 (cleanReloaderMap (re_lib E) reloaderName M));
          reloaderRef = getReloaderObjectReference (re_lib E) reloaderName
      in call (on_world (cl_Get (re_reloaders E) '''' reloaderName))
           (\<lambda>e. if e = NotFound then clean else fail e)
           (\<lambda>reloader.
              if om_DeletionTimestamp (metadata reloader) \<noteq> None then clean
              else andThen (foldA (reloader_step S E reloaderRef) (set_new S) (Spec reloader))
                (\<lambda>currentResources.
                   on_maps (\<lambda>M. M\<lparr>reloaderMap := put reloaderRef currentResources (reloaderMap M)\<rparr>))))"

section \<open>ReloaderReports\<close>

definition reloader_report_name :: "libsveltos \<Rightarrow> manager \<Rightarrow> object_reference \<Rightarrow> string" where
  "reloader_report_name L m mountedResource =
     GetReloaderReportName L (or_Kind mountedResource) (or_Namespace mountedResource)
       (or_Name mountedResource) (clusterName m) (clusterType m)"

definition new_reloader_report :: "libsveltos \<Rightarrow> manager \<Rightarrow> object_reference \<Rightarrow> reloader_report" where
  "new_reloader_report L m mountedResource =
     \<lparr>metadata = (empty_meta ReportNamespace (reloader_report_name L m mountedResource))
        \<lparr>om_Labels := Some (GetReloaderReportLabels L (clusterName m) (clusterType m)),
         om_Annotations := Some (GetReloaderReportAnnotations L (or_Kind mountedResource)
           (or_Namespace mountedResource) (or_Name mountedResource))\<rparr>,
      Spec = \<lparr>rrs_ClusterNamespace = '''', rrs_ClusterName = '''', rrs_ClusterType = '''',
        rrs_ResourcesToReload = []\<rparr>,
      status_Phase = None\<rparr>"

definition createReloaderReport ::
  "('w, 'cfg) reloader_env \<Rightarrow> manager \<Rightarrow> object_reference \<Rightarrow> ('w, reloader_report) act" where
  "createReloaderReport E m mountedResource =
     cl_Create (re_reports E) (new_reloader_report (re_lib E) m mountedResource)"

definition getReloaderReport ::
  "('w, 'cfg) reloader_env \<Rightarrow> manager \<Rightarrow> object_reference \<Rightarrow> ('w, reloader_report) act" where
  "getReloaderReport E m mountedResource =
     call (cl_Get (re_reports E) ReportNamespace (reloader_report_name (re_lib E) m mountedResource))
       (\<lambda>e. if e = NotFound then createReloaderReport E m mountedResource else fail e)
       ret"

definition updateReloaderReportStatus ::
  "('w, 'cfg) reloader_env \<Rightarrow> reloader_report \<Rightarrow> ('w, reloader_report) act" where
  "updateReloaderReportStatus E reloaderReport =
     cl_StatusUpdate (re_reports E) (reloaderReport\<lparr>status_Phase := Some ReportWaitingForDelivery\<rparr>)"

definition info_of :: "object_reference \<Rightarrow> reloader_info" where
  "info_of r = \<lparr>ri_Kind = or_Kind r, ri_Namespace = or_Namespace r, ri_Name = or_Name r\<rparr>"

definition updateReloaderReport ::
  "'s set_ops \<Rightarrow> ('w, 'cfg) reloader_env \<Rightarrow> manager \<Rightarrow> 's reloader_maps \<Rightarrow> object_reference \<Rightarrow>
   ('w, unit) act" where
  "updateReloaderReport S E m M mountedResource =
     (case map_of (volumeMap M) mountedResource of
        None \<Rightarrow> ret ()
      | Some v \<Rightarrow>
          andThen (getReloaderReport E m mountedResource) (\<lambda>reloaderReport.
          andThen (cl_Update (re_reports E)
              (reloaderReport\<lparr>Spec := (Spec reloaderReport)\<lparr>rrs_ResourcesToReload :=
                 rrs_ResourcesToReload (Spec reloaderReport) @ map info_of (set_items S v)\<rparr>\<rparr>)) (\<lambda>r.
          andThen (updateReloaderReportStatus E r) (\<lambda>_. ret ()))))"

definition new_mgmt_reloader_report :: "manager \<Rightarrow> reloader_report \<Rightarrow> reloader_report" where
  "new_mgmt_reloader_report m reloaderReport =
     \<lparr>metadata = (empty_meta (clusterNamespace m) (om_Name (metadata reloaderReport)))
        \<lparr>om_Labels := om_Labels (metadata reloaderReport),
         om_Annotations := om_Annotations (metadata reloaderReport)\<rparr>,
      Spec = (Spec reloaderReport)\<lparr>rrs_ClusterNamespace := clusterNamespace m,
        rrs_ClusterName := clusterName m, rrs_ClusterType := clusterType m\<rparr>,
      status_Phase = None\<rparr>"

definition overwrite_mgmt_reloader_report ::
  "manager \<Rightarrow> reloader_report \<Rightarrow> reloader_report \<Rightarrow> reloader_report" where
  "overwrite_mgmt_reloader_report m reloaderReport current =
     current\<lparr>metadata := (metadata current)
        \<lparr>om_Namespace := clusterNamespace m, om_Name := om_Name (metadata reloaderReport),
         om_Labels := om_Labels (metadata reloaderReport),
         om_Annotations := om_Annotations (metadata reloaderReport)\<rparr>,
      Spec := (Spec current)\<lparr>rrs_ClusterType := clusterType m,
        rrs_ResourcesToReload := rrs_ResourcesToReload (Spec reloaderReport)\<rparr>\<rparr>"

definition createOrUpdateReloaderReportInMgtmtCluster ::
  "('w, 'cfg) reloader_env \<Rightarrow> manager \<Rightarrow> reloader_report \<Rightarrow> ('w, reloader_report) act" where
  "createOrUpdateReloaderReportInMgtmtCluster E m reloaderReport =
     andThen (getManamegentClusterClient (re_lib E) (re_mgmt E)) (\<lambda>cfg.
       call (cl_Get (re_mgmtReports E cfg) (clusterNamespace m) (om_Name (metadata reloaderReport)))
         (\<lambda>e. if e = NotFound
              then cl_Create (re_mgmtReports E cfg) (new_mgmt_reloader_report m reloaderReport)
              else fail e)
         (\<lambda>current. cl_Update (re_mgmtReports E cfg)
              (overwrite_mgmt_reloader_report m reloaderReport current)))"

definition deleteReloaderReport ::
  "('w, 'cfg) reloader_env \<Rightarrow> reloader_report \<Rightarrow> ('w, unit) act" where
  "deleteReloaderReport E reloaderReport = cl_Delete (re_reports E) reloaderReport"

definition sendReloaderReportToMgtmCluster ::
  "('w, 'cfg) reloader_env \<Rightarrow> manager \<Rightarrow> object_reference \<Rightarrow> ('w, unit) act" where
  "sendReloaderReportToMgtmCluster E m mountedResource =
     andThen (cl_Get (re_reports E) ReportNamespace (reloader_report_name (re_lib E) m mountedResource))
       (\<lambda>reloaderReport.
     andThen (createOrUpdateReloaderReportInMgtmtCluster E m reloaderReport) (\<lambda>_.
       deleteReloaderReport E reloaderReport))"

section \<open>Evaluating a changed ConfigMap or Secret\<close>

definition evaluateMountedResource ::
  "'s set_ops \<Rightarrow> ('w, 'cfg) reloader_env \<Rightarrow> manager \<Rightarrow> string \<Rightarrow> string \<Rightarrow> ('s reloader_maps \<times> 'w, unit) act" where
  "evaluateMountedResource S E m kind resourceInfo st =
     (case split_on CHR ''/'' resourceInfo of
        [ns, n] \<Rightarrow>
          let mountedResource = \<lparr>or_Kind = kind, or_Namespace = ns, or_Name = n,
                or_APIVersion = core_GroupVersion (re_lib E)\<rparr>
          in on_world
               (andThen (updateReloaderReport S E m (fst st) mountedResource) (\<lambda>_.
                  if sendReport m then sendReloaderReportToMgtmCluster E m mountedResource else ret ())) st
      | _ \<Rightarrow> fail (Other (''incorrect name format '' @ resourceInfo)) st)"

text \<open>One job of the queue: a key that is not two parts around a colon is dropped.\<close>

definition reloader_job ::
  "'s set_ops \<Rightarrow> ('w, 'cfg) reloader_env \<Rightarrow> manager \<Rightarrow> string \<Rightarrow> ('s reloader_maps \<times> 'w, unit) act" where
  "reloader_job S E m job =
     (case split_on CHR '':'' job of
        [kind, rest] \<Rightarrow>
          if CHR ''/'' \<in> set rest then evaluateMountedResource S E m kind rest
          else evaluateReloaderInstance S E rest
      | _ \<Rightarrow> ret ())"

definition enqueue_raw :: "string \<Rightarrow> manager \<Rightarrow> manager" where
  "enqueue_raw k m = m\<lparr>reloaderJobQueue := put k True (reloaderJobQueue m)\<rparr>"

text \<open>One iteration of the loop evaluateReloaders; \<open>others\<close> are the keys queued meanwhile. A failed
  job is put back with EvaluateReloader, which puts the kind in front of it again.\<close>

definition evaluateReloaders ::
  "'s set_ops \<Rightarrow> ('w, 'cfg) reloader_env \<Rightarrow> string list \<Rightarrow> manager \<Rightarrow> ('s reloader_maps \<times> 'w, manager) act" where
  "evaluateReloaders S E others m =
     (case drain_reloaders m of
        (jobQueueCopy, m1) \<Rightarrow>
          andThen (evaluate_jobs (reloader_job S E m) jobQueueCopy) (\<lambda>failedEvaluations.
            ret (fold (EvaluateReloader (re_lib E)) failedEvaluations (fold enqueue_raw others m1))))"

section \<open>Lemmas\<close>

lemma on_world_run: "on_world f (M, w) = (case f w of (r, w') \<Rightarrow> (r, (M, w')))"
  by (simp add: on_world_def)

lemma on_maps_run [simp]: "on_maps g (M, w) = (Ok (), (g M, w))"
  by (simp add: on_maps_def)

text \<open>The invariant of the maps: they are maps, and a workload in the volume map is named by some
  Reloader.\<close>

definition tracked :: "('s \<Rightarrow> object_reference set) \<Rightarrow> 's reloader_maps \<Rightarrow> bool" where
  "tracked elems M \<longleftrightarrow>
     gomap_ok (reloaderMap M) \<and> gomap_ok (resourceMap M) \<and> gomap_ok (volumeMap M) \<and>
     (\<forall>v r. r \<in> members elems (volumeMap M) v \<longrightarrow> members elems (resourceMap M) r \<noteq> {})"

context object_set
begin

lemma members_nonempty_filter [simp]:
  assumes "gomap_ok m"
  shows "members elems (filter (\<lambda>(_, s). elems s \<noteq> {}) m) = members elems m"
proof
  fix k
  show "members elems (filter (\<lambda>(_, s). elems s \<noteq> {}) m) k = members elems m k"
    using map_of_filter_map [OF assms, of "\<lambda>_ s. elems s \<noteq> {}" k]
    by (simp add: members_def split: option.splits)
qed

lemma insert_all:
  "members elems (fold (\<lambda>v. insert_at S v r) vs m) v =
     (if v \<in> set vs then insert r (members elems m v) else members elems m v)"
  by (induction vs arbitrary: m) auto

lemma gomap_ok_insert_all: "gomap_ok m \<Longrightarrow> gomap_ok (fold (\<lambda>v. insert_at S v r) vs m)"
  by (induction vs arbitrary: m) auto

lemma cleanVolumeMap_spec:
  assumes "gomap_ok (volumeMap M)"
  shows "members elems (volumeMap (cleanVolumeMap S r M)) v = members elems (volumeMap M) v - {r}"
    "gomap_ok (volumeMap (cleanVolumeMap S r M))"
    "resourceMap (cleanVolumeMap S r M) = resourceMap M"
    "reloaderMap (cleanVolumeMap S r M) = reloaderMap M"
  using assms by (simp_all add: cleanVolumeMap_def)

lemma cleanVolumeMap_all:
  "gomap_ok (volumeMap M) \<Longrightarrow>
   members elems (volumeMap (fold (cleanVolumeMap S) rs M)) v = members elems (volumeMap M) v - set rs \<and>
   gomap_ok (volumeMap (fold (cleanVolumeMap S) rs M)) \<and>
   resourceMap (fold (cleanVolumeMap S) rs M) = resourceMap M \<and>
   reloaderMap (fold (cleanVolumeMap S) rs M) = reloaderMap M"
proof (induction rs arbitrary: M)
  case Nil
  then show ?case by simp
next
  case (Cons r rs)
  with cleanVolumeMap_spec [OF Cons.prems, of r] Cons.IH [of "cleanVolumeMap S r M"] show ?case
    by auto
qed

lemma emptied_keys:
  assumes "gomap_ok m"
  shows "set (map fst (filter (\<lambda>(_, s). elems s = {}) (erase_everywhere S r m))) =
     {k \<in> keys m. members elems m k \<subseteq> {r}}"
proof -
  have "k \<in> fst ` set (filter (\<lambda>(_, s). elems s = {}) (erase_everywhere S r m)) \<longleftrightarrow>
      k \<in> keys m \<and> members elems m k \<subseteq> {r}" for k
  proof -
    have "k \<in> fst ` set (filter (\<lambda>(_, s). elems s = {}) (erase_everywhere S r m)) \<longleftrightarrow>
        (\<exists>s. (k, s) \<in> set m \<and> elems s - {r} = {})"
      by (force simp: erase_everywhere_def)
    also have "\<dots> \<longleftrightarrow> (\<exists>s. map_of m k = Some s \<and> elems s - {r} = {})"
      using assms by simp
    also have "\<dots> \<longleftrightarrow> k \<in> keys m \<and> members elems m k \<subseteq> {r}"
      by (auto simp: keys_dom members_def dom_def)
    finally show ?thesis .
  qed
  then show ?thesis by auto
qed

lemma cleanResourceMap_spec:
  assumes ok: "gomap_ok (resourceMap M)" "gomap_ok (volumeMap M)"
    and ref_def: "ref = getReloaderObjectReference L n"
    and M'_def: "M' = cleanResourceMap S L n M"
  shows "members elems (resourceMap M') r = members elems (resourceMap M) r - {ref}"
    "members elems (volumeMap M') v =
       members elems (volumeMap M) v - {r \<in> keys (resourceMap M). members elems (resourceMap M) r \<subseteq> {ref}}"
    "reloaderMap M' = reloaderMap M" "gomap_ok (resourceMap M')" "gomap_ok (volumeMap M')"
proof -
  let ?er = "erase_everywhere S ref (resourceMap M)"
  let ?empt = "map fst (filter (\<lambda>(_, s). elems s = {}) ?er)"
  let ?M1 = "M\<lparr>resourceMap := filter (\<lambda>(_, s). elems s \<noteq> {}) ?er\<rparr>"
  have M': "M' = fold (cleanVolumeMap S) ?empt ?M1"
    by (simp add: M'_def cleanResourceMap_def ref_def Let_def)
  have er: "gomap_ok ?er" using ok by simp
  have ok1: "gomap_ok (volumeMap ?M1)" using ok by simp
  note all = cleanVolumeMap_all [OF ok1, of ?empt]
  show "members elems (resourceMap M') r = members elems (resourceMap M) r - {ref}"
    unfolding M' using all er by simp
  show "members elems (volumeMap M') v =
       members elems (volumeMap M) v - {r \<in> keys (resourceMap M). members elems (resourceMap M) r \<subseteq> {ref}}"
    unfolding M' using all [of v] emptied_keys [OF ok(1), of ref] by simp
  show "reloaderMap M' = reloaderMap M" "gomap_ok (resourceMap M')" "gomap_ok (volumeMap M')"
    unfolding M' using all er by simp_all
qed

text \<open>Dropping one workload of a Reloader, in one statement for the three branches of the code.\<close>

lemma drop_resource_run:
  assumes "drop_resource S ref r (M, w) = (res, (M', w'))"
    and "gomap_ok (resourceMap M)" "gomap_ok (volumeMap M)"
  shows "w' = w \<and> reloaderMap M' = reloaderMap M \<and> gomap_ok (resourceMap M') \<and> gomap_ok (volumeMap M') \<and>
    (case res of
       Ok _ \<Rightarrow>
         members elems (resourceMap M') =
           (members elems (resourceMap M))(r := members elems (resourceMap M) r - {ref}) \<and>
         members elems (volumeMap M') = (\<lambda>v. members elems (volumeMap M) v -
           (if members elems (resourceMap M) r \<subseteq> {ref} then {r} else {}))
     | Err _ \<Rightarrow> False
     | Panic \<Rightarrow> M' = M \<and> r \<notin> keys (resourceMap M) \<and> \<not> set_nil_ok S)"
proof (cases "map_of (resourceMap M) r")
  case None
  then have "r \<notin> keys (resourceMap M)" "members elems (resourceMap M) r = {}"
    by (auto simp: keys_dom dom_def members_def)
  with None assms show ?thesis
    by (auto simp: drop_resource_def cleanVolumeMap_spec fun_eq_iff split: if_splits)
next
  case (Some s)
  then have s: "members elems (resourceMap M) r = elems s"
    by (simp add: members_def)
  have vol: "gomap_ok (volumeMap (M\<lparr>resourceMap := del r (resourceMap M)\<rparr>))"
    using assms(3) by simp
  show ?thesis
    using Some assms s cleanVolumeMap_spec [OF vol, of r]
    by (auto simp: drop_resource_def Let_def fun_eq_iff split: if_splits)
qed

end

context object_set
begin

lemma drop_resource_tracked:
  assumes "drop_resource S ref r (M, w) = (res, (M', w'))" and "tracked elems M"
  shows "tracked elems M'"
  using drop_resource_run [OF assms(1)] assms(2)
  by (cases res) (auto simp: tracked_def split: if_splits)

text \<open>Dropping a list of workloads.\<close>

lemma drop_all_run:
  assumes "foldA (\<lambda>_ r. drop_resource S ref r) () rs (M, w) = (res, (M', w'))"
    and "tracked elems M"
  shows "w' = w \<and> reloaderMap M' = reloaderMap M \<and> tracked elems M' \<and>
    (case res of
       Ok _ \<Rightarrow>
         (\<forall>r. members elems (resourceMap M') r =
            (if r \<in> set rs then members elems (resourceMap M) r - {ref} else members elems (resourceMap M) r)) \<and>
         (\<forall>v. members elems (volumeMap M) v - set rs \<subseteq> members elems (volumeMap M') v \<and>
              members elems (volumeMap M') v \<subseteq> members elems (volumeMap M) v)
     | Err _ \<Rightarrow> False
     | Panic \<Rightarrow> True)"
  using assms
proof (induction rs arbitrary: M w)
  case Nil
  then show ?case by (auto simp: ret_def)
next
  case (Cons r rs)
  obtain res1 M1 w1 where step: "drop_resource S ref r (M, w) = (res1, (M1, w1))"
    by (metis prod.collapse)
  have ok: "gomap_ok (resourceMap M)" "gomap_ok (volumeMap M)"
    using Cons.prems(2) by (simp_all add: tracked_def)
  note one = drop_resource_run [OF step ok] drop_resource_tracked [OF step Cons.prems(2)]
  show ?case
  proof (cases res1)
    case (Ok u)
    with Cons.prems(1) step
    have "foldA (\<lambda>_ r. drop_resource S ref r) () rs (M1, w1) = (res, (M', w'))"
      by (simp add: call_Ok)
    from Cons.IH [OF this one(2)] one(1) Ok show ?thesis
      by (cases res) (auto split: if_splits)
  next
    case (Err e)
    with one show ?thesis by simp
  next
    case Panic
    with Cons.prems(1) step one show ?thesis by (auto simp: call_Panic)
  qed
qed

lemma drop_old_run:
  assumes "drop_old S ref cur (M, w) = (res, (M', w'))" and "tracked elems M"
  shows "w' = w \<and> reloaderMap M' = reloaderMap M \<and> tracked elems M' \<and>
    (case res of
       Ok _ \<Rightarrow>
         (\<forall>r. members elems (resourceMap M') r =
            (if r \<in> members elems (reloaderMap M) ref - elems cur
             then members elems (resourceMap M) r - {ref} else members elems (resourceMap M) r)) \<and>
         (\<forall>v. members elems (volumeMap M) v - (members elems (reloaderMap M) ref - elems cur)
                \<subseteq> members elems (volumeMap M') v \<and>
              members elems (volumeMap M') v \<subseteq> members elems (volumeMap M) v)
     | Err _ \<Rightarrow> False
     | Panic \<Rightarrow> True)"
proof -
  let ?rs = "case map_of (reloaderMap M) ref of Some v \<Rightarrow> set_difference S v cur | None \<Rightarrow> []"
  have rs: "set ?rs = members elems (reloaderMap M) ref - elems cur"
    by (auto simp: members_def split: option.splits)
  have "foldA (\<lambda>_ r. drop_resource S ref r) () ?rs (M, w) = (res, (M', w'))"
    using assms(1) by (simp add: drop_old_def Let_def)
  from drop_all_run [OF this assms(2)] show ?thesis
    by (simp only: rs)
qed

lemma updateVolumeMap_run:
  assumes run: "updateVolumeMap S E info (M, w) = (res, (M', w'))" and "tracked elems M"
    and "members elems (resourceMap M) (getObjectRef (re_lib E) info) \<noteq> {}"
  shows "reloaderMap M' = reloaderMap M \<and> resourceMap M' = resourceMap M \<and> tracked elems M' \<and>
    (\<forall>v. members elems (volumeMap M) v \<subseteq> members elems (volumeMap M') v) \<and>
    (case res of
       Ok _ \<Rightarrow> \<exists>vs. getResourceVolumeMounts E info w = (Ok vs, w') \<and>
         (\<forall>v \<in> set vs. getObjectRef (re_lib E) info \<in> members elems (volumeMap M') v)
     | _ \<Rightarrow> M' = M)"
proof -
  obtain r w1 where get: "getResourceVolumeMounts E info w = (r, w1)"
    by fastforce
  show ?thesis
  proof (cases r)
    case (Ok vs)
    with run get have "res = Ok ()" and w': "w' = w1" and M': "M' = M\<lparr>volumeMap :=
        fold (\<lambda>v. insert_at S v (getObjectRef (re_lib E) info)) vs (volumeMap M)\<rparr>"
      by (auto simp: updateVolumeMap_def call_def on_world_run)
    with get Ok assms(2,3) show ?thesis
      by (auto simp: tracked_def insert_all gomap_ok_insert_all split: if_splits)
  next
    case (Err e)
    with run get assms(2) show ?thesis
      by (auto simp: updateVolumeMap_def call_def on_world_run fail_def)
  next
    case Panic
    with run get assms(2) show ?thesis
      by (auto simp: updateVolumeMap_def call_def on_world_run)
  qed
qed

lemma reloader_step_run:
  assumes run: "reloader_step S E ref cur info (M, w) = (res, (M', w'))" and inv: "tracked elems M"
  shows "reloaderMap M' = reloaderMap M \<and> tracked elems M' \<and>
    (case res of
       Ok cur' \<Rightarrow>
         elems cur' = insert (getObjectRef (re_lib E) info) (elems cur) \<and>
         (\<forall>r. members elems (resourceMap M') r =
            (if r = getObjectRef (re_lib E) info then insert ref (members elems (resourceMap M) r)
             else if r \<in> members elems (reloaderMap M) ref - elems cur
             then members elems (resourceMap M) r - {ref} else members elems (resourceMap M) r)) \<and>
         (\<forall>v. members elems (volumeMap M) v - (members elems (reloaderMap M) ref - elems cur')
                \<subseteq> members elems (volumeMap M') v) \<and>
         (\<exists>vs. getResourceVolumeMounts E info w = (Ok vs, w') \<and>
           (\<forall>v \<in> set vs. getObjectRef (re_lib E) info \<in> members elems (volumeMap M') v))
     | _ \<Rightarrow> True)"
proof -
  let ?r = "getObjectRef (re_lib E) info"
  let ?cur = "set_insert S cur ?r"
  let ?M1 = "M\<lparr>resourceMap := insert_at S ?r ref (resourceMap M)\<rparr>"
  have inv1: "tracked elems ?M1"
    using inv by (auto simp: tracked_def)
  have step: "reloader_step S E ref cur info (M, w) =
      andThen (updateVolumeMap S E info) (\<lambda>_. andThen (drop_old S ref ?cur) (\<lambda>_. ret ?cur)) (?M1, w)"
    by (simp add: reloader_step_def Let_def call_def [of "on_maps _"])
  obtain res2 M2 w2 where upd: "updateVolumeMap S E info (?M1, w) = (res2, (M2, w2))"
    by (metis prod.collapse)
  note vol = updateVolumeMap_run [OF upd inv1]
  show ?thesis
  proof (cases res2)
    case (Ok u)
    obtain res3 M3 w3 where drop: "drop_old S ref ?cur (M2, w2) = (res3, (M3, w3))"
      by (metis prod.collapse)
    have inv2: "tracked elems M2" using vol by simp
    note old = drop_old_run [OF drop inv2]
    have fin: "res = (case res3 of Ok _ \<Rightarrow> Ok ?cur | Err e \<Rightarrow> Err e | Panic \<Rightarrow> Panic) \<and> M' = M3 \<and> w' = w3"
      using run step upd Ok drop by (auto simp: call_def fail_def ret_def split: outcome.splits)
    show ?thesis
      using fin old vol Ok by (cases res3) fastforce+
  qed (use run step upd vol in \<open>auto simp: call_def fail_def\<close>)
qed

end

context object_set
begin

text \<open>The whole loop: what it leaves in the resource map depends on the workloads listed now
  (\<open>refs\<close>) and on those listed before and not yet met.\<close>

lemma reloader_steps_run:
  assumes "foldA (reloader_step S E ref) cur infos (M, w) = (res, (M', w'))" and "tracked elems M"
  shows "reloaderMap M' = reloaderMap M \<and> tracked elems M' \<and>
    (case res of
       Ok cur' \<Rightarrow>
         elems cur' = elems cur \<union> getObjectRef (re_lib E) ` set infos \<and>
         (\<forall>r. members elems (resourceMap M') r =
            (if r \<in> getObjectRef (re_lib E) ` set infos then insert ref (members elems (resourceMap M) r)
             else if infos \<noteq> [] \<and> r \<in> members elems (reloaderMap M) ref - elems cur
             then members elems (resourceMap M) r - {ref} else members elems (resourceMap M) r)) \<and>
         (\<forall>v. members elems (volumeMap M) v \<inter> elems cur \<subseteq> members elems (volumeMap M') v) \<and>
         (\<forall>info \<in> set infos. \<exists>w1 vs w2. getResourceVolumeMounts E info w1 = (Ok vs, w2) \<and>
           (\<forall>v \<in> set vs. getObjectRef (re_lib E) info \<in> members elems (volumeMap M') v))
     | _ \<Rightarrow> True)"
  using assms
proof (induction infos arbitrary: cur M w)
  case Nil
  then show ?case by (auto simp: ret_def)
next
  case (Cons info infos)
  obtain res1 M1 w1 where step: "reloader_step S E ref cur info (M, w) = (res1, (M1, w1))"
    by (metis prod.collapse)
  note one = reloader_step_run [OF step Cons.prems(2)]
  show ?case
  proof (cases res1)
    case (Ok cur1)
    with Cons.prems(1) step
    have rest: "foldA (reloader_step S E ref) cur1 infos (M1, w1) = (res, (M', w'))"
      by (simp add: call_Ok)
    have "tracked elems M1" using one by simp
    note all = Cons.IH [OF rest this]
    show ?thesis
    proof (cases res)
      case ok: (Ok cur')
      have cur1: "elems cur1 = insert (getObjectRef (re_lib E) info) (elems cur)"
        using one Ok by simp
      have vol1: "members elems (volumeMap M) v - (members elems (reloaderMap M) ref - elems cur1)
          \<subseteq> members elems (volumeMap M1) v" for v
        using one unfolding Ok outcome.case by blast
      obtain vs where mounts1: "getResourceVolumeMounts E info w = (Ok vs, w1)"
        "\<forall>v \<in> set vs. getObjectRef (re_lib E) info \<in> members elems (volumeMap M1) v"
        using one Ok by auto
      have vol: "members elems (volumeMap M1) v \<inter> elems cur1 \<subseteq> members elems (volumeMap M') v" for v
        using all ok by simp
      have "members elems (volumeMap M) v \<inter> elems cur \<subseteq> members elems (volumeMap M') v" for v
        using vol1 [of v] vol [of v] cur1 by blast
      moreover have "\<forall>v \<in> set vs. getObjectRef (re_lib E) info \<in> members elems (volumeMap M') v"
        using mounts1(2) vol cur1 by blast
      moreover have "\<forall>i \<in> set infos. \<exists>w1 vs w2. getResourceVolumeMounts E i w1 = (Ok vs, w2) \<and>
           (\<forall>v \<in> set vs. getObjectRef (re_lib E) i \<in> members elems (volumeMap M') v)"
        using all ok by simp
      moreover have "\<forall>r. members elems (resourceMap M') r =
            (if r \<in> getObjectRef (re_lib E) ` set (info # infos) then insert ref (members elems (resourceMap M) r)
             else if info # infos \<noteq> [] \<and> r \<in> members elems (reloaderMap M) ref - elems cur
             then members elems (resourceMap M) r - {ref} else members elems (resourceMap M) r)"
        using one all Ok ok cur1 by auto
      ultimately show ?thesis
        using one all ok cur1 mounts1(1) by auto
    qed (use one all Ok in auto)
  qed (use Cons.prems(1) step one in \<open>auto simp: call_def fail_def\<close>)
qed

lemma evaluateReloaderInstance_tracked:
  assumes run: "evaluateReloaderInstance S E n (M, w) = (res, (M', w'))" and inv: "tracked elems M"
  shows "tracked elems M'"
proof -
  let ?ref = "getReloaderObjectReference (re_lib E) n"
  let ?M1 = "cleanReloaderMap (re_lib E) n M"
  have clean: "tracked elems (cleanResourceMap S (re_lib E) n ?M1)"
  proof -
    have ok: "gomap_ok (resourceMap ?M1)" "gomap_ok (volumeMap ?M1)" "gomap_ok (reloaderMap ?M1)"
      and vol: "\<forall>v r. r \<in> members elems (volumeMap ?M1) v \<longrightarrow> members elems (resourceMap ?M1) r \<noteq> {}"
      using inv by (simp_all add: tracked_def cleanReloaderMap_def)
    have known: "r \<in> keys (resourceMap ?M1)" if "members elems (resourceMap ?M1) r \<noteq> {}" for r
      using that by (auto simp: members_def keys_dom split: option.splits)
    note spec = cleanResourceMap_spec [OF ok(1,2) refl refl]
    show ?thesis
      unfolding tracked_def using spec ok vol known by auto
  qed
  obtain r0 w0 where get: "cl_Get (re_reloaders E) '''' n w = (r0, w0)"
    by fastforce
  show ?thesis
  proof (cases "\<exists>rl. r0 = Ok rl \<and> om_DeletionTimestamp (metadata rl) = None")
    case False
    with run get inv clean show ?thesis
      by (cases r0) (auto simp: evaluateReloaderInstance_def Let_def call_def on_world_run fail_def
          split: if_splits)
  next
    case True
    then obtain rl where rl: "r0 = Ok rl" "om_DeletionTimestamp (metadata rl) = None" by blast
    obtain res1 M1 w1 where loop: "foldA (reloader_step S E ?ref) (set_new S) (Spec rl) (M, w0) = (res1, (M1, w1))"
      by (metis prod.collapse)
    have M1: "tracked elems M1"
      using reloader_steps_run [OF loop inv] by simp
    have "tracked elems (M1\<lparr>reloaderMap := put ?ref cur (reloaderMap M1)\<rparr>)" for cur
      using M1 by (simp add: tracked_def)
    with run get rl loop M1 show ?thesis
      by (cases res1) (auto simp: evaluateReloaderInstance_def Let_def call_def on_world_run fail_def)
  qed
qed

end

section \<open>Properties\<close>



text \<open>C30. A Reloader that is gone, or is being deleted, is forgotten: it has no set of its own, no workload
  lists it, and the volume map keeps exactly the workloads that another Reloader still names.\<close>

theorem evaluateReloaderInstance_forgets:
  assumes "object_set S elems" and "tracked elems M"
    and "cl_Get (re_reloaders E) '''' n w = (r, w0)"
    and "r = Err NotFound \<or> (\<exists>rl. r = Ok rl \<and> om_DeletionTimestamp (metadata rl) \<noteq> None)"
    and "ref = getReloaderObjectReference (re_lib E) n"
  shows "\<exists>M'. evaluateReloaderInstance S E n (M, w) = (Ok (), (M', w0)) \<and>
    map_of (reloaderMap M') = (map_of (reloaderMap M))(ref := None) \<and>
    (\<forall>x. members elems (resourceMap M') x = members elems (resourceMap M) x - {ref}) \<and>
    (\<forall>v. members elems (volumeMap M') v =
       {x \<in> members elems (volumeMap M) v. members elems (resourceMap M) x - {ref} \<noteq> {}})"
proof -
  let ?M1 = "cleanReloaderMap (re_lib E) n M"
  let ?M' = "cleanResourceMap S (re_lib E) n ?M1"
  have run: "evaluateReloaderInstance S E n (M, w) = (Ok (), (?M', w0))"
    using assms(3,4) by (auto simp: evaluateReloaderInstance_def Let_def call_def on_world_run)
  have ok: "gomap_ok (resourceMap ?M1)" "gomap_ok (volumeMap ?M1)"
    and vol: "\<forall>v x. x \<in> members elems (volumeMap M) v \<longrightarrow> members elems (resourceMap M) x \<noteq> {}"
    using assms(2) by (simp_all add: tracked_def cleanReloaderMap_def)
  have known: "x \<in> keys (resourceMap M)" if "members elems (resourceMap M) x \<noteq> {}" for x
    using that by (auto simp: members_def keys_dom split: option.splits)
  note spec = object_set.cleanResourceMap_spec [OF assms(1) ok assms(5) refl]
  have "members elems (volumeMap ?M') v =
      {x \<in> members elems (volumeMap M) v. members elems (resourceMap M) x - {ref} \<noteq> {}}" for v
    using spec(2) [of v] vol known by (auto simp: cleanReloaderMap_def)
  moreover have "members elems (resourceMap ?M') x = members elems (resourceMap M) x - {ref}" for x
    using spec(1) [of x] by (simp add: cleanReloaderMap_def)
  moreover have "map_of (reloaderMap ?M') = (map_of (reloaderMap M))(ref := None)"
    using spec(3) assms(5) by (simp add: cleanReloaderMap_def)
  ultimately show ?thesis
    using run by blast
qed

text \<open>A Reloader whose list of workloads has become empty is not cleaned up: the loop that drops the
  workloads named before runs once per workload named now, so with none the resource and volume
  maps keep the old entries, and the record of what to drop is overwritten.\<close>

theorem evaluateReloaderInstance_empty_list:
  assumes "cl_Get (re_reloaders E) '''' n w = (Ok rl, w0)"
    and "om_DeletionTimestamp (metadata rl) = None" and "Spec rl = []"
  shows "\<exists>M'. evaluateReloaderInstance S E n (M, w) = (Ok (), (M', w0)) \<and>
    resourceMap M' = resourceMap M \<and> volumeMap M' = volumeMap M \<and>
    map_of (reloaderMap M') (getReloaderObjectReference (re_lib E) n) = Some (set_new S)"
  using assms
  by (simp add: evaluateReloaderInstance_def Let_def call_def on_world_run ret_def)

text \<open>C37. A queued ConfigMap or Secret comes back as queued: the job that EvaluateConfigMap and
  EvaluateSecret put on the queue is parsed to the kind, namespace and name they were called with.\<close>

theorem mounted_key_roundtrip:
  assumes "CHR '':'' \<notin> set (kind @ ns @ n)" and "CHR ''/'' \<notin> set (ns @ n)"
  shows "reloader_job S E m (mounted_key kind ns n) st =
    on_world
      (andThen (updateReloaderReport S E m (fst st)
          \<lparr>or_Kind = kind, or_Namespace = ns, or_Name = n, or_APIVersion = core_GroupVersion (re_lib E)\<rparr>) (\<lambda>_.
        if sendReport m then sendReloaderReportToMgtmCluster E m
          \<lparr>or_Kind = kind, or_Namespace = ns, or_Name = n, or_APIVersion = core_GroupVersion (re_lib E)\<rparr>
        else ret ())) st"
proof -
  have "split_on CHR '':'' (mounted_key kind ns n) = [kind, ns @ ''/'' @ n]"
    using assms(1) by (simp add: mounted_key_def split_on_append split_on_none)
  moreover have "split_on CHR ''/'' (ns @ ''/'' @ n) = [ns, n]"
    using assms(2) by (simp add: split_on_append split_on_none)
  ultimately show ?thesis
    by (simp add: reloader_job_def evaluateMountedResource_def Let_def)
qed

lemma requeued_job_dropped:
  assumes "split_on CHR '':'' job = [a, b]"
  shows "reloader_job S E m (reloader_key L job) = ret ()"
proof -
  have "length (split_on CHR '':'' (reloader_key L job)) =
      count_list (ReloaderKind L) CHR '':'' + count_list job CHR '':'' + 2"
    by (simp add: length_split_on reloader_key_def)
  moreover have "count_list job CHR '':'' = 1"
    using assms length_split_on [of "CHR '':''" job] by simp
  ultimately have "length (split_on CHR '':'' (reloader_key L job)) \<ge> 3"
    by simp
  then show ?thesis
    by (auto simp: reloader_job_def split: list.splits)
qed

lemma failing_job_parts:
  "reloader_job S E m job st = (Err e, st') \<Longrightarrow> \<exists>a b. split_on CHR '':'' job = [a, b]"
  by (auto simp: reloader_job_def ret_def split: list.splits)

lemma keys_requeue:
  "keys (reloaderJobQueue (fold (EvaluateReloader L) js m)) =
     reloader_key L ` set js \<union> keys (reloaderJobQueue m)"
  by (induction js arbitrary: m) (auto simp: EvaluateReloader_def)

lemma keys_enqueue_raw: "keys (reloaderJobQueue (fold enqueue_raw ks m)) = set ks \<union> keys (reloaderJobQueue m)"
  by (induction ks arbitrary: m) (auto simp: enqueue_raw_def)

text \<open>C39. Failed Reloader jobs are lost: a round of evaluateReloaders puts a failed job back with
  EvaluateReloader, which prefixes the key with the kind although the key already has one; a later
  round drops such a key, which has three parts, without evaluating anything.\<close>

theorem failed_reloader_jobs_lost:
  assumes "evaluateReloaders S E others m st = (Ok m', st')"
    and "failed = {j. \<exists>e. (j, Err e) \<in> set (job_outcomes (reloader_job S E m) (map fst (reloaderJobQueue m)) st)}"
  shows "keys (reloaderJobQueue m') = set others \<union> reloader_key (re_lib E) ` failed \<and>
    (\<forall>j \<in> failed. \<forall>m''. reloader_job S E m'' (reloader_key (re_lib E) j) = ret ())"
proof -
  let ?jobs = "map fst (reloaderJobQueue m)"
  from assms(1) obtain fs where jobs: "evaluate_jobs (reloader_job S E m) ?jobs st = (Ok fs, st')"
    and m': "m' = fold (EvaluateReloader (re_lib E)) fs (fold enqueue_raw others (m\<lparr>reloaderJobQueue := []\<rparr>))"
    by (auto simp: evaluateReloaders_def drain_reloaders_def ret_def elim!: andThen_OkE)
  have fs: "set fs = failed"
    using evaluate_jobs_outcomes [OF jobs] assms(2) by simp
  have "reloader_job S E m'' (reloader_key (re_lib E) j) = ret ()" if "j \<in> failed" for j m''
  proof -
    from that assms(2) obtain e st1 st2 where "reloader_job S E m j st1 = (Err e, st2)"
      by (auto dest: job_outcomes_run)
    from failing_job_parts [OF this] show ?thesis
      by (auto intro: requeued_job_dropped)
  qed
  then show ?thesis
    unfolding m' by (auto simp: keys_requeue keys_enqueue_raw fs)
qed

text \<open>With reports sent, a change of a ConfigMap or Secret that no tracked workload mounts is an
  error: no report is written, and the delivery that follows fails to find one.\<close>

theorem unmounted_change_fails:
  assumes "api_client (re_reports E) reports rest"
    and "split_on CHR ''/'' info = [ns, n]" and "sendReport m"
    and "map_of (volumeMap M) \<lparr>or_Kind = kind, or_Namespace = ns, or_Name = n,
           or_APIVersion = core_GroupVersion (re_lib E)\<rparr> = None"
    and "reports w (ReportNamespace, GetReloaderReportName (re_lib E) kind ns n (clusterName m) (clusterType m)) = None"
  shows "\<exists>e w'. evaluateMountedResource S E m kind info (M, w) = (Err e, (M, w'))"
proof -
  let ?name = "GetReloaderReportName (re_lib E) kind ns n (clusterName m) (clusterType m)"
  obtain r w' where get: "cl_Get (re_reports E) ReportNamespace ?name w = (r, w')"
    by fastforce
  from wpD [OF api_client.get_law [OF assms(1)] get] assms(5) obtain e where "r = Err e"
    by (cases r) auto
  with get assms(2-4) show ?thesis
    by (simp add: evaluateMountedResource_def Let_def on_world_run updateReloaderReport_def
        sendReloaderReportToMgtmCluster_def reloader_report_name_def call_Err fail_def)
qed

text \<open>Reading or creating the report of a mounted resource.\<close>

lemma getReloaderReport_Ok:
  assumes api: "api_client (re_reports E) reports rest"
    and run: "getReloaderReport E m ref w = (Ok x, w')"
    and key: "k = (ReportNamespace, reloader_report_name (re_lib E) m ref)"
  shows "reports w' k = Some x \<and> rest w' = rest w \<and> (\<forall>k'. k' \<noteq> k \<longrightarrow> reports w' k' = reports w k') \<and>
    (case reports w k of
       None \<Rightarrow> rrs_ResourcesToReload (Spec x) = [] \<and> om_DeletionTimestamp (metadata x) = None
     | Some y \<Rightarrow> x = y)"
proof -
  obtain r0 w0 where get: "cl_Get (re_reports E) ReportNamespace (reloader_report_name (re_lib E) m ref) w = (r0, w0)"
    by fastforce
  show ?thesis
  proof (cases r0)
    case (Ok y)
    with api_client.get_Ok [OF api] get run key show ?thesis
      by (auto simp: getReloaderReport_def call_Ok ret_def)
  next
    case (Err e)
    with get run have e: "e = NotFound" and create: "createReloaderReport E m ref w0 = (Ok x, w')"
      by (auto simp: getReloaderReport_def call_Err fail_def split: if_splits)
    note absent = api_client.get_Err [OF api get [unfolded Err]]
    from api_client.create_Ok [OF api create [unfolded createReloaderReport_def]] absent e key show ?thesis
      by (auto simp: new_reloader_report_def set_version_def)
  next
    case Panic
    with get api_client.get_no_panic [OF api] show ?thesis by blast
  qed
qed


section \<open>Witnesses\<close>

record reloader_world =
  rw_reloaders :: "reloader_info list server"
  rw_deployments :: "volume list server"
  rw_reports :: "reloader_report_spec server"
  rw_mgmt :: "reloader_report_spec server"
  rw_secrets :: "(string, string) gomap server"

definition ref_reloader_env :: "(reloader_world, unit) reloader_env" where
  "ref_reloader_env =
     \<lparr>re_lib = ref_lib,
      re_reloaders = server_client rw_reloaders (\<lambda>s w. w\<lparr>rw_reloaders := s\<rparr>),
      re_deployments = server_client rw_deployments (\<lambda>s w. w\<lparr>rw_deployments := s\<rparr>),
      re_statefulSets = server_client rw_deployments (\<lambda>s w. w\<lparr>rw_deployments := s\<rparr>),
      re_daemonSets = server_client rw_deployments (\<lambda>s w. w\<lparr>rw_deployments := s\<rparr>),
      re_reports = server_client rw_reports (\<lambda>s w. w\<lparr>rw_reports := s\<rparr>),
      re_mgmt = \<lparr>me_secrets = server_client rw_secrets (\<lambda>s w. w\<lparr>rw_secrets := s\<rparr>),
        os_CreateTemp = ret ''f'', os_Write = \<lambda>_ _. ret (), os_Remove = \<lambda>_. ret (),
        BuildConfigFromFlags = \<lambda>_. ret (), AddToScheme = ret (), client_New = \<lambda>_. ret ()\<rparr>,
      re_mgmtReports = \<lambda>_. server_client rw_mgmt (\<lambda>s w. w\<lparr>rw_mgmt := s\<rparr>)\<rparr>"

definition deployment_info :: "string \<Rightarrow> reloader_info" where
  "deployment_info n = \<lparr>ri_Kind = ''Deployment'', ri_Namespace = ''d'', ri_Name = n\<rparr>"

definition ref_reloader_world :: "string list \<Rightarrow> reloader_world" where
  "ref_reloader_world ns =
     \<lparr>rw_reloaders = new_server [\<lparr>metadata = empty_meta '''' ''r1'', Spec = map deployment_info ns,
        status_Phase = None\<rparr>],
      rw_deployments = new_server (map (\<lambda>n. \<lparr>metadata = empty_meta ''d'' n,
        Spec = [\<lparr>vol_ConfigMap = Some ''cm'', vol_Secret = None\<rparr>], status_Phase = None\<rparr>) [''a'', ''b'', ''c'']),
      rw_reports = new_server [], rw_mgmt = new_server [], rw_secrets = new_server []\<rparr>"

abbreviation r1_ref :: object_reference where
  "r1_ref \<equiv> getReloaderObjectReference ref_lib ''r1''"

text \<open>Evaluations one after the other, from the initial maps.\<close>

definition evaluated :: "bool \<Rightarrow> string list list \<Rightarrow>
    unit outcome \<times> object_reference list reloader_maps \<times> reloader_world" where
  "evaluated nil_ok nss =
     fold (\<lambda>ns st. case st of
         (Ok _, M, _) \<Rightarrow> evaluateReloaderInstance (list_set nil_ok) ref_reloader_env ''r1''
           (M, ref_reloader_world ns)
       | _ \<Rightarrow> st) nss (Ok (), initializeReloaderMaps, ref_reloader_world [])"

text \<open>Re-evaluating a Reloader that names three workloads crashes the agent when the set library does
  not tolerate nil receivers: the first iteration drops the workloads not met yet, so the second drops
  the third one again and calls Erase on a set that is no longer in the map. With two workloads
  the evaluation can be repeated.\<close>

theorem reevaluating_three_workloads_panics:
  "fst (evaluated False [[''a'', ''b'', ''c''], [''a'', ''b'', ''c'']]) = Panic \<and>
   fst (evaluated False [[''a'', ''b''], [''a'', ''b'']]) = Ok ()"
  by code_simp

definition tracked_once :: "object_reference list reloader_maps" where
  "tracked_once = fst (snd (evaluated False [[''a'', ''b'']]))"

lemma tracked_once_ok: "tracked set tracked_once"
proof -
  have "list_all (\<lambda>(_, rs). list_all (\<lambda>r. members set (resourceMap tracked_once) r \<noteq> {}) rs) (volumeMap tracked_once)"
    "gomap_ok (reloaderMap tracked_once)" "gomap_ok (resourceMap tracked_once)"
    "gomap_ok (volumeMap tracked_once)"
    by code_simp+
  then show ?thesis
    by (auto simp: tracked_def list_all_iff members_def split: option.splits dest!: map_of_SomeD) fastforce+
qed

definition reloader_r1 :: "string list \<Rightarrow> reloader" where
  "reloader_r1 ns = \<lparr>metadata = empty_meta '''' ''r1'', Spec = map deployment_info ns, status_Phase = None\<rparr>"



theorem evaluateReloaderInstance_forgets_witness:
  "\<exists>M' w0. evaluateReloaderInstance (list_set False) ref_reloader_env ''r1''
      (tracked_once, (ref_reloader_world [])\<lparr>rw_reloaders := new_server []\<rparr>) = (Ok (), (M', w0)) \<and>
    (\<forall>v. members set (volumeMap M') v = {})"
proof -
  let ?w = "(ref_reloader_world [])\<lparr>rw_reloaders := new_server []\<rparr>"
  let ?get = "cl_Get (re_reloaders ref_reloader_env) '''' ''r1'' ?w"
  have get: "?get = (Err NotFound, snd ?get)" by code_simp
  have lib: "re_lib ref_reloader_env = ref_lib"
    by (simp add: ref_reloader_env_def)
  have "list_all (\<lambda>(_, rs). list_all (\<lambda>r. members set (resourceMap tracked_once) r \<subseteq> {r1_ref}) rs)
      (volumeMap tracked_once)"
    by code_simp
  then have only: "members set (resourceMap tracked_once) x \<subseteq> {r1_ref}"
    if "x \<in> members set (volumeMap tracked_once) v" for x v
    using that by (fastforce simp: list_all_iff members_def [of _ "volumeMap tracked_once"]
        split: option.splits dest!: map_of_SomeD)
  obtain M' where "evaluateReloaderInstance (list_set False) ref_reloader_env ''r1'' (tracked_once, ?w) =
      (Ok (), (M', snd ?get))"
    and "\<forall>v. members set (volumeMap M') v = {x \<in> members set (volumeMap tracked_once) v.
       members set (resourceMap tracked_once) x - {r1_ref} \<noteq> {}}"
    using evaluateReloaderInstance_forgets [OF lset.object_set_axioms tracked_once_ok get disjI1 [OF refl] refl]
    unfolding lib by blast
  with only show ?thesis by fastforce
qed

theorem evaluateReloaderInstance_empty_list_witness:
  "\<exists>M' w0. evaluateReloaderInstance (list_set False) ref_reloader_env ''r1''
      (tracked_once, ref_reloader_world []) = (Ok (), (M', w0)) \<and>
    volumeMap M' = volumeMap tracked_once \<and> volumeMap tracked_once \<noteq> []"
proof -
  let ?get = "cl_Get (re_reloaders ref_reloader_env) '''' ''r1'' (ref_reloader_world [])"
  have get: "?get = (Ok (reloader_r1 []), snd ?get)"
    and rl: "om_DeletionTimestamp (metadata (reloader_r1 [])) = None" "Spec (reloader_r1 []) = []"
    and some: "volumeMap tracked_once \<noteq> []"
    by code_simp+
  show ?thesis
    using evaluateReloaderInstance_empty_list [OF get rl, of "list_set False" tracked_once] some by auto
qed

theorem mounted_key_roundtrip_witness:
  "reloader_job (list_set False) ref_reloader_env (ref_manager False) (mounted_key ''ConfigMap'' ''d'' ''cm'') =
   (\<lambda>st. on_world (andThen (updateReloaderReport (list_set False) ref_reloader_env (ref_manager False) (fst st)
      \<lparr>or_Kind = ''ConfigMap'', or_Namespace = ''d'', or_Name = ''cm'',
       or_APIVersion = core_GroupVersion (re_lib ref_reloader_env)\<rparr>) (\<lambda>_. ret ())) st)"
proof
  fix st
  have "\<not> sendReport (ref_manager False)" by code_simp
  then show "reloader_job (list_set False) ref_reloader_env (ref_manager False)
      (mounted_key ''ConfigMap'' ''d'' ''cm'') st =
     on_world (andThen (updateReloaderReport (list_set False) ref_reloader_env (ref_manager False) (fst st)
      \<lparr>or_Kind = ''ConfigMap'', or_Namespace = ''d'', or_Name = ''cm'',
       or_APIVersion = core_GroupVersion (re_lib ref_reloader_env)\<rparr>) (\<lambda>_. ret ())) st"
    using mounted_key_roundtrip [of "''ConfigMap''" "''d''" "''cm''" "list_set False" ref_reloader_env
        "ref_manager False" st] by simp
qed

theorem failed_reloader_jobs_lost_witness:
  "keys (reloaderJobQueue (case evaluateReloaders (list_set False) ref_reloader_env []
     (EvaluateReloader ref_lib ''r1'' (ref_manager False))
     (initializeReloaderMaps, ref_reloader_world [''missing'']) of (Ok m, _) \<Rightarrow> m | _ \<Rightarrow> ref_manager False))
   = {''Reloader:Reloader:r1''} \<and>
   reloader_job (list_set False) ref_reloader_env (ref_manager False) ''Reloader:Reloader:r1'' = ret ()"
proof -
  let ?st = "(initializeReloaderMaps, ref_reloader_world [''missing''])"
  let ?queued = "EvaluateReloader ref_lib ''r1'' (ref_manager False)"
  let ?run = "evaluateReloaders (list_set False) ref_reloader_env [] ?queued ?st"
  let ?after = "case ?run of (Ok m, _) \<Rightarrow> m | _ \<Rightarrow> ref_manager False"
  have run: "?run = (Ok ?after, snd ?run)"
    and out: "job_outcomes (reloader_job (list_set False) ref_reloader_env ?queued)
      (map fst (reloaderJobQueue ?queued)) ?st = [(''Reloader:r1'', Err NotFound)]"
    and key: "reloader_key (re_lib ref_reloader_env) ''Reloader:r1'' = ''Reloader:Reloader:r1''"
    by code_simp+
  show ?thesis
    using failed_reloader_jobs_lost [OF run refl] key unfolding out by auto
qed

theorem unmounted_change_fails_witness:
  "\<exists>e w'. evaluateMountedResource (list_set False) ref_reloader_env (ref_manager True) ''Secret'' ''d/s''
     (tracked_once, ref_reloader_world []) = (Err e, (tracked_once, w'))"
proof -
  have api: "api_client (re_reports ref_reloader_env) (srv_stored rw_reports) (\<lambda>_. ())"
    unfolding ref_reloader_env_def reloader_env.simps
    by (rule server_client_api) (simp add: server_at_def)
  have facts: "split_on CHR ''/'' ''d/s'' = [''d'', ''s'']" "sendReport (ref_manager True)"
    "map_of (volumeMap tracked_once) \<lparr>or_Kind = ''Secret'', or_Namespace = ''d'', or_Name = ''s'',
       or_APIVersion = core_GroupVersion (re_lib ref_reloader_env)\<rparr> = None"
    "srv_stored rw_reports (ref_reloader_world []) (ReportNamespace,
       GetReloaderReportName (re_lib ref_reloader_env) ''Secret'' ''d'' ''s'' (clusterName (ref_manager True))
         (clusterType (ref_manager True))) = None"
    by code_simp+
  show ?thesis
    using unmounted_change_fails [where E = ref_reloader_env and reports = "srv_stored rw_reports"
        and rest = "\<lambda>_. ()" and info = "''d/s''" and ns = "''d''" and n = "''s''" and m = "ref_manager True"
        and kind = "''Secret''" and M = tracked_once and w = "ref_reloader_world []" and S = "list_set False"]
      api facts by blast
qed


end
