(* ===== verification/Watchers.thy ===== *)
theory Watchers
  imports Classifier_Evaluation HealthCheck_Evaluation Nats Reloader_Evaluation
begin

text \<open>
  pkg/evaluation/watchers.go: which kinds of resources the agent has to watch (the union of what the
  live Classifiers, HealthChecks, EventSources and Reloaders select), and the informers it keeps for
  them. One pass of buildResourceToWatch is an action on the manager and the world; the ways the
  manager changes are a step relation, with its reachable states.
  Slices keep Go's semantics where it matters: \<^verbatim>\<open>copy\<close> writes no more than the length of its
  destination, \<^verbatim>\<open>range\<close> fixes the number of iterations before the loop, an index past the end and
  a call of a nil function panic.
\<close>

section \<open>Parameters\<close>

record api_resource =
  ar_Group :: string
  ar_Version :: string
  ar_Kind :: string

record ('w, 'm) watch_env =
  we_lib :: libsveltos
  we_classifiers :: "('w, classifier_spec) client"
  we_healthChecks :: "('w, healthcheck_spec) client"
  we_eventSources :: "('w, eventsource_spec) client"
  we_reloaders :: "('w, reloader_info list) client"
  we_discovery :: "('w, 'm) discovery"
  we_NewDiscoveryClient :: "('w, unit) act"
  we_ServerGroupsAndResources :: "('w, (string \<times> api_resource list) list) act"
  we_NewDynamic :: "('w, unit) act"
  we_WithCancel :: "gvk \<Rightarrow> string \<Rightarrow> ('w, nat) act"
  we_cancel :: "nat \<Rightarrow> ('w, unit) act"

type_synonym 'w mstate = "manager \<times> 'w"

definition in_world :: "('w, 'a) act \<Rightarrow> ('w mstate, 'a) act" where
  "in_world f st = (case f (snd st) of (r, w') \<Rightarrow> (r, (fst st, w')))"

definition in_manager :: "(manager \<Rightarrow> manager) \<Rightarrow> ('w mstate, unit) act" where
  "in_manager g st = (Ok (), (g (fst st), snd st))"

section \<open>The kinds to watch\<close>

definition selector_gvk :: "resource_selector \<Rightarrow> gvk" where
  "selector_gvk rs = GVK (rs_Group rs) (rs_Version rs) (rs_Kind rs)"

definition add_all :: "gvk list \<Rightarrow> (gvk, bool) gomap \<Rightarrow> (gvk, bool) gomap" where
  "add_all gs resources = fold (\<lambda>g. put g True) gs resources"

definition addGVKsForClassifier :: "classifier \<Rightarrow> (gvk, bool) gomap \<Rightarrow> (gvk, bool) gomap" where
  "addGVKsForClassifier classifier resources =
     (case cs_DeployedResourceConstraint (Spec classifier) of
        None \<Rightarrow> resources
      | Some d \<Rightarrow> add_all (map selector_gvk (drc_ResourceSelectors d)) resources)"

definition addGVKsForHealthCheck :: "healthcheck \<Rightarrow> (gvk, bool) gomap \<Rightarrow> (gvk, bool) gomap" where
  "addGVKsForHealthCheck healthCheck resources =
     add_all (map selector_gvk (hcs_ResourceSelectors (Spec healthCheck))) resources"

definition addGVKsForEventSource :: "eventsource \<Rightarrow> (gvk, bool) gomap \<Rightarrow> (gvk, bool) gomap" where
  "addGVKsForEventSource eventSource resources =
     add_all (map selector_gvk (ess_ResourceSelectors (Spec eventSource))) resources"

text \<open>The version is set to the group.\<close>

definition addGVKsForReloader :: "libsveltos \<Rightarrow> reloader \<Rightarrow> (gvk, bool) gomap \<Rightarrow> (gvk, bool) gomap" where
  "addGVKsForReloader L reloader resources =
     add_all (map (\<lambda>info. GVK (apps_Group L) (apps_Group L) (ri_Kind info)) (Spec reloader)) resources"

text \<open>The four lists are built alike: a kind whose CRD is missing contributes nothing, an object that is
  being deleted is skipped.\<close>

definition build_list ::
  "('spec kobject \<Rightarrow> (gvk, bool) gomap \<Rightarrow> (gvk, bool) gomap) \<Rightarrow> ('w, 'spec) client \<Rightarrow>
   ('w, (gvk, bool) gomap) act" where
  "build_list add C =
     call (cl_List C)
       (\<lambda>e. if e = NoMatch then ret [] else fail e)
       (\<lambda>items. ret (fold add (filter (\<lambda>x. om_DeletionTimestamp (metadata x) = None) items) []))"

definition buildListForClassifiers :: "('w, 'm) watch_env \<Rightarrow> ('w, (gvk, bool) gomap) act" where
  "buildListForClassifiers E = build_list addGVKsForClassifier (we_classifiers E)"

definition buildListForHealthChecks :: "('w, 'm) watch_env \<Rightarrow> ('w, (gvk, bool) gomap) act" where
  "buildListForHealthChecks E = build_list addGVKsForHealthCheck (we_healthChecks E)"

definition buildListForEventSources :: "('w, 'm) watch_env \<Rightarrow> ('w, (gvk, bool) gomap) act" where
  "buildListForEventSources E = build_list addGVKsForEventSource (we_eventSources E)"

definition buildListForReloaders :: "('w, 'm) watch_env \<Rightarrow> ('w, (gvk, bool) gomap) act" where
  "buildListForReloaders E = build_list (addGVKsForReloader (we_lib E)) (we_reloaders E)"

definition buildList :: "('w, 'm) watch_env \<Rightarrow> ('w, (gvk, bool) gomap) act" where
  "buildList E =
     andThen (buildListForClassifiers E) (\<lambda>resources.
     andThen (buildListForHealthChecks E) (\<lambda>fromHealthChecks.
     andThen (buildListForEventSources E) (\<lambda>fromEventSources.
     andThen (buildListForReloaders E) (\<lambda>fromReloaders.
       ret (put getSecretGVK True
              (add_all (map fst fromReloaders)
                (add_all (map fst fromEventSources)
                  (add_all (map fst fromHealthChecks) resources))))))))"

definition buildSortedList :: "(gvk, bool) gomap \<Rightarrow> gvk list" where
  "buildSortedList gvksMap = sort (map fst gvksMap)"

section \<open>The installed kinds\<close>

definition installed_gvk :: "string \<Rightarrow> api_resource \<Rightarrow> gvk" where
  "installed_gvk groupVersion resource =
     (case split_on CHR ''/'' groupVersion of
        [grp, version] \<Rightarrow> GVK grp version (ar_Kind resource)
      | [version] \<Rightarrow> GVK '''' version (ar_Kind resource)
      | _ \<Rightarrow> GVK (ar_Group resource) (ar_Version resource) (ar_Kind resource))"

definition getInstalledResources :: "('w, 'm) watch_env \<Rightarrow> ('w, (gvk, bool) gomap) act" where
  "getInstalledResources E =
     andThen (we_NewDiscoveryClient E) (\<lambda>_.
     andThen (we_ServerGroupsAndResources E) (\<lambda>resourceList.
       ret (add_all (concat (map (\<lambda>(gv, rs). map (installed_gvk gv) rs) resourceList)) [])))"

definition gvkInstalled :: "gvk option \<Rightarrow> (gvk, bool) gomap \<Rightarrow> bool" where
  "gvkInstalled g apiResources =
     (case g of None \<Rightarrow> False
      | Some k \<Rightarrow> (case map_of apiResources k of None \<Rightarrow> False | Some b \<Rightarrow> b))"

section \<open>Watchers\<close>

definition getDynamicInformer :: "('w, 'm) watch_env \<Rightarrow> gvk \<Rightarrow> ('w, string) act" where
  "getDynamicInformer E g =
     andThen (we_NewDynamic E) (\<lambda>_.
     andThen (NewDiscoveryClientOrDie (we_discovery E)) (\<lambda>_.
     andThen (GetAPIGroupResources (we_discovery E)) (\<lambda>mapper.
       RESTMapping (we_discovery E) mapper (gvk_Group g) (gvk_Kind g) (gvk_Version g))))"

definition startWatcher :: "('w, 'm) watch_env \<Rightarrow> gvk \<Rightarrow> ('w mstate, unit) act" where
  "startWatcher E g st =
     (if map_of (watchers (fst st)) g \<noteq> None then (Ok (), st)
      else andThen (in_world (getDynamicInformer E g)) (\<lambda>resource.
           andThen (in_world (we_WithCancel E g resource)) (\<lambda>cancel.
             in_manager (\<lambda>m. m\<lparr>watchers := put g cancel (watchers m)\<rparr>))) st)"

text \<open>startWatcherOnSecret (nats\_evaluation.go): again until it succeeds.\<close>

fun startWatcherOnSecret :: "('w, 'm) watch_env \<Rightarrow> nat \<Rightarrow> 'w mstate \<Rightarrow> (unit outcome \<times> 'w mstate) option" where
  "startWatcherOnSecret E 0 st = None"
| "startWatcherOnSecret E (Suc n) st =
     (case startWatcher E getSecretGVK st of
        (Err _, st') \<Rightarrow> startWatcherOnSecret E n st'
      | (r, st') \<Rightarrow> Some (r, st'))"

text \<open>listenForCloudEvents (nats\_evaluation.go): load the configuration, then watch the Secrets, then listen.\<close>

definition listenForCloudEvents ::
  "('w, 'conn, 'js, 'cons) nats_env \<Rightarrow> ('w, 'm) watch_env \<Rightarrow> nat \<Rightarrow> 'w mstate \<Rightarrow> (unit outcome \<times> 'w mstate) option" where
  "listenForCloudEvents N E attempts = (\<lambda>(m, w).
     (case loadMessagingConfiguration N attempts m w of
        Some (Ok (configuration, m1), w1) \<Rightarrow>
          (case startWatcherOnSecret E attempts (m1, w1) of
             Some (Ok _, (m2, w2)) \<Rightarrow>
               (case configuration of
                  None \<Rightarrow> Some (Ok (), (m2, w2))
                | Some config \<Rightarrow>
                    (case listenToNats N attempts (msg_Nats config) w2 of
                       Some (Ok _, w3) \<Rightarrow> map_option (\<lambda>(r, w4). (r, (m2, w4)))
                         (listenToJetStream N attempts (msg_Jetstream config) w3)
                     | Some (r, w3) \<Rightarrow> Some (r, (m2, w3))
                     | None \<Rightarrow> None))
           | r \<Rightarrow> r)
      | Some (Err e, w1) \<Rightarrow> Some (Err e, (m, w1))
      | Some (Panic, w1) \<Rightarrow> Some (Panic, (m, w1))
      | None \<Rightarrow> None))"

text \<open>\<^verbatim>\<open>append(slice[:s], slice[s+1:]...)\<close>, for an index inside the slice.\<close>

definition remove :: "'a list \<Rightarrow> nat \<Rightarrow> 'a list" where
  "remove xs s = take s xs @ drop (Suc s) xs"

definition watch_one :: "('w, 'm) watch_env \<Rightarrow> (gvk, bool) gomap \<Rightarrow> gvk \<Rightarrow> ('w mstate, unit) act" where
  "watch_one E apiResources g =
     (if gvkInstalled (Some g) apiResources then startWatcher E g
      else in_manager (\<lambda>m. m\<lparr>unknownResourcesToWatch := unknownResourcesToWatch m @ [g]\<rparr>))"

text \<open>The loop that cancels watchers: \<open>i\<close> counts up to the length the slice had before the loop, while
  the slice gets shorter.\<close>

fun cancel_loop :: "('w, 'm) watch_env \<Rightarrow> gvk list \<Rightarrow> nat \<Rightarrow> nat \<Rightarrow> ('w mstate, unit) act" where
  "cancel_loop E current i 0 st = (Ok (), st)"
| "cancel_loop E current i (Suc n) st =
     (let rs = resourcesToWatch (fst st) in
      if length rs \<le> i then (Panic, st)
      else if rs ! i \<in> set current then cancel_loop E current (Suc i) n st
      else (case map_of (watchers (fst st)) (rs ! i) of
              None \<Rightarrow> (Panic, st)
            | Some cancel \<Rightarrow>
                andThen (in_world (we_cancel E cancel)) (\<lambda>_.
                andThen (in_manager (\<lambda>m. m\<lparr>resourcesToWatch := remove (resourcesToWatch m) i\<rparr>)) (\<lambda>_.
                  cancel_loop E current (Suc i) n)) st))"

definition updateWatchers :: "('w, 'm) watch_env \<Rightarrow> gvk list \<Rightarrow> ('w mstate, unit) act" where
  "updateWatchers E resourceToWatch =
     andThen (in_world (getInstalledResources E)) (\<lambda>apiResources.
     andThen (foldA (\<lambda>_ g. watch_one E apiResources g) () resourceToWatch) (\<lambda>_ st.
       cancel_loop E resourceToWatch 0 (length (resourcesToWatch (fst st))) st))"

text \<open>Go's \<^verbatim>\<open>copy(dst, src)\<close>: the new content of \<open>dst\<close>.\<close>

definition go_copy :: "'a list \<Rightarrow> 'a list \<Rightarrow> 'a list" where
  "go_copy dst src = take (length dst) src @ drop (length src) dst"

text \<open>One pass of the loop buildResourceToWatch.\<close>

definition request_rebuild :: "manager \<Rightarrow> manager" where
  "request_rebuild m = m\<lparr>rebuildResourceToWatch := 1\<rparr>"

definition buildResourceToWatch :: "('w, 'm) watch_env \<Rightarrow> ('w mstate, unit) act" where
  "buildResourceToWatch E st =
     (if rebuildResourceToWatch (fst st) = 0 then (Ok (), st)
      else
        andThen (in_manager (\<lambda>m. m\<lparr>rebuildResourceToWatch := 0\<rparr>)) (\<lambda>_.
        call (in_world (buildList E)) (\<lambda>_. in_manager request_rebuild) (\<lambda>gvksMap st1.
          let tmp = buildSortedList gvksMap in
          if tmp = resourcesToWatch (fst st1) then (Ok (), st1)
          else call (updateWatchers E tmp) (\<lambda>_. in_manager request_rebuild)
                 (\<lambda>_. in_manager (\<lambda>m. m\<lparr>resourcesToWatch := go_copy (resourcesToWatch m) tmp\<rparr>)) st1)) st)"

text \<open>The notification of an informer: the registered methods, then the messaging part. A registered
  method is the react function of its controller.\<close>

definition react ::
  "(gvk \<Rightarrow> unstructured option \<Rightarrow> manager \<Rightarrow> manager) \<Rightarrow> (gvk \<Rightarrow> unstructured option \<Rightarrow> manager \<Rightarrow> manager) \<Rightarrow>
   (gvk \<Rightarrow> unstructured option \<Rightarrow> manager \<Rightarrow> manager) \<Rightarrow> (gvk \<Rightarrow> unstructured option \<Rightarrow> manager \<Rightarrow> manager) \<Rightarrow>
   ('w, 'conn, 'js, 'cons) nats_env \<Rightarrow> (unstructured \<Rightarrow> (string, string) gomap \<times> go_error option) \<Rightarrow>
   gvk \<Rightarrow> unstructured option \<Rightarrow> ('w mstate, unit) act" where
  "react rc rh re rr N FromUnstructured g obj st =
     (let m1 = (if reactClassifier (fst st) then rc g obj (fst st) else fst st);
          m2 = (if reactHealthCheck m1 then rh g obj m1 else m1);
          m3 = (if reactEventSource m2 then re g obj m2 else m2);
          m4 = (if reactReloader m3 then rr g obj m3 else m3)
      in in_world (reactToNATS N FromUnstructured m4 (Some g) obj) (m4, snd st))"

text \<open>What an informer tells its handlers; an object that is no unstructured one (the tombstone of a delete that was
  missed) is \<open>None\<close>. The informer delivers \<open>ns\<close> before it is stopped, and AddEventHandler is client-go's.\<close>

datatype notification =
    AddFunc "unstructured option"
  | DeleteFunc "unstructured option"
  | UpdateFunc "unstructured option" "unstructured option"

fun handlers :: "(gvk \<Rightarrow> unstructured option \<Rightarrow> ('w mstate, unit) act) \<Rightarrow> gvk \<Rightarrow> notification \<Rightarrow> ('w mstate, unit) act" where
  "handlers rct g (AddFunc obj) = rct g obj"
| "handlers rct g (DeleteFunc obj) = rct g obj"
| "handlers rct g (UpdateFunc oldObj newObj) = rct g newObj"

definition runInformer ::
  "('w, unit) act \<Rightarrow> gvk \<Rightarrow> (gvk \<Rightarrow> unstructured option \<Rightarrow> ('w mstate, unit) act) \<Rightarrow> notification list \<Rightarrow>
   ('w mstate, unit) act" where
  "runInformer AddEventHandler g rct ns =
     call (in_world AddEventHandler) (\<lambda>_ st. (Panic, st)) (\<lambda>_. foldA (\<lambda>_. handlers rct g) () ns)"

section \<open>Lemmas\<close>

lemma keys_add_all [simp]: "keys (add_all gs m) = set gs \<union> keys m"
  by (induction gs arbitrary: m) (auto simp: add_all_def)

lemma gomap_ok_add_all [simp]: "gomap_ok m \<Longrightarrow> gomap_ok (add_all gs m)"
  by (induction gs arbitrary: m) (simp_all add: add_all_def)

lemma add_all_lookup: "map_of (add_all gs m) g = (if g \<in> set gs then Some True else map_of m g)"
  by (induction gs arbitrary: m) (auto simp: add_all_def)

text \<open>The kinds a live object contributes.\<close>

definition classifier_gvks :: "classifier \<Rightarrow> gvk set" where
  "classifier_gvks c = (case cs_DeployedResourceConstraint (Spec c) of
     None \<Rightarrow> {} | Some d \<Rightarrow> selector_gvk ` set (drc_ResourceSelectors d))"

definition reloader_gvks :: "libsveltos \<Rightarrow> reloader \<Rightarrow> gvk set" where
  "reloader_gvks L r = (\<lambda>info. GVK (apps_Group L) (apps_Group L) (ri_Kind info)) ` set (Spec r)"

text \<open>A list of the objects of a kind; there is none when the kind is not installed.\<close>

definition listed :: "('w, 'spec) client \<Rightarrow> 'w \<Rightarrow> 'spec kobject list \<Rightarrow> 'w \<Rightarrow> bool" where
  "listed C w items w' \<longleftrightarrow>
     cl_List C w = (Ok items, w') \<or> (cl_List C w = (Err NoMatch, w') \<and> items = [])"

definition live :: "'spec kobject list \<Rightarrow> 'spec kobject set" where
  "live items = {x \<in> set items. om_DeletionTimestamp (metadata x) = None}"

lemma add_gvks_keys:
  "keys (addGVKsForClassifier c m) = classifier_gvks c \<union> keys m"
  "keys (addGVKsForHealthCheck h m) = selector_gvk ` set (hcs_ResourceSelectors (Spec h)) \<union> keys m"
  "keys (addGVKsForEventSource e m) = selector_gvk ` set (ess_ResourceSelectors (Spec e)) \<union> keys m"
  "keys (addGVKsForReloader L r m) = reloader_gvks L r \<union> keys m"
  by (simp_all add: addGVKsForClassifier_def classifier_gvks_def addGVKsForHealthCheck_def
      addGVKsForEventSource_def addGVKsForReloader_def reloader_gvks_def split: option.splits)

lemma add_gvks_ok:
  "gomap_ok m \<Longrightarrow> gomap_ok (addGVKsForClassifier c m)"
  "gomap_ok m \<Longrightarrow> gomap_ok (addGVKsForHealthCheck h m)"
  "gomap_ok m \<Longrightarrow> gomap_ok (addGVKsForEventSource e m)"
  "gomap_ok m \<Longrightarrow> gomap_ok (addGVKsForReloader L r m)"
  by (simp_all add: addGVKsForClassifier_def addGVKsForHealthCheck_def addGVKsForEventSource_def
      addGVKsForReloader_def split: option.splits)

lemma fold_add_keys:
  assumes "\<And>x m. keys (add x m) = f x \<union> keys m"
  shows "keys (fold add xs m) = (\<Union>x \<in> set xs. f x) \<union> keys m"
  by (induction xs arbitrary: m) (auto simp: assms)

lemma fold_add_ok:
  assumes "\<And>x m. gomap_ok m \<Longrightarrow> gomap_ok (add x m)"
  shows "gomap_ok m \<Longrightarrow> gomap_ok (fold add xs m)"
  by (induction xs arbitrary: m) (simp_all add: assms)

text \<open>One of the four lists: it is a map, and it holds the kinds of the live objects listed.\<close>

lemma build_list_Ok:
  assumes run: "build_list add C w = (Ok m, w')"
    and keys: "\<And>x m. keys (add x m) = f x \<union> keys m"
    and ok: "\<And>x m. gomap_ok m \<Longrightarrow> gomap_ok (add x m)"
  shows "gomap_ok m \<and> (\<exists>items. listed C w items w' \<and> keys m = (\<Union>x \<in> live items. f x))"
proof -
  obtain r w1 where list: "cl_List C w = (r, w1)"
    by fastforce
  show ?thesis
  proof (cases r)
    case (Ok items)
    with run list have m: "m = fold add (filter (\<lambda>x. om_DeletionTimestamp (metadata x) = None) items) []"
      and w1: "w' = w1"
      by (auto simp: build_list_def call_Ok ret_def)
    have "gomap_ok m"
      unfolding m by (rule fold_add_ok [OF ok]) simp_all
    moreover have "keys m = (\<Union>x \<in> live items. f x)"
      unfolding m fold_add_keys [OF keys] by (auto simp: live_def)
    ultimately show ?thesis using list Ok w1 by (auto simp: listed_def)
  next
    case (Err e)
    with run list show ?thesis
      by (auto simp: build_list_def call_Err ret_def fail_def listed_def live_def split: if_splits)
  next
    case Panic
    with run list show ?thesis by (simp add: build_list_def call_Panic)
  qed
qed

lemma put_nonempty [simp]: "put k v m \<noteq> []"
  using keys_put [of k v m] by auto

lemma buildList_nonempty: "buildList E w = (Ok gvksMap, w') \<Longrightarrow> gvksMap \<noteq> []"
  by (auto simp: buildList_def call_def ret_def fail_def split: prod.splits outcome.splits)

text \<open>buildList: the four lists one after the other, and the kind Secret.\<close>

lemma buildList_run:
  assumes "buildList E w = (Ok m, w')"
  obtains m1 w1 m2 w2 m3 w3 m4 where
    "build_list addGVKsForClassifier (we_classifiers E) w = (Ok m1, w1)"
    "build_list addGVKsForHealthCheck (we_healthChecks E) w1 = (Ok m2, w2)"
    "build_list addGVKsForEventSource (we_eventSources E) w2 = (Ok m3, w3)"
    "build_list (addGVKsForReloader (we_lib E)) (we_reloaders E) w3 = (Ok m4, w')"
    "m = put getSecretGVK True (add_all (map fst m4) (add_all (map fst m3) (add_all (map fst m2) m1)))"
  using assms
  by (auto simp: buildList_def buildListForClassifiers_def buildListForHealthChecks_def
      buildListForEventSources_def buildListForReloaders_def call_def ret_def fail_def
      split: prod.splits outcome.splits)

lemma buildList_spec:
  assumes "buildList E w = (Ok m, w')"
  shows "gomap_ok m \<and> (\<exists>cs w1 hs w2 es w3 rs.
    listed (we_classifiers E) w cs w1 \<and> listed (we_healthChecks E) w1 hs w2 \<and>
    listed (we_eventSources E) w2 es w3 \<and> listed (we_reloaders E) w3 rs w' \<and>
    keys m = {getSecretGVK} \<union> (\<Union>c \<in> live cs. classifier_gvks c) \<union>
      (\<Union>h \<in> live hs. selector_gvk ` set (hcs_ResourceSelectors (Spec h))) \<union>
      (\<Union>e \<in> live es. selector_gvk ` set (ess_ResourceSelectors (Spec e))) \<union>
      (\<Union>r \<in> live rs. reloader_gvks (we_lib E) r))"
proof -
  obtain m1 w1 m2 w2 m3 w3 m4 where parts:
    "build_list addGVKsForClassifier (we_classifiers E) w = (Ok m1, w1)"
    "build_list addGVKsForHealthCheck (we_healthChecks E) w1 = (Ok m2, w2)"
    "build_list addGVKsForEventSource (we_eventSources E) w2 = (Ok m3, w3)"
    "build_list (addGVKsForReloader (we_lib E)) (we_reloaders E) w3 = (Ok m4, w')"
    and m: "m = put getSecretGVK True (add_all (map fst m4) (add_all (map fst m3) (add_all (map fst m2) m1)))"
    using assms by (rule buildList_run)
  note lists = build_list_Ok [OF parts(1) add_gvks_keys(1) add_gvks_ok(1)]
    build_list_Ok [OF parts(2) add_gvks_keys(2) add_gvks_ok(2)]
    build_list_Ok [OF parts(3) add_gvks_keys(3) add_gvks_ok(3)]
    build_list_Ok [OF parts(4) add_gvks_keys(4) add_gvks_ok(4)]
  have ok: "gomap_ok m" unfolding m using lists(1) by simp
  have keys: "keys m = {getSecretGVK} \<union> keys m1 \<union> keys m2 \<union> keys m3 \<union> keys m4"
    unfolding m by auto
  show ?thesis using ok keys lists by metis
qed

lemma buildSortedList_sorted:
  assumes "gomap_ok m"
  shows "sorted_wrt (<) (buildSortedList m) \<and> set (buildSortedList m) = keys m"
  using assms by (simp add: buildSortedList_def strict_sorted_iff)

lemma buildSortedList_nonempty: "buildSortedList m = [] \<longleftrightarrow> m = []"
  using set_sort [of "\<lambda>g. g" "map fst m"] by (auto simp: buildSortedList_def simp del: set_sort)

lemma in_world_run: "in_world f (m, w) = (case f w of (r, w') \<Rightarrow> (r, (m, w')))"
  by (simp add: in_world_def)

lemma in_manager_run [simp]: "in_manager g (m, w) = (Ok (), (g m, w))"
  by (simp add: in_manager_def)

text \<open>The kinds with a watcher.\<close>

definition watched :: "manager \<Rightarrow> gvk set" where
  "watched m = keys (watchers m)"

lemma watched_simps [simp]:
  "watched (m\<lparr>watchers := put g c (watchers m)\<rparr>) = insert g (watched m)"
  "watched (m\<lparr>unknownResourcesToWatch := us\<rparr>) = watched m"
  "watched (m\<lparr>resourcesToWatch := rs\<rparr>) = watched m"
  "watched (m\<lparr>rebuildResourceToWatch := b\<rparr>) = watched m"
  by (simp_all add: watched_def)

lemma watched_lookup: "g \<in> watched m \<longleftrightarrow> map_of (watchers m) g \<noteq> None"
  by (auto simp: watched_def keys_dom)

text \<open>A watcher that is started adds one entry and nothing else.\<close>

lemma startWatcher_run:
  assumes "startWatcher E g (m, w) = (r, (m', w'))"
  shows "(r = Ok () \<longrightarrow> g \<in> watched m') \<and>
    (m' = m \<or> (\<exists>c. r = Ok () \<and> m' = m\<lparr>watchers := put g c (watchers m)\<rparr>))"
proof (cases "map_of (watchers m) g")
  case None
  obtain r1 w1 where inf: "getDynamicInformer E g w = (r1, w1)"
    by fastforce
  show ?thesis
  proof (cases r1)
    case (Ok res)
    obtain r2 w2 where go: "we_WithCancel E g res w1 = (r2, w2)"
      by fastforce
    with None assms inf Ok show ?thesis
      by (cases r2) (auto simp: startWatcher_def call_def in_world_run fail_def)
  qed (use None assms inf in \<open>auto simp: startWatcher_def call_def in_world_run fail_def\<close>)
next
  case (Some c)
  with assms show ?thesis
    by (auto simp: startWatcher_def watched_lookup)
qed

lemma watch_one_run:
  assumes "watch_one E api g (m, w) = (r, (m', w'))"
  shows "resourcesToWatch m' = resourcesToWatch m \<and> rebuildResourceToWatch m' = rebuildResourceToWatch m \<and>
    set (unknownResourcesToWatch m) \<subseteq> set (unknownResourcesToWatch m') \<and>
    watched m \<subseteq> watched m' \<and> watched m' \<subseteq> insert g (watched m) \<and>
    (r = Ok () \<longrightarrow>
       (if gvkInstalled (Some g) api
        then g \<in> watched m' \<and> unknownResourcesToWatch m' = unknownResourcesToWatch m
        else watched m' = watched m \<and>
          unknownResourcesToWatch m' = unknownResourcesToWatch m @ [g]))"
  using assms startWatcher_run [of E g m w r m' w']
  by (auto simp: watch_one_def split: if_splits)

lemma watch_all_run:
  assumes "foldA (\<lambda>_ g. watch_one E api g) () gs (m, w) = (r, (m', w'))"
  shows "resourcesToWatch m' = resourcesToWatch m \<and> rebuildResourceToWatch m' = rebuildResourceToWatch m \<and>
    set (unknownResourcesToWatch m) \<subseteq> set (unknownResourcesToWatch m') \<and>
    watched m \<subseteq> watched m' \<and> watched m' \<subseteq> set gs \<union> watched m \<and>
    (r = Ok () \<longrightarrow>
       watched m' = {g \<in> set gs. gvkInstalled (Some g) api} \<union> watched m \<and>
       unknownResourcesToWatch m' =
         unknownResourcesToWatch m @ filter (\<lambda>g. \<not> gvkInstalled (Some g) api) gs)"
  using assms
proof (induction gs arbitrary: m w)
  case Nil
  then show ?case by (auto simp: ret_def)
next
  case (Cons g gs)
  obtain r1 m1 w1 where step: "watch_one E api g (m, w) = (r1, (m1, w1))"
    by (metis prod.collapse)
  note one = watch_one_run [OF step]
  show ?case
  proof (cases r1)
    case (Ok u)
    with Cons.prems step have "foldA (\<lambda>_ g. watch_one E api g) () gs (m1, w1) = (r, (m', w'))"
      by (simp add: call_Ok)
    from Cons.IH [OF this] one Ok show ?thesis
      by (auto split: if_splits)
  qed (use Cons.prems step one in \<open>auto simp: call_def fail_def\<close>)
qed

lemma updateWatchers_run:
  assumes run: "updateWatchers E gs (m, w) = (r, (m', w'))" and empty: "resourcesToWatch m = []"
  shows "resourcesToWatch m' = [] \<and> rebuildResourceToWatch m' = rebuildResourceToWatch m \<and>
    set (unknownResourcesToWatch m) \<subseteq> set (unknownResourcesToWatch m') \<and>
    watched m \<subseteq> watched m' \<and> watched m' \<subseteq> set gs \<union> watched m \<and>
    (r = Ok () \<longrightarrow> (\<exists>api w1. getInstalledResources E w = (Ok api, w1) \<and>
       watched m' = {g \<in> set gs. gvkInstalled (Some g) api} \<union> watched m \<and>
       unknownResourcesToWatch m' =
         unknownResourcesToWatch m @ filter (\<lambda>g. \<not> gvkInstalled (Some g) api) gs))"
proof -
  obtain r1 w1 where inst: "getInstalledResources E w = (r1, w1)"
    by fastforce
  show ?thesis
  proof (cases r1)
    case (Ok api)
    obtain r2 m2 w2 where all: "foldA (\<lambda>_ g. watch_one E api g) () gs (m, w1) = (r2, (m2, w2))"
      by (metis prod.collapse)
    note spec = watch_all_run [OF all]
    have fin: "r = r2 \<and> m' = m2"
      using run inst Ok all spec empty
      by (cases r2) (auto simp: updateWatchers_def call_def in_world_run fail_def)
    show ?thesis using spec fin empty inst Ok by auto
  qed (use run inst empty in \<open>auto simp: updateWatchers_def call_def in_world_run fail_def\<close>)
qed

section \<open>The manager's transitions\<close>

text \<open>What the other goroutines do to the manager, one critical section at a time: the controllers and
  watchers queue jobs and ask for a rebuild, the evaluation loops empty their queues, the controllers
  register their methods and EventSources, the messaging goroutine stores the hash of its configuration.\<close>

inductive local_step :: "libsveltos \<Rightarrow> manager \<Rightarrow> manager \<Rightarrow> bool" for L where
  queue_classifier: "local_step L m (EvaluateClassifier n m)"
| queue_healthCheck: "local_step L m (EvaluateHealthCheck n m)"
| queue_eventSource: "local_step L m (EvaluateEventSource n m)"
| queue_reloader: "local_step L m (EvaluateReloader L n m)"
| queue_configMap: "local_step L m (EvaluateConfigMap ns n m)"
| queue_secret: "local_step L m (EvaluateSecret ns n m)"
| empty_classifiers: "local_step L m (snd (drain_classifiers m))"
| empty_healthChecks: "local_step L m (snd (drain_healthChecks m))"
| empty_eventSources: "local_step L m (snd (drain_eventSources m))"
| empty_reloaders: "local_step L m (snd (drain_reloaders m))"
| nats_register: "local_step L m (RegisterNatsEventSource n m)"
| nats_unregister: "local_step L m (UnregisterNatsEventSource n m)"
| ask_rebuild: "local_step L m (ReEvaluateResourceToWatch m)"
| register_classifier: "local_step L m (RegisterClassifierMethod m)"
| register_healthCheck: "local_step L m (RegisterHealthCheckMethod m)"
| register_eventSource: "local_step L m (RegisterEventSourceMethod m)"
| register_reloader: "local_step L m (RegisterReloaderMethod m)"
| load_messaging: "local_step L m (m\<lparr>messagingConfigurationHash := h\<rparr>)"

text \<open>A step of the system: one of those, a pass of buildResourceToWatch, an attempt to watch the
  Secrets, or any change of the world outside the manager.\<close>

inductive manager_step :: "('w, 'm) watch_env \<Rightarrow> 'w mstate \<Rightarrow> 'w mstate \<Rightarrow> bool" for E where
  local: "local_step (we_lib E) m m' \<Longrightarrow> manager_step E (m, w) (m', w)"
| rebuild: "buildResourceToWatch E s = (r, s') \<Longrightarrow> manager_step E s s'"
| watch_secret: "startWatcher E getSecretGVK s = (r, s') \<Longrightarrow> manager_step E s s'"
| outside: "manager_step E (m, w) (m, w')"

inductive manager_steps :: "('w, 'm) watch_env \<Rightarrow> 'w mstate \<Rightarrow> 'w mstate \<Rightarrow> bool" for E where
  none: "manager_steps E s s"
| more: "manager_steps E s s' \<Longrightarrow> manager_step E s' s'' \<Longrightarrow> manager_steps E s s''"

inductive_cases local_stepE: "local_step L m m'"
inductive_cases manager_stepE: "manager_step E s s'"

text \<open>The states of a running agent.\<close>

definition running :: "('w, 'm) watch_env \<Rightarrow> 'w mstate \<Rightarrow> bool" where
  "running E s \<longleftrightarrow> (\<exists>cns cn ct i send m0 w0.
     InitializeManager cns cn ct i send None = Some m0 \<and> manager_steps E (m0, w0) s)"

section \<open>Invariants of the transitions\<close>

lemmas manager_ops =
  EvaluateClassifier_def EvaluateHealthCheck_def EvaluateEventSource_def EvaluateReloader_def
  EvaluateConfigMap_def EvaluateSecret_def drain_classifiers_def drain_healthChecks_def
  drain_eventSources_def drain_reloaders_def RegisterNatsEventSource_def
  UnregisterNatsEventSource_def ReEvaluateResourceToWatch_def RegisterClassifierMethod_def
  RegisterHealthCheckMethod_def RegisterEventSourceMethod_def RegisterReloaderMethod_def

lemma local_step_frame:
  assumes "local_step L m m'"
  shows "watchers m' = watchers m \<and> resourcesToWatch m' = resourcesToWatch m \<and>
    unknownResourcesToWatch m' = unknownResourcesToWatch m"
  using assms by (rule local_stepE) (simp_all add: manager_ops)

text \<open>One pass of buildResourceToWatch from a state whose list of watched kinds is empty. It leaves no
  request behind exactly when the list was built and the watchers were updated.\<close>

lemma rebuild_run:
  assumes run: "buildResourceToWatch E (m, w) = (r, (m', w'))" and empty: "resourcesToWatch m = []"
  shows "(resourcesToWatch m' = [] \<and> watched m \<subseteq> watched m' \<and>
      set (unknownResourcesToWatch m) \<subseteq> set (unknownResourcesToWatch m')) \<and>
    (rebuildResourceToWatch m \<noteq> 0 \<longrightarrow> r = Ok () \<longrightarrow> rebuildResourceToWatch m' = 0 \<longrightarrow>
      (\<exists>gvksMap w1 api w2. buildList E w = (Ok gvksMap, w1) \<and> getInstalledResources E w1 = (Ok api, w2) \<and>
        watched m' = {g \<in> set (buildSortedList gvksMap). gvkInstalled (Some g) api} \<union> watched m \<and>
        unknownResourcesToWatch m' = unknownResourcesToWatch m @
          filter (\<lambda>g. \<not> gvkInstalled (Some g) api) (buildSortedList gvksMap)))"
proof (cases "rebuildResourceToWatch m = 0")
  case True
  with run empty show ?thesis by (simp add: buildResourceToWatch_def)
next
  case False
  let ?m = "m\<lparr>rebuildResourceToWatch := 0\<rparr>"
  obtain r1 w1 where list: "buildList E w = (r1, w1)"
    by fastforce
  show ?thesis
  proof (cases r1)
    case (Ok gvksMap)
    obtain r2 m2 w2 where upd: "updateWatchers E (buildSortedList gvksMap) (?m, w1) = (r2, (m2, w2))"
      by (metis prod.collapse)
    have tmp: "buildSortedList gvksMap \<noteq> []"
      using buildList_nonempty [of E w gvksMap w1] list Ok
      by (simp add: buildSortedList_nonempty)
    have fin: "(m', r) = (case r2 of Ok _ \<Rightarrow> (m2, Ok ()) | Err _ \<Rightarrow> (request_rebuild m2, Ok ()) | Panic \<Rightarrow> (m2, Panic))"
      using run False list Ok upd tmp empty updateWatchers_run [OF upd]
      by (cases r2) (auto simp: buildResourceToWatch_def call_def in_world_run Let_def go_copy_def)
    show ?thesis
      using updateWatchers_run [OF upd] fin empty list Ok
      by (cases r2) (auto simp: request_rebuild_def)
  qed (use run False list empty in \<open>auto simp: buildResourceToWatch_def call_def in_world_run request_rebuild_def\<close>)
qed


lemma startWatcher_frame:
  assumes "startWatcher E g (m, w) = (r, (m', w'))"
  shows "resourcesToWatch m' = resourcesToWatch m \<and> watched m \<subseteq> watched m' \<and>
    unknownResourcesToWatch m' = unknownResourcesToWatch m"
  using startWatcher_run [OF assms] by auto

text \<open>The list of watched kinds never gets an element; watchers and missing kinds only accumulate.\<close>

lemma manager_step_grows:
  assumes "manager_step E s s'" and empty: "resourcesToWatch (fst s) = []"
  shows "resourcesToWatch (fst s') = [] \<and> watched (fst s) \<subseteq> watched (fst s') \<and>
    set (unknownResourcesToWatch (fst s)) \<subseteq> set (unknownResourcesToWatch (fst s'))"
  using assms(1)
proof cases
  case (local m m' w)
  then show ?thesis using local_step_frame [of "we_lib E" m m'] empty by (simp add: watched_def)
next
  case (rebuild r)
  then show ?thesis
    using rebuild_run [of E "fst s" "snd s" r "fst s'" "snd s'"] empty by simp
next
  case (watch_secret r)
  then show ?thesis
    using startWatcher_frame [of E getSecretGVK "fst s" "snd s" r "fst s'" "snd s'"] empty by simp
next
  case (outside m w w')
  then show ?thesis using empty by simp
qed

lemma manager_steps_grow:
  assumes "manager_steps E s s'" and "resourcesToWatch (fst s) = []"
  shows "resourcesToWatch (fst s') = [] \<and> watched (fst s) \<subseteq> watched (fst s') \<and>
    set (unknownResourcesToWatch (fst s)) \<subseteq> set (unknownResourcesToWatch (fst s'))"
  using assms
proof (induction rule: manager_steps.induct)
  case (more s s' s'')
  with manager_step_grows [of E s' s''] show ?case by auto
qed simp

lemma running_empty: "running E s \<Longrightarrow> resourcesToWatch (fst s) = []"
  by (auto simp: running_def InitializeManager_def dest!: manager_steps_grow)

text \<open>The manager's maps and its request flag stay well formed.\<close>

definition well_formed :: "manager \<Rightarrow> bool" where
  "well_formed m \<longleftrightarrow> queues_ok m \<and> rebuildResourceToWatch m \<in> {0, 1}"

lemma local_step_well_formed: "local_step L m m' \<Longrightarrow> well_formed m \<Longrightarrow> well_formed m'"
  by (erule local_stepE) (auto simp: well_formed_def queues_ok_def manager_ops)

lemma well_formed_updates [simp]:
  "well_formed (m\<lparr>unknownResourcesToWatch := us\<rparr>) = well_formed m"
  "well_formed (m\<lparr>resourcesToWatch := rs\<rparr>) = well_formed m"
  "well_formed m \<Longrightarrow> well_formed (m\<lparr>rebuildResourceToWatch := 0\<rparr>)"
  "well_formed m \<Longrightarrow> well_formed (request_rebuild m)"
  "well_formed m \<Longrightarrow> well_formed (m\<lparr>watchers := put g c (watchers m)\<rparr>)"
  by (auto simp: well_formed_def queues_ok_def request_rebuild_def)

lemma startWatcher_well_formed:
  "startWatcher E g (m, w) = (r, (m', w')) \<Longrightarrow> well_formed m \<Longrightarrow> well_formed m'"
  using startWatcher_run [of E g m w r m' w'] by auto

lemma watch_all_well_formed:
  "foldA (\<lambda>_ g. watch_one E api g) () gs (m, w) = (r, (m', w')) \<Longrightarrow> well_formed m \<Longrightarrow> well_formed m'"
proof (induction gs arbitrary: m w)
  case (Cons g gs)
  obtain r1 m1 w1 where step: "watch_one E api g (m, w) = (r1, (m1, w1))"
    by (metis prod.collapse)
  then have "well_formed m1"
    using Cons.prems(2) by (auto simp: watch_one_def dest: startWatcher_well_formed split: if_splits)
  with Cons step show ?case
    by (cases r1) (auto simp: call_def fail_def)
qed (simp add: ret_def)

lemma cancel_loop_well_formed:
  "cancel_loop E cur i n (m, w) = (r, (m', w')) \<Longrightarrow> well_formed m \<Longrightarrow> well_formed m'"
proof (induction n arbitrary: i m w)
  case (Suc n)
  then show ?case
    by (auto simp: Let_def call_def in_world_run fail_def split: if_splits option.splits prod.splits outcome.splits)
qed simp

lemma updateWatchers_well_formed:
  assumes run: "updateWatchers E gs (m, w) = (r, (m', w'))" and m: "well_formed m"
  shows "well_formed m'"
proof -
  obtain r1 w1 where inst: "getInstalledResources E w = (r1, w1)"
    by fastforce
  show ?thesis
  proof (cases r1)
    case (Ok api)
    obtain r2 m2 w2 where all: "foldA (\<lambda>_ g. watch_one E api g) () gs (m, w1) = (r2, (m2, w2))"
      by (metis prod.collapse)
    with run inst Ok watch_all_well_formed [OF all m] show ?thesis
      by (cases r2) (auto simp: updateWatchers_def call_def in_world_run fail_def dest: cancel_loop_well_formed)
  qed (use run inst m in \<open>auto simp: updateWatchers_def call_def in_world_run fail_def\<close>)
qed

lemma rebuild_well_formed:
  assumes run: "buildResourceToWatch E (m, w) = (r, (m', w'))" and m: "well_formed m"
  shows "well_formed m'"
proof -
  let ?m = "m\<lparr>rebuildResourceToWatch := 0\<rparr>"
  obtain r1 w1 where list: "buildList E w = (r1, w1)"
    by fastforce
  show ?thesis
  proof (cases "\<exists>gvksMap. r1 = Ok gvksMap")
    case True
    then obtain gvksMap where Ok: "r1 = Ok gvksMap" ..
    obtain r2 m2 w2 where upd: "updateWatchers E (buildSortedList gvksMap) (?m, w1) = (r2, (m2, w2))"
      by (metis prod.collapse)
    have "well_formed m2"
      by (rule updateWatchers_well_formed [OF upd]) (simp add: m)
    with run m list Ok upd show ?thesis
      by (cases r2) (auto simp: buildResourceToWatch_def call_def in_world_run Let_def split: if_splits)
  next
    case False
    with run m list show ?thesis
      by (cases r1) (auto simp: buildResourceToWatch_def call_def in_world_run split: if_splits)
  qed
qed

lemma manager_step_well_formed:
  assumes "manager_step E s s'" and m: "well_formed (fst s)"
  shows "well_formed (fst s')"
  using assms(1)
proof cases
  case (local m m' w)
  with assms(2) show ?thesis by (simp add: local_step_well_formed)
next
  case (rebuild r)
  with m rebuild_well_formed [of E "fst s" "snd s" r "fst s'" "snd s'"] show ?thesis by simp
next
  case (watch_secret r)
  with m startWatcher_well_formed [of E getSecretGVK "fst s" "snd s" r "fst s'" "snd s'"] show ?thesis by simp
qed (use m in simp)

lemma running_well_formed_state:
  assumes "running E s"
  shows "well_formed (fst s)"
proof -
  have "manager_steps E s0 s \<Longrightarrow> well_formed (fst s0) \<Longrightarrow> well_formed (fst s)" for s0
    by (induction rule: manager_steps.induct) (auto dest: manager_step_well_formed)
  with assms show ?thesis
    by (auto simp: running_def InitializeManager_def well_formed_def queues_ok_def)
qed

text \<open>restartIfNeeded signals once per entry of the list of missing kinds that is the kind installed.\<close>

lemma restart_count:
  "foldA (\<lambda>_ t. if g = t then call (\<lambda>k. (Ok (), Suc k)) (\<lambda>_. panic) ret else ret ()) () us n =
     (Ok (), n + count_list us g)"
  by (induction us arbitrary: n) (auto simp: call_def ret_def)

section \<open>Properties\<close>


text \<open>C34. The sorted list does not depend on the order in which Go ranges over the map: two maps with the same
  keys, however they are laid out, give the same list, so that a rebuild without a change is recognised as such.\<close>

theorem buildSortedList_deterministic:
  assumes "gomap_ok m" and "gomap_ok m'" and "keys m = keys m'"
  shows "buildSortedList m = buildSortedList m'"
  using buildSortedList_sorted [OF assms(1)] buildSortedList_sorted [OF assms(2)] assms(3)
  by (simp add: strict_sorted_equal)


text \<open>C7. A rebuild that succeeds watches what has to be watched: in a running agent, a pass of
  buildResourceToWatch that served a request and left none has built the list, and afterwards exactly
  the listed kinds that are installed have a watcher, beside the kinds that already had one; the
  listed kinds that are missing are remembered.\<close>

theorem rebuild_watches_installed:
  assumes "running E (m, w)" and "rebuildResourceToWatch m \<noteq> 0"
    and "buildResourceToWatch E (m, w) = (Ok (), (m', w'))" and "rebuildResourceToWatch m' = 0"
  shows "\<exists>gvksMap w1 api w2. buildList E w = (Ok gvksMap, w1) \<and> getInstalledResources E w1 = (Ok api, w2) \<and>
    watched m' = {g \<in> set (buildSortedList gvksMap). gvkInstalled (Some g) api} \<union> watched m \<and>
    unknownResourcesToWatch m' = unknownResourcesToWatch m @
      filter (\<lambda>g. \<not> gvkInstalled (Some g) api) (buildSortedList gvksMap)"
  using rebuild_run [OF assms(3)] running_empty [OF assms(1)] assms(2,4) by simp

text \<open>C23. Watchers are never cancelled: the list of the kinds watched now stays empty for the whole life
  of the agent, because copy writes no more than the length of its destination, so no pass finds a kind
  to drop. Whatever the goroutines do, in whatever order, a kind that has a watcher keeps it.\<close>

theorem watchers_never_cancelled:
  assumes "running E s" and "manager_steps E s s'"
  shows "resourcesToWatch (fst s') = [] \<and> watched (fst s) \<subseteq> watched (fst s')"
  using manager_steps_grow [OF assms(2)] running_empty [OF assms(1)] by simp

text \<open>C24. A kind that was missing when it was needed restarts the agent once it is installed: after a
  successful rebuild that listed it and did not find it, at any later time, restartIfNeeded for that
  kind sends at least one signal (here the signals are counted); a kind never recorded as missing causes none.\<close>

theorem missing_kind_restarts:
  assumes "running E (m, w)" and "updateWatchers E gs (m, w) = (Ok (), s)"
    and "g \<in> set gs" and "getInstalledResources E w = (Ok api, w1)" and "\<not> gvkInstalled (Some g) api"
    and "manager_steps E s (m', w')"
  shows "(\<exists>k > n. restartIfNeeded (\<lambda>k. (Ok (), Suc k)) (Some m') g n = (Ok (), k)) \<and>
    (g' \<notin> set (unknownResourcesToWatch m') \<longrightarrow>
      restartIfNeeded (\<lambda>k. (Ok (), Suc k)) (Some m') g' n = (Ok (), n))"
proof -
  have upd: "updateWatchers E gs (m, w) = (Ok (), (fst s, snd s))"
    using assms(2) by simp
  have "resourcesToWatch (fst s) = [] \<and> g \<in> set (unknownResourcesToWatch (fst s))"
    using updateWatchers_run [OF upd] running_empty [OF assms(1)] assms(3-5) by auto
  with manager_steps_grow [OF assms(6)] have "g \<in> set (unknownResourcesToWatch m')"
    by auto
  then have "count_list (unknownResourcesToWatch m') g \<noteq> 0"
    by (simp only: count_list_0_iff not_not)
  then show ?thesis
    by (simp add: restartIfNeeded_def restart_count)
qed

section \<open>A cluster to run on\<close>

record ref_cluster =
  rc_classifiers :: "classifier_spec server"
  rc_healthChecks :: "healthcheck_spec server"
  rc_eventSources :: "eventsource_spec server"
  rc_reloaders :: "reloader_info list server"
  rc_installed :: "(string \<times> api_resource list) list"
  rc_informers :: nat

definition ref_watch_env :: "(ref_cluster, unit) watch_env" where
  "ref_watch_env =
     \<lparr>we_lib = ref_lib,
      we_classifiers = server_client rc_classifiers (\<lambda>s w. w\<lparr>rc_classifiers := s\<rparr>),
      we_healthChecks = server_client rc_healthChecks (\<lambda>s w. w\<lparr>rc_healthChecks := s\<rparr>),
      we_eventSources = server_client rc_eventSources (\<lambda>s w. w\<lparr>rc_eventSources := s\<rparr>),
      we_reloaders = server_client rc_reloaders (\<lambda>s w. w\<lparr>rc_reloaders := s\<rparr>),
      we_discovery =
        \<lparr>NewDiscoveryClientOrDie = ret (), GetAPIGroupResources = ret (),
         RESTMapping = \<lambda>_ g k v. ret k, NewDynamicOrDie = \<lambda>_. ret (),
         dyn_List = \<lambda>_ _ _. ret []\<rparr>,
      we_NewDiscoveryClient = ret (),
      we_ServerGroupsAndResources = \<lambda>w. (Ok (rc_installed w), w),
      we_NewDynamic = ret (),
      we_WithCancel = \<lambda>g r w. (Ok (rc_informers w), w\<lparr>rc_informers := Suc (rc_informers w)\<rparr>),
      we_cancel = \<lambda>n. ret ()\<rparr>"

definition kind_of :: "string \<Rightarrow> api_resource" where
  "kind_of k = \<lparr>ar_Group = '''', ar_Version = '''', ar_Kind = k\<rparr>"

text \<open>A Classifier selects Pods and a kind that is not installed.\<close>

definition ref_cluster_start :: ref_cluster where
  "ref_cluster_start =
     \<lparr>rc_classifiers = new_server [ref_classifier []
        [pod_selector, pod_selector\<lparr>rs_Group := ''x.io'', rs_Version := ''v1'', rs_Kind := ''Missing''\<rparr>]],
      rc_healthChecks = new_server [], rc_eventSources = new_server [], rc_reloaders = new_server [],
      rc_installed = [(''v1'', [kind_of ''Pod'', kind_of ''Secret'']), (''apps/v1'', [kind_of ''Deployment''])],
      rc_informers = 0\<rparr>"

definition ref_requested :: manager where
  "ref_requested = ReEvaluateResourceToWatch (ref_manager True)"


lemma ref_running: "running ref_watch_env (ref_requested, ref_cluster_start)"
proof -
  have "InitializeManager ''cns'' ''cn'' ''capi'' 10 True None = Some (ref_manager True)"
    by (simp add: ref_manager_def InitializeManager_def)
  moreover have "manager_steps ref_watch_env (ref_manager True, ref_cluster_start) (ref_requested, ref_cluster_start)"
    unfolding ref_requested_def by (rule more [OF none local [OF ask_rebuild]])
  ultimately show ?thesis unfolding running_def by blast
qed

lemma ref_rebuild:
  "case buildResourceToWatch ref_watch_env (ref_requested, ref_cluster_start) of
     (r, (m', w')) \<Rightarrow> r = Ok () \<and> rebuildResourceToWatch m' = 0 \<and>
       map fst (watchers m') = [GVK '''' ''v1'' ''Pod'', getSecretGVK] \<and>
       unknownResourcesToWatch m' = [GVK ''x.io'' ''v1'' ''Missing'']"
  by code_simp

lemma ref_build:
  "case buildList ref_watch_env ref_cluster_start of (r, w') \<Rightarrow>
     r = Ok [(GVK '''' ''v1'' ''Pod'', True), (GVK ''x.io'' ''v1'' ''Missing'', True), (getSecretGVK, True)]"
  by code_simp

lemma ref_installed:
  "case getInstalledResources ref_watch_env ref_cluster_start of (r, w') \<Rightarrow>
     (case r of Ok api \<Rightarrow> \<not> gvkInstalled (Some (GVK ''x.io'' ''v1'' ''Missing'')) api | _ \<Rightarrow> False)"
  by code_simp

lemma ref_update:
  "fst (updateWatchers ref_watch_env [GVK ''x.io'' ''v1'' ''Missing''] (ref_requested, ref_cluster_start)) = Ok ()"
  by code_simp


theorem buildSortedList_deterministic_witness:
  "buildSortedList [(getSecretGVK, True), (GVK '''' ''v1'' ''Pod'', True)] =
     buildSortedList [(GVK '''' ''v1'' ''Pod'', True), (getSecretGVK, True)]"
  by (rule buildSortedList_deterministic) (auto simp: getSecretGVK_def)


theorem rebuild_watches_installed_witness:
  "\<exists>m' w'. buildResourceToWatch ref_watch_env (ref_requested, ref_cluster_start) = (Ok (), (m', w')) \<and>
     watched m' = {GVK '''' ''v1'' ''Pod'', getSecretGVK} \<and>
     (\<exists>gvksMap w1 api w2. buildList ref_watch_env ref_cluster_start = (Ok gvksMap, w1) \<and>
        getInstalledResources ref_watch_env w1 = (Ok api, w2) \<and>
        watched m' = {g \<in> set (buildSortedList gvksMap). gvkInstalled (Some g) api} \<union> watched ref_requested)"
proof -
  obtain m' w' where run: "buildResourceToWatch ref_watch_env (ref_requested, ref_cluster_start) = (Ok (), (m', w'))"
    and m': "rebuildResourceToWatch m' = 0" "map fst (watchers m') = [GVK '''' ''v1'' ''Pod'', getSecretGVK]"
    using ref_rebuild by (auto split: prod.splits)
  have "rebuildResourceToWatch ref_requested \<noteq> 0"
    by (simp add: ref_requested_def ReEvaluateResourceToWatch_def)
  note spec = rebuild_watches_installed [OF ref_running this run m'(1)]
  have "watched m' = {GVK '''' ''v1'' ''Pod'', getSecretGVK}"
    using arg_cong [OF m'(2), of set] by (simp add: watched_def)
  with run spec show ?thesis by blast
qed

theorem watchers_never_cancelled_witness:
  "\<exists>s'. manager_steps ref_watch_env (ref_requested, ref_cluster_start) s' \<and>
     watched (fst s') = {GVK '''' ''v1'' ''Pod'', getSecretGVK} \<and> resourcesToWatch (fst s') = []"
proof -
  obtain m' w' where run: "buildResourceToWatch ref_watch_env (ref_requested, ref_cluster_start) = (Ok (), (m', w'))"
    and m': "map fst (watchers m') = [GVK '''' ''v1'' ''Pod'', getSecretGVK]"
    using ref_rebuild by (auto split: prod.splits)
  have steps: "manager_steps ref_watch_env (ref_requested, ref_cluster_start) (m', w')"
    by (rule more [OF none rebuild [OF run]])
  have "watched m' = {GVK '''' ''v1'' ''Pod'', getSecretGVK}"
    using arg_cong [OF m', of set] by (simp add: watched_def)
  with steps watchers_never_cancelled [OF ref_running steps] show ?thesis
    by (intro exI [of _ "(m', w')"]) simp
qed

theorem missing_kind_restarts_witness:
  "\<exists>m' w' k. updateWatchers ref_watch_env [GVK ''x.io'' ''v1'' ''Missing''] (ref_requested, ref_cluster_start) =
      (Ok (), (m', w')) \<and> 0 < k \<and>
     restartIfNeeded (\<lambda>k. (Ok (), Suc k)) (Some m') (GVK ''x.io'' ''v1'' ''Missing'') 0 = (Ok (), k)"
proof -
  obtain m' w' where upd: "updateWatchers ref_watch_env [GVK ''x.io'' ''v1'' ''Missing'']
      (ref_requested, ref_cluster_start) = (Ok (), (m', w'))"
    using ref_update by (metis prod.collapse)
  obtain api w1 where api: "getInstalledResources ref_watch_env ref_cluster_start = (Ok api, w1)"
    "\<not> gvkInstalled (Some (GVK ''x.io'' ''v1'' ''Missing'')) api"
    using ref_installed by (auto split: prod.splits outcome.splits)
  from missing_kind_restarts [OF ref_running upd _ api none, of 0 getSecretGVK] upd
  show ?thesis by auto
qed

end
