(* ===== verification/Controller_Utils.thy ===== *)
theory Controller_Utils
  imports Watchers
begin

text \<open>
  controllers/utils.go and pkg/scope: what the reconcilers share. The key of an object in the
  reconcilers' maps, whether the agent has to ignore an object, finalizers, and the scope of a
  reconcile call, whose deferred Close writes the changed object back.
  Parameters: \<^verbatim>\<open>controllerutil\<close> (finalizers of an object, \<open>finalizer_ops\<close>) and cluster-api's
  patch helper (\<open>patch_ops\<close>). Their documented behaviour is the locales \<open>finalizer_contract\<close> and
  \<open>patch_contract\<close>: a helper remembers the object it was made from, and Patch sends the difference
  between that object and the one it is given. Both are met by the instances at the end.
\<close>

section \<open>Parameters\<close>

definition with_finalizers :: "string list \<Rightarrow> 'spec kobject \<Rightarrow> 'spec kobject" where
  "with_finalizers fs x = x\<lparr>metadata := (metadata x)\<lparr>om_Finalizers := fs\<rparr>\<rparr>"

record 'spec finalizer_ops =
  fz_Contains :: "'spec kobject \<Rightarrow> string \<Rightarrow> bool"
  fz_Add :: "'spec kobject \<Rightarrow> string \<Rightarrow> 'spec kobject"
  fz_Remove :: "'spec kobject \<Rightarrow> string \<Rightarrow> 'spec kobject"

record ('w, 'spec, 'h) patch_ops =
  ph_NewHelper :: "'spec kobject \<Rightarrow> ('w, 'h) act"
  ph_Patch :: "'h \<Rightarrow> 'spec kobject \<Rightarrow> ('w, unit) act"

text \<open>What a reconciler of one kind is given: the client, the helpers, the finalizer of the kind, the
  kinds the scheme knows for its type, the type information a fetched object already has.\<close>

record ('w, 'spec, 'h) ctl_env =
  ct_lib :: libsveltos
  ct_client :: "('w, 'spec) client"
  ct_patch :: "('w, 'spec, 'h) patch_ops"
  ct_finalizers :: "'spec finalizer_ops"
  ct_Finalizer :: string
  ct_ObjectKinds :: "gvk list outcome"
  ct_typeMeta :: gvk
  ct_gvkString :: "gvk \<Rightarrow> string"
  ct_APIVersionInternal :: string

section \<open>controllers/utils.go\<close>

text \<open>The three AddToScheme calls, in order.\<close>

definition InitScheme :: "('w, unit) act \<Rightarrow> ('w, unit) act \<Rightarrow> ('w, unit) act \<Rightarrow> ('w, unit) act" where
  "InitScheme addClientGo addLibsveltos addApiextensions =
     andThen addClientGo (\<lambda>_. andThen addLibsveltos (\<lambda>_. addApiextensions))"

text \<open>deleteRequeueAfter, in seconds.\<close>

definition deleteRequeueAfter :: nat where
  "deleteRequeueAfter = 20"

definition usable_kind :: "string \<Rightarrow> gvk \<Rightarrow> bool" where
  "usable_kind internal g \<longleftrightarrow> gvk_Kind g \<noteq> '''' \<and> gvk_Version g \<noteq> '''' \<and> gvk_Version g \<noteq> internal"

definition addTypeInformationToObject :: "('w, 'spec, 'h) ctl_env \<Rightarrow> gvk outcome" where
  "addTypeInformationToObject E =
     (case ct_ObjectKinds E of
        Ok gvks \<Rightarrow> (case find (usable_kind (ct_APIVersionInternal E)) gvks of
                     None \<Rightarrow> Ok (ct_typeMeta E) | Some g \<Rightarrow> Ok g)
      | _ \<Rightarrow> Panic)"

definition getKeyFromObject :: "('w, 'spec, 'h) ctl_env \<Rightarrow> 'spec kobject \<Rightarrow> object_reference outcome" where
  "getKeyFromObject E obj =
     (case addTypeInformationToObject E of
        Ok g \<Rightarrow> Ok \<lparr>or_Kind = gvk_Kind g, or_Namespace = om_Namespace (metadata obj),
                   or_Name = om_Name (metadata obj), or_APIVersion = ct_gvkString E g\<rparr>
      | _ \<Rightarrow> Panic)"

definition patchObject :: "('w, 'spec, 'h) patch_ops \<Rightarrow> 'spec kobject \<Rightarrow> ('w, unit) act" where
  "patchObject P object =
     andThen (ph_NewHelper P object) (\<lambda>helper.
     andThen (ph_Patch P helper object) (\<lambda>_. ret ()))"

text \<open>The object is changed first and the helper is made afterwards. The changed object is the
  caller's, so it comes back also when the patch fails.\<close>

definition addFinalizer :: "('w, 'spec, 'h) ctl_env \<Rightarrow> 'spec kobject \<Rightarrow> string \<Rightarrow>
    'spec kobject \<times> ('w, unit) act" where
  "addFinalizer E object finalizer =
     (let changed = fz_Add (ct_finalizers E) object finalizer in (changed, patchObject (ct_patch E) changed))"

definition removeFinalizer :: "('w, 'spec, 'h) ctl_env \<Rightarrow> 'spec kobject \<Rightarrow> string \<Rightarrow>
    'spec kobject \<times> ('w, unit) act" where
  "removeFinalizer E object finalizer =
     (let changed = fz_Remove (ct_finalizers E) object finalizer in (changed, patchObject (ct_patch E) changed))"

definition shouldIgnore :: "libsveltos \<Rightarrow> 'spec kobject \<Rightarrow> bool" where
  "shouldIgnore L obj =
     (case om_Annotations (metadata obj) of
        None \<Rightarrow> True
      | Some annotation \<Rightarrow> map_of annotation (DeployedBySveltosAnnotation L) = None)"

section \<open>pkg/scope\<close>

record ('spec, 'h) scope =
  scope_patchHelper :: 'h
  scope_object :: "'spec kobject"

text \<open>A nil client and a nil object are errors.\<close>

definition new_scope :: "string \<Rightarrow> ('w, 'spec, 'h) patch_ops option \<Rightarrow> 'spec kobject option \<Rightarrow>
    ('w, ('spec, 'h) scope) act" where
  "new_scope kind client object =
     (case client of
        None \<Rightarrow> fail (Other (''client is required when creating a '' @ kind @ ''Scope''))
      | Some P \<Rightarrow>
          (case object of
             None \<Rightarrow> fail (Other (''failed to generate new scope from nil '' @ kind))
           | Some x \<Rightarrow> andThen (ph_NewHelper P x) (\<lambda>helper.
               ret \<lparr>scope_patchHelper = helper, scope_object = x\<rparr>)))"

definition NewClassifierScope :: "('w, 'spec, 'h) patch_ops option \<Rightarrow> 'spec kobject option \<Rightarrow>
    ('w, ('spec, 'h) scope) act" where
  "NewClassifierScope = new_scope ''Classifier''"

definition NewHealthCheckScope :: "('w, 'spec, 'h) patch_ops option \<Rightarrow> 'spec kobject option \<Rightarrow>
    ('w, ('spec, 'h) scope) act" where
  "NewHealthCheckScope = new_scope ''HealthCheck''"

definition NewEventSourceScope :: "('w, 'spec, 'h) patch_ops option \<Rightarrow> 'spec kobject option \<Rightarrow>
    ('w, ('spec, 'h) scope) act" where
  "NewEventSourceScope = new_scope ''EventSource''"

definition NewReloaderScope :: "('w, 'spec, 'h) patch_ops option \<Rightarrow> 'spec kobject option \<Rightarrow>
    ('w, ('spec, 'h) scope) act" where
  "NewReloaderScope = new_scope ''Reloader''"

definition scope_PatchObject :: "('w, 'spec, 'h) patch_ops \<Rightarrow> ('spec, 'h) scope \<Rightarrow> ('w, unit) act" where
  "scope_PatchObject P s = ph_Patch P (scope_patchHelper s) (scope_object s)"

definition scope_Close :: "('w, 'spec, 'h) patch_ops \<Rightarrow> ('spec, 'h) scope \<Rightarrow> ('w, unit) act" where
  "scope_Close P s = scope_PatchObject P s"

definition scope_Name :: "('spec, 'h) scope \<Rightarrow> string" where
  "scope_Name s = om_Name (metadata (scope_object s))"

section \<open>The frame of a reconcile call\<close>

record ctrl_result =
  Requeue :: bool
  RequeueAfter :: nat

definition finished :: ctrl_result where
  "finished = \<lparr>Requeue = False, RequeueAfter = 0\<rparr>"

definition requeue_later :: ctrl_result where
  "requeue_later = \<lparr>Requeue = True, RequeueAfter = deleteRequeueAfter\<rparr>"

text \<open>The state of a reconciler: its own maps, the evaluation manager (\<^verbatim>\<open>GetManager()\<close>, nil before
  InitializeManager) and the world; inside a reconcile call the scope too.\<close>

type_synonym ('r, 'w) cstate = "'r \<times> manager option \<times> 'w"

record ('r, 'spec, 'h, 'w) rstate =
  st_reconciler :: 'r
  st_manager :: "manager option"
  st_scope :: "('spec, 'h) scope"
  st_world :: 'w

definition world_do :: "('w, 'a) act \<Rightarrow> (('r, 'spec, 'h, 'w) rstate, 'a) act" where
  "world_do f st = (case f (st_world st) of (r, w') \<Rightarrow> (r, st\<lparr>st_world := w'\<rparr>))"

definition maps_do :: "('r \<Rightarrow> 'r) \<Rightarrow> (('r, 'spec, 'h, 'w) rstate, unit) act" where
  "maps_do g st = (Ok (), st\<lparr>st_reconciler := g (st_reconciler st)\<rparr>)"

text \<open>A method of the evaluation manager, through a pointer that may be nil.\<close>

definition manager_do :: "(manager \<Rightarrow> manager) \<Rightarrow> (('r, 'spec, 'h, 'w) rstate, unit) act" where
  "manager_do g st =
     (case st_manager st of
        None \<Rightarrow> (Panic, st)
      | Some m \<Rightarrow> (Ok (), st\<lparr>st_manager := Some (g m)\<rparr>))"

definition object_do :: "('spec kobject \<Rightarrow> 'spec kobject) \<Rightarrow> (('r, 'spec, 'h, 'w) rstate, unit) act" where
  "object_do g st = (Ok (), st\<lparr>st_scope := (st_scope st)\<lparr>scope_object := g (scope_object (st_scope st))\<rparr>\<rparr>)"

definition key_do :: "('w, 'spec, 'h) ctl_env \<Rightarrow> (('r, 'spec, 'h, 'w) rstate, object_reference) act" where
  "key_do E st = (getKeyFromObject E (scope_object (st_scope st)), st)"

text \<open>Fetch the object: gone is no error; an object of somebody else is left alone.\<close>

definition fetch_object ::
  "('w, 'spec, 'h) ctl_env \<Rightarrow> string \<Rightarrow> string \<Rightarrow> ('spec kobject \<Rightarrow> (('r, 'w) cstate, ctrl_result) act) \<Rightarrow>
   (('r, 'w) cstate, ctrl_result) act" where
  "fetch_object E ns n k = (\<lambda>(r, mgr, w).
     (case cl_Get (ct_client E) ns n w of
        (Ok x, w1) \<Rightarrow> if shouldIgnore (ct_lib E) x then (Ok finished, (r, mgr, w1)) else k x (r, mgr, w1)
      | (Err e, w1) \<Rightarrow> (if e = NotFound then Ok finished else Err e, (r, mgr, w1))
      | (Panic, w1) \<Rightarrow> (Panic, (r, mgr, w1))))"

definition request_watch :: "(('r, 'w) cstate, ctrl_result) act \<Rightarrow> (('r, 'w) cstate, ctrl_result) act" where
  "request_watch k = (\<lambda>(r, mgr, w).
     (case mgr of
        None \<Rightarrow> (Panic, (r, mgr, w))
      | Some m \<Rightarrow> k (r, Some (ReEvaluateResourceToWatch m), w)))"

text \<open>The body of the call runs between the making of the scope and its deferred Close, whose error
  replaces the result; a panic goes on after Close has run.\<close>

definition with_scope ::
  "('w, ('spec, 'h) scope) act \<Rightarrow> ('w, 'spec, 'h) ctl_env \<Rightarrow>
   (('r, 'spec, 'h, 'w) rstate, ctrl_result) act \<Rightarrow> (('r, 'w) cstate, ctrl_result) act" where
  "with_scope newScope E body = (\<lambda>(r, mgr, w).
     (case newScope w of
        (Err e, w1) \<Rightarrow> (Err e, (r, mgr, w1))
      | (Panic, w1) \<Rightarrow> (Panic, (r, mgr, w1))
      | (Ok sc, w1) \<Rightarrow>
          (case body \<lparr>st_reconciler = r, st_manager = mgr, st_scope = sc, st_world = w1\<rparr> of
             (res, st) \<Rightarrow>
               (case scope_Close (ct_patch E) (st_scope st) (st_world st) of
                  (closed, w2) \<Rightarrow>
                    (case (res, closed) of
                       (Panic, _) \<Rightarrow> Panic
                     | (_, Panic) \<Rightarrow> Panic
                     | (_, Err e) \<Rightarrow> Err e
                     | (_, Ok _) \<Rightarrow> res,
                     (st_reconciler st, st_manager st, w2))))))"

text \<open>Adding the finalizer when it is missing, as every reconcileNormal starts.\<close>

definition ensure_finalizer :: "('w, 'spec, 'h) ctl_env \<Rightarrow> (('r, 'spec, 'h, 'w) rstate, unit) act" where
  "ensure_finalizer E st =
     (let x = scope_object (st_scope st) in
      if fz_Contains (ct_finalizers E) x (ct_Finalizer E) then (Ok (), st)
      else (case addFinalizer E x (ct_Finalizer E) of
              (changed, patch) \<Rightarrow>
                andThen (object_do (\<lambda>_. changed)) (\<lambda>_. world_do patch) st))"

definition drop_finalizer :: "('w, 'spec, 'h) ctl_env \<Rightarrow> (('r, 'spec, 'h, 'w) rstate, unit) act" where
  "drop_finalizer E st =
     (if fz_Contains (ct_finalizers E) (scope_object (st_scope st)) (ct_Finalizer E)
      then object_do (\<lambda>x. fz_Remove (ct_finalizers E) x (ct_Finalizer E)) st
      else (Ok (), st))"

section \<open>The contracts of the helpers\<close>

lemma with_finalizers_simps [simp]:
  "Spec (with_finalizers fs x) = Spec x"
  "status_Phase (with_finalizers fs x) = status_Phase x"
  "om_Namespace (metadata (with_finalizers fs x)) = om_Namespace (metadata x)"
  "om_Name (metadata (with_finalizers fs x)) = om_Name (metadata x)"
  "om_Labels (metadata (with_finalizers fs x)) = om_Labels (metadata x)"
  "om_Annotations (metadata (with_finalizers fs x)) = om_Annotations (metadata x)"
  "om_Finalizers (metadata (with_finalizers fs x)) = fs"
  "om_DeletionTimestamp (metadata (with_finalizers fs x)) = om_DeletionTimestamp (metadata x)"
  "om_ResourceVersion (metadata (with_finalizers fs x)) = om_ResourceVersion (metadata x)"
  "with_finalizers fs (with_finalizers gs x) = with_finalizers fs x"
  "with_finalizers (om_Finalizers (metadata x)) x = x"
  by (simp_all add: with_finalizers_def)

text \<open>The list after AddFinalizer and after RemoveFinalizer.\<close>

definition added :: "string \<Rightarrow> string list \<Rightarrow> string list" where
  "added f fs = (if f \<in> set fs then fs else fs @ [f])"

definition removed :: "string \<Rightarrow> string list \<Rightarrow> string list" where
  "removed f fs = filter (\<lambda>g. g \<noteq> f) fs"

lemma removed_same [simp]: "f \<notin> set fs \<Longrightarrow> removed f fs = fs"
  by (auto simp: removed_def intro!: filter_True)

lemma added_same: "added f fs = fs \<longleftrightarrow> f \<in> set fs"
  by (simp add: added_def)

lemma removed_eq: "removed f fs = fs \<longleftrightarrow> f \<notin> set fs" "fs = removed f fs \<longleftrightarrow> f \<notin> set fs"
proof -
  show "removed f fs = fs \<longleftrightarrow> f \<notin> set fs"
    by (auto simp: removed_def filter_id_conv)
  then show "fs = removed f fs \<longleftrightarrow> f \<notin> set fs"
    by (simp only: eq_commute [of fs])
qed

locale finalizer_contract =
  fixes F :: "'spec finalizer_ops"
  assumes contains_law [simp]: "fz_Contains F x f \<longleftrightarrow> f \<in> set (om_Finalizers (metadata x))"
    and add_law [simp]: "fz_Add F x f = with_finalizers (added f (om_Finalizers (metadata x))) x"
    and remove_law [simp]: "fz_Remove F x f = with_finalizers (removed f (om_Finalizers (metadata x))) x"

text \<open>The finalizers of one stored object are replaced; an object being deleted goes with its last one.\<close>

definition replaced :: "string \<times> string \<Rightarrow> string list \<Rightarrow> (string \<times> string \<Rightarrow> 'spec kobject option) \<Rightarrow>
    (string \<times> string \<Rightarrow> 'spec kobject option) \<Rightarrow> bool" where
  "replaced k fs s s' \<longleftrightarrow> (\<exists>old v. s k = Some old \<and>
     s' = s(k := (if om_DeletionTimestamp (metadata old) \<noteq> None \<and> fs = [] then None
                  else Some (set_version v (with_finalizers fs old)))))"

text \<open>Only finalizers are ever changed by the agent between the making of a helper and its Patch, so
  the contract speaks of those: equal to what the helper saw means that nothing is sent; otherwise the
  list is replaced in the stored object, and an object being deleted goes with its last finalizer.\<close>

locale patch_contract =
  fixes P :: "('w, 'spec, 'h) patch_ops"
    and stored :: "'w \<Rightarrow> string \<times> string \<Rightarrow> 'spec kobject option"
    and rest :: "'w \<Rightarrow> 'r"
    and base :: "'h \<Rightarrow> 'spec kobject"
  assumes new_helper_law:
      "wp (ph_NewHelper P x)
         (\<lambda>r w'. stored w' = stored w \<and> rest w' = rest w \<and>
            (case r of Ok h \<Rightarrow> base h = x | Err e \<Rightarrow> True | Panic \<Rightarrow> False)) w"
    and patch_law:
      "wp (ph_Patch P h (with_finalizers fs (base h)))
         (\<lambda>r w'. rest w' = rest w \<and>
            (case r of
               Ok _ \<Rightarrow>
                 if fs = om_Finalizers (metadata (base h)) then stored w' = stored w
                 else replaced (obj_key (base h)) fs (stored w) (stored w')
             | Err e \<Rightarrow> stored w' = stored w
             | Panic \<Rightarrow> False)) w"
begin

lemma new_helper_run:
  assumes "ph_NewHelper P x w = (r, w')"
  shows "stored w' = stored w \<and> rest w' = rest w \<and> r \<noteq> Panic \<and> (\<forall>h. r = Ok h \<longrightarrow> base h = x)"
  using wpD [OF new_helper_law assms] by (cases r) auto

lemma patch_same:
  assumes "ph_Patch P h (base h) w = (r, w')"
  shows "stored w' = stored w \<and> rest w' = rest w \<and> r \<noteq> Panic"
  using wpD [OF patch_law [of h "om_Finalizers (metadata (base h))"]] assms by (cases r) fastforce+

text \<open>A helper made from the object it is asked to patch sends nothing.\<close>

lemma patchObject_frame:
  assumes "patchObject P x w = (r, w')"
  shows "stored w' = stored w \<and> rest w' = rest w \<and> r \<noteq> Panic"
proof -
  obtain r1 w1 where new: "ph_NewHelper P x w = (r1, w1)"
    by fastforce
  note spec = new_helper_run [OF new]
  show ?thesis
  proof (cases r1)
    case (Ok h)
    obtain r2 w2 where patch: "ph_Patch P h x w1 = (r2, w2)"
      by fastforce
    with patch_same [of h w1 r2 w2] spec Ok assms new show ?thesis
      by (cases r2) (auto simp: patchObject_def run_act)
  qed (use assms new spec in \<open>auto simp: patchObject_def run_act\<close>)
qed

end

section \<open>A reconciler's surroundings\<close>

locale reconciler_world =
  api_client "ct_client E" stored rest + patch_contract "ct_patch E" stored rest base +
  finalizer_contract "ct_finalizers E"
  for E :: "('w, 'spec, 'h) ctl_env"
    and stored :: "'w \<Rightarrow> string \<times> string \<Rightarrow> 'spec kobject option"
    and rest :: "'w \<Rightarrow> 'r"
    and base :: "'h \<Rightarrow> 'spec kobject"
begin

text \<open>ensure\_finalizer changes the object in hand; the API server sees nothing of it.\<close>

lemma ensure_finalizer_run:
  assumes "ensure_finalizer E st = (r, st')"
  shows "r \<noteq> Panic \<and> stored (st_world st') = stored (st_world st) \<and> rest (st_world st') = rest (st_world st) \<and>
    st_reconciler st' = st_reconciler st \<and> st_manager st' = st_manager st \<and>
    scope_patchHelper (st_scope st') = scope_patchHelper (st_scope st) \<and>
    scope_object (st_scope st') = with_finalizers
      (added (ct_Finalizer E) (om_Finalizers (metadata (scope_object (st_scope st))))) (scope_object (st_scope st))"
proof (cases "ct_Finalizer E \<in> set (om_Finalizers (metadata (scope_object (st_scope st))))")
  case True
  with assms show ?thesis by (auto simp: ensure_finalizer_def added_def)
next
  case False
  let ?y = "with_finalizers (added (ct_Finalizer E) (om_Finalizers (metadata (scope_object (st_scope st)))))
    (scope_object (st_scope st))"
  obtain r1 w1 where patch: "patchObject (ct_patch E) ?y (st_world st) = (r1, w1)"
    by fastforce
  have "r = r1 \<and> st' = st\<lparr>st_scope := (st_scope st)\<lparr>scope_object := ?y\<rparr>, st_world := w1\<rparr>"
    using assms patch False
    by (auto simp: ensure_finalizer_def addFinalizer_def Let_def call_def object_do_def world_do_def)
  with patchObject_frame [OF patch] show ?thesis by simp
qed

text \<open>What a successful call with a scope amounts to: the body ran on the object as fetched, and what it
  did to the finalizers is what the API server has afterwards.\<close>

lemma with_scope_run:
  assumes run: "with_scope (new_scope kind (Some (ct_patch E)) (Some x)) E body (r, mgr, w) = (Ok res, (r', mgr', w'))"
  obtains h w1 st where
    "stored w1 = stored w" "rest w1 = rest w" "base h = x"
    "body \<lparr>st_reconciler = r, st_manager = mgr, st_scope = \<lparr>scope_patchHelper = h, scope_object = x\<rparr>,
       st_world = w1\<rparr> = (Ok res, st)"
    "ph_Patch (ct_patch E) (scope_patchHelper (st_scope st)) (scope_object (st_scope st)) (st_world st) = (Ok (), w')"
    "r' = st_reconciler st" "mgr' = st_manager st"
proof -
  obtain q w1 where new: "ph_NewHelper (ct_patch E) x w = (q, w1)"
    by fastforce
  with run obtain h where q: "q = Ok h"
    by (cases q) (auto simp: with_scope_def new_scope_def run_act)
  obtain res0 st where body: "body \<lparr>st_reconciler = r, st_manager = mgr,
      st_scope = \<lparr>scope_patchHelper = h, scope_object = x\<rparr>, st_world = w1\<rparr> = (res0, st)"
    by fastforce
  obtain cl w2 where close: "ph_Patch (ct_patch E) (scope_patchHelper (st_scope st)) (scope_object (st_scope st))
      (st_world st) = (cl, w2)"
    by fastforce
  have "res0 = Ok res \<and> cl = Ok () \<and> r' = st_reconciler st \<and> mgr' = st_manager st \<and> w' = w2"
    using run new q body close
    by (cases res0; cases cl) (auto simp: with_scope_def new_scope_def run_act scope_Close_def scope_PatchObject_def)
  with that [of w1 h st] new_helper_run [OF new] q body close show thesis by auto
qed

lemma close_same:
  assumes "ph_Patch (ct_patch E) h y w = (Ok (), w')" and "y = with_finalizers fs (base h)"
  shows "rest w' = rest w \<and>
    (if fs = om_Finalizers (metadata (base h)) then stored w' = stored w
     else replaced (obj_key (base h)) fs (stored w) (stored w'))"
  using wpD [OF patch_law [of h fs] assms(1) [unfolded assms(2)]] by simp

end

section \<open>Instances of the contracts\<close>

definition std_finalizers :: "'spec finalizer_ops" where
  "std_finalizers =
     \<lparr>fz_Contains = \<lambda>x f. f \<in> set (om_Finalizers (metadata x)),
      fz_Add = \<lambda>x f. with_finalizers (added f (om_Finalizers (metadata x))) x,
      fz_Remove = \<lambda>x f. with_finalizers (removed f (om_Finalizers (metadata x))) x\<rparr>"

text \<open>A helper over the API server of \<open>Api_Server\<close>: it is the object it was made from.\<close>

definition srv_patch :: "'spec kobject \<Rightarrow> string list \<Rightarrow> nat \<Rightarrow> (string \<times> string, 'spec kobject) gomap \<Rightarrow>
    unit outcome \<times> (string \<times> string, 'spec kobject) gomap" where
  "srv_patch x fs t objs =
     (case srv_lookup objs (obj_key x) of
        None \<Rightarrow> (Err NotFound, objs)
      | Some old \<Rightarrow>
          (Ok (), if om_DeletionTimestamp (metadata old) \<noteq> None \<and> fs = [] then del (obj_key x) objs
                  else put (obj_key x) (set_version t (with_finalizers fs old)) objs))"

definition server_patch :: "('w \<Rightarrow> 'spec server) \<Rightarrow> ('spec server \<Rightarrow> 'w \<Rightarrow> 'w) \<Rightarrow>
    ('w, 'spec, 'spec kobject) patch_ops" where
  "server_patch g p =
     \<lparr>ph_NewHelper = ret,
      ph_Patch = \<lambda>h y. if om_Finalizers (metadata y) = om_Finalizers (metadata h) then ret ()
        else serve g p (srv_patch h (om_Finalizers (metadata y)))\<rparr>"

lemma std_finalizers_contract: "finalizer_contract std_finalizers"
  by unfold_locales (simp_all add: std_finalizers_def)

lemma server_patch_contract:
  assumes "server_at g p rest"
  shows "patch_contract (server_patch g p) (srv_stored g) rest id"
  using assms
  by unfold_locales
    (auto simp: server_patch_def wp_def serve_def Let_def ret_def srv_patch_def server_at_def replaced_def
      split: list.splits option.splits dest!: srv_lookup_key)

interpretation std: finalizer_contract std_finalizers
  by (rule std_finalizers_contract)

interpretation one_patch: patch_contract
  "server_patch (\<lambda>s :: 'spec server. s) (\<lambda>s _. s)" "srv_stored (\<lambda>s. s)" "\<lambda>_. ()" id
  by (rule server_patch_contract) (simp add: server_at_def)

end
