(* ===== verification/Controllers.thy ===== *)
theory Controllers
  imports Controller_Utils
begin

text \<open>
  The controllers of Classifiers, HealthChecks, EventSources and Reloaders (controllers/*.go). Each
  keeps, per kind of resource, the set of objects that select it; Reconcile updates the sets and
  queues the object, react queues every object of the set of a kind that changed.
  The locale \<open>watch_index\<close> is the contract of such sets, \<open>exact_index\<close> the stronger one that only the
  Reloader controller meets: it also erases an object from the kinds it does not name any more.
  The fields of a reconciler that no method reads (run mode and identity of the cluster) are left out.
\<close>

section \<open>The sets per kind\<close>

definition insert_kinds :: "'s set_ops \<Rightarrow> gvk list \<Rightarrow> object_reference \<Rightarrow> (gvk, 's) gomap \<Rightarrow> (gvk, 's) gomap" where
  "insert_kinds S gvks policyRef m = fold (\<lambda>g. insert_at S g policyRef) gvks m"

text \<open>react: queue every object of the set of the kind; the manager pointer is used per object.\<close>

definition react_index ::
  "'s set_ops \<Rightarrow> (string \<Rightarrow> manager \<Rightarrow> manager) \<Rightarrow> (gvk, 's) gomap \<Rightarrow> gvk option \<Rightarrow>
   manager option \<Rightarrow> manager option outcome" where
  "react_index S enqueue m g mgr =
     (case g of
        None \<Rightarrow> Ok mgr
      | Some k \<Rightarrow>
          (case map_of m k of
             None \<Rightarrow> Ok mgr
           | Some v \<Rightarrow>
               (case mgr of
                  None \<Rightarrow> if set_items S v = [] then Ok None else Panic
                | Some mg \<Rightarrow> Ok (Some (fold (\<lambda>r. enqueue (or_Name r)) (set_items S v) mg)))))"

section \<open>Classifier\<close>

record 's ClassifierReconciler =
  GVKClassifiers :: "(gvk, 's) gomap"
  VersionClassifiers :: 's

definition classifier_index ::
  "'s set_ops \<Rightarrow> classifier \<Rightarrow> object_reference \<Rightarrow> (gvk, 's) gomap \<Rightarrow> (gvk, 's) gomap" where
  "classifier_index S classifier policyRef m =
     (case cs_DeployedResourceConstraint (Spec classifier) of
        None \<Rightarrow> m
      | Some d \<Rightarrow> insert_kinds S (map selector_gvk (drc_ResourceSelectors d)) policyRef m)"

definition classifier_maps ::
  "'s set_ops \<Rightarrow> classifier \<Rightarrow> object_reference \<Rightarrow> 's ClassifierReconciler \<Rightarrow> 's ClassifierReconciler" where
  "classifier_maps S classifier policyRef r =
     \<lparr>GVKClassifiers = classifier_index S classifier policyRef (GVKClassifiers r),
      VersionClassifiers =
        (if cs_KubernetesVersionConstraints (Spec classifier) = None then VersionClassifiers r
         else set_insert S (VersionClassifiers r) policyRef)\<rparr>"

definition Classifier_updateMaps ::
  "'s set_ops \<Rightarrow> ('w, classifier_spec, 'h) ctl_env \<Rightarrow>
   (('s ClassifierReconciler, classifier_spec, 'h, 'w) rstate, unit) act" where
  "Classifier_updateMaps S E st =
     (let classifier = scope_object (st_scope st) in
      andThen (key_do E) (\<lambda>policyRef. maps_do (classifier_maps S classifier policyRef)) st)"

definition Classifier_reconcileDelete ::
  "'s set_ops \<Rightarrow> ('w, classifier_spec, 'h) ctl_env \<Rightarrow>
   (('s ClassifierReconciler, classifier_spec, 'h, 'w) rstate, ctrl_result) act" where
  "Classifier_reconcileDelete S E st =
     (let name = scope_Name (st_scope st) in
      andThen (key_do E) (\<lambda>policyRef.
      andThen (maps_do (\<lambda>r. r\<lparr>VersionClassifiers := set_erase S (VersionClassifiers r) policyRef,
                               GVKClassifiers := erase_everywhere S policyRef (GVKClassifiers r)\<rparr>)) (\<lambda>_.
      andThen (manager_do (EvaluateClassifier name)) (\<lambda>_.
      andThen (drop_finalizer E) (\<lambda>_. ret finished)))) st)"

definition Classifier_reconcileNormal ::
  "'s set_ops \<Rightarrow> ('w, classifier_spec, 'h) ctl_env \<Rightarrow>
   (('s ClassifierReconciler, classifier_spec, 'h, 'w) rstate, unit) act" where
  "Classifier_reconcileNormal S E st =
     (let name = scope_Name (st_scope st) in
      andThen (ensure_finalizer E) (\<lambda>_.
      andThen (Classifier_updateMaps S E) (\<lambda>_.
        manager_do (EvaluateClassifier name))) st)"

definition Classifier_Reconcile ::
  "'s set_ops \<Rightarrow> ('w, classifier_spec, 'h) ctl_env \<Rightarrow> string \<Rightarrow> string \<Rightarrow>
   (('s ClassifierReconciler, 'w) cstate, ctrl_result) act" where
  "Classifier_Reconcile S E ns n =
     fetch_object E ns n (\<lambda>classifier.
       request_watch
         (with_scope (NewClassifierScope (Some (ct_patch E)) (Some classifier)) E
           (if om_DeletionTimestamp (metadata classifier) \<noteq> None then Classifier_reconcileDelete S E
            else andThen (Classifier_reconcileNormal S E) (\<lambda>_. ret finished))))"

definition Classifier_react ::
  "'s set_ops \<Rightarrow> 's ClassifierReconciler \<Rightarrow> gvk option \<Rightarrow> manager option \<Rightarrow> manager option outcome" where
  "Classifier_react S r = react_index S EvaluateClassifier (GVKClassifiers r)"

section \<open>HealthCheck\<close>

record 's HealthCheckReconciler =
  GVKHealthChecks :: "(gvk, 's) gomap"

text \<open>canRemoveFinalizer: the report is gone, or marked as deleted and processed.\<close>

definition report_processed :: "'rep kobject \<Rightarrow> bool" where
  "report_processed report \<longleftrightarrow>
     om_DeletionTimestamp (metadata report) \<noteq> None \<and> status_Phase report = Some ReportProcessed"

definition HealthCheck_canRemoveFinalizer :: "('w, 'rep) client \<Rightarrow> string \<Rightarrow> ('w, bool) act" where
  "HealthCheck_canRemoveFinalizer R name =
     call (cl_Get R ReportNamespace name)
       (\<lambda>e. if e = NotFound then ret True else fail e)
       (\<lambda>report. ret (report_processed report))"

text \<open>Remove the finalizer when that is allowed, and come back later otherwise.\<close>

definition finish_delete ::
  "('w, 'spec, 'h) ctl_env \<Rightarrow> ('w, bool) act \<Rightarrow> (('r, 'spec, 'h, 'w) rstate, ctrl_result) act" where
  "finish_delete E canRemoveFinalizer =
     call (world_do canRemoveFinalizer)
       (\<lambda>_. ret requeue_later)
       (\<lambda>canRemove. if canRemove then andThen (drop_finalizer E) (\<lambda>_. ret finished) else ret requeue_later)"

definition HealthCheck_cleanMaps ::
  "'s set_ops \<Rightarrow> ('w, healthcheck_spec, 'h) ctl_env \<Rightarrow>
   (('s HealthCheckReconciler, healthcheck_spec, 'h, 'w) rstate, unit) act" where
  "HealthCheck_cleanMaps S E =
     andThen (key_do E) (\<lambda>policyRef.
       maps_do (\<lambda>r. r\<lparr>GVKHealthChecks := erase_everywhere S policyRef (GVKHealthChecks r)\<rparr>))"

definition healthcheck_index ::
  "'s set_ops \<Rightarrow> healthcheck \<Rightarrow> object_reference \<Rightarrow> (gvk, 's) gomap \<Rightarrow> (gvk, 's) gomap" where
  "healthcheck_index S healthCheck policyRef =
     insert_kinds S (map selector_gvk (hcs_ResourceSelectors (Spec healthCheck))) policyRef"

definition HealthCheck_updateMaps ::
  "'s set_ops \<Rightarrow> ('w, healthcheck_spec, 'h) ctl_env \<Rightarrow>
   (('s HealthCheckReconciler, healthcheck_spec, 'h, 'w) rstate, unit) act" where
  "HealthCheck_updateMaps S E st =
     (let healthCheck = scope_object (st_scope st) in
      andThen (key_do E) (\<lambda>policyRef.
        maps_do (\<lambda>r. r\<lparr>GVKHealthChecks := healthcheck_index S healthCheck policyRef (GVKHealthChecks r)\<rparr>)) st)"

definition HealthCheck_reconcileDelete ::
  "'s set_ops \<Rightarrow> ('w, healthcheck_spec, 'h) ctl_env \<Rightarrow> ('w, 'rep) client \<Rightarrow>
   (('s HealthCheckReconciler, healthcheck_spec, 'h, 'w) rstate, ctrl_result) act" where
  "HealthCheck_reconcileDelete S E R st =
     (let name = scope_Name (st_scope st) in
      andThen (HealthCheck_cleanMaps S E) (\<lambda>_.
      andThen (manager_do (EvaluateHealthCheck name)) (\<lambda>_.
        finish_delete E (HealthCheck_canRemoveFinalizer R name))) st)"

definition HealthCheck_reconcileNormal ::
  "'s set_ops \<Rightarrow> ('w, healthcheck_spec, 'h) ctl_env \<Rightarrow>
   (('s HealthCheckReconciler, healthcheck_spec, 'h, 'w) rstate, unit) act" where
  "HealthCheck_reconcileNormal S E st =
     (let name = scope_Name (st_scope st) in
      andThen (ensure_finalizer E) (\<lambda>_.
      andThen (HealthCheck_updateMaps S E) (\<lambda>_.
        manager_do (EvaluateHealthCheck name))) st)"

definition HealthCheck_Reconcile ::
  "'s set_ops \<Rightarrow> ('w, healthcheck_spec, 'h) ctl_env \<Rightarrow> ('w, 'rep) client \<Rightarrow> string \<Rightarrow> string \<Rightarrow>
   (('s HealthCheckReconciler, 'w) cstate, ctrl_result) act" where
  "HealthCheck_Reconcile S E R ns n =
     fetch_object E ns n (\<lambda>healthCheck.
       request_watch
         (with_scope (NewHealthCheckScope (Some (ct_patch E)) (Some healthCheck)) E
           (if om_DeletionTimestamp (metadata healthCheck) \<noteq> None then HealthCheck_reconcileDelete S E R
            else andThen (HealthCheck_reconcileNormal S E) (\<lambda>_. ret finished))))"

definition HealthCheck_react ::
  "'s set_ops \<Rightarrow> 's HealthCheckReconciler \<Rightarrow> gvk option \<Rightarrow> manager option \<Rightarrow> manager option outcome" where
  "HealthCheck_react S r = react_index S EvaluateHealthCheck (GVKHealthChecks r)"

section \<open>EventSource\<close>

record 's EventSourceReconciler =
  GVKEventSources :: "(gvk, 's) gomap"

definition EventSource_cleanMaps ::
  "'s set_ops \<Rightarrow> ('w, eventsource_spec, 'h) ctl_env \<Rightarrow>
   (('s EventSourceReconciler, eventsource_spec, 'h, 'w) rstate, unit) act" where
  "EventSource_cleanMaps S E =
     andThen (key_do E) (\<lambda>policyRef.
       maps_do (\<lambda>r. r\<lparr>GVKEventSources := erase_everywhere S policyRef (GVKEventSources r)\<rparr>))"

text \<open>Here the key is computed again for every selector.\<close>

definition EventSource_updateMaps ::
  "'s set_ops \<Rightarrow> ('w, eventsource_spec, 'h) ctl_env \<Rightarrow>
   (('s EventSourceReconciler, eventsource_spec, 'h, 'w) rstate, unit) act" where
  "EventSource_updateMaps S E st =
     foldA (\<lambda>_ rs. andThen (key_do E) (\<lambda>policyRef.
         maps_do (\<lambda>r. r\<lparr>GVKEventSources := insert_at S (selector_gvk rs) policyRef (GVKEventSources r)\<rparr>)))
       () (ess_ResourceSelectors (Spec (scope_object (st_scope st)))) st"

definition EventSource_canRemoveFinalizer :: "('w, 'rep) client \<Rightarrow> string \<Rightarrow> ('w, bool) act" where
  "EventSource_canRemoveFinalizer R name =
     call (cl_Get R ReportNamespace name)
       (\<lambda>e. if e = NotFound then ret True else fail e)
       (\<lambda>eventReport.
          if om_DeletionTimestamp (metadata eventReport) = None \<or> status_Phase eventReport = None \<or>
             status_Phase eventReport \<noteq> Some ReportProcessed
          then ret False else ret True)"

definition EventSource_reconcileDelete ::
  "'s set_ops \<Rightarrow> ('w, eventsource_spec, 'h) ctl_env \<Rightarrow> ('w, 'rep) client \<Rightarrow>
   (('s EventSourceReconciler, eventsource_spec, 'h, 'w) rstate, ctrl_result) act" where
  "EventSource_reconcileDelete S E R st =
     (let name = scope_Name (st_scope st) in
      andThen (EventSource_cleanMaps S E) (\<lambda>_.
      andThen (manager_do (EvaluateEventSource name)) (\<lambda>_.
      andThen (manager_do (UnregisterNatsEventSource name)) (\<lambda>_.
        finish_delete E (EventSource_canRemoveFinalizer R name)))) st)"

definition EventSource_reconcileNormal ::
  "'s set_ops \<Rightarrow> ('w, eventsource_spec, 'h) ctl_env \<Rightarrow>
   (('s EventSourceReconciler, eventsource_spec, 'h, 'w) rstate, unit) act" where
  "EventSource_reconcileNormal S E st =
     (let name = scope_Name (st_scope st);
          criteria = ess_MessagingMatchCriteria (Spec (scope_object (st_scope st))) in
      andThen (ensure_finalizer E) (\<lambda>_.
      andThen (EventSource_updateMaps S E) (\<lambda>_.
      andThen (manager_do (EvaluateEventSource name)) (\<lambda>_.
        if criteria \<noteq> None then manager_do (RegisterNatsEventSource name)
        else manager_do (UnregisterNatsEventSource name)))) st)"

definition EventSource_Reconcile ::
  "'s set_ops \<Rightarrow> ('w, eventsource_spec, 'h) ctl_env \<Rightarrow> ('w, 'rep) client \<Rightarrow> string \<Rightarrow> string \<Rightarrow>
   (('s EventSourceReconciler, 'w) cstate, ctrl_result) act" where
  "EventSource_Reconcile S E R ns n =
     fetch_object E ns n (\<lambda>eventSource.
       request_watch
         (with_scope (NewEventSourceScope (Some (ct_patch E)) (Some eventSource)) E
           (if om_DeletionTimestamp (metadata eventSource) \<noteq> None then EventSource_reconcileDelete S E R
            else andThen (EventSource_reconcileNormal S E) (\<lambda>_. ret finished))))"

definition EventSource_react ::
  "'s set_ops \<Rightarrow> 's EventSourceReconciler \<Rightarrow> gvk option \<Rightarrow> manager option \<Rightarrow> manager option outcome" where
  "EventSource_react S r = react_index S EvaluateEventSource (GVKEventSources r)"

section \<open>Reloader\<close>

record 's ReloaderReconciler =
  GVKReloaders :: "(gvk, 's) gomap"

definition Reloader_cleanMaps ::
  "'s set_ops \<Rightarrow> ('w, reloader_info list, 'h) ctl_env \<Rightarrow>
   (('s ReloaderReconciler, reloader_info list, 'h, 'w) rstate, unit) act" where
  "Reloader_cleanMaps S E =
     andThen (key_do E) (\<lambda>policyRef.
       maps_do (\<lambda>r. r\<lparr>GVKReloaders := erase_everywhere S policyRef (GVKReloaders r)\<rparr>))"

definition reloader_kinds :: "libsveltos \<Rightarrow> reloader \<Rightarrow> (gvk, bool) gomap" where
  "reloader_kinds L reloader =
     add_all (map (\<lambda>info. GVK (apps_Group L) (apps_Version L) (ri_Kind info)) (Spec reloader)) []"

definition reloader_index ::
  "'s set_ops \<Rightarrow> libsveltos \<Rightarrow> reloader \<Rightarrow> object_reference \<Rightarrow> (gvk, 's) gomap \<Rightarrow> (gvk, 's) gomap" where
  "reloader_index S L reloader policyRef m =
     (let currentGVKs = reloader_kinds L reloader;
          erased = map (\<lambda>(g, s). (g, if g \<in> keys currentGVKs then s else set_erase S s policyRef)) m
      in insert_kinds S (map fst currentGVKs) policyRef erased)"

definition Reloader_updateMaps ::
  "'s set_ops \<Rightarrow> ('w, reloader_info list, 'h) ctl_env \<Rightarrow>
   (('s ReloaderReconciler, reloader_info list, 'h, 'w) rstate, unit) act" where
  "Reloader_updateMaps S E st =
     (let reloader = scope_object (st_scope st) in
      andThen (key_do E) (\<lambda>policyRef.
        maps_do (\<lambda>r. r\<lparr>GVKReloaders := reloader_index S (ct_lib E) reloader policyRef (GVKReloaders r)\<rparr>)) st)"

definition Reloader_reconcileDelete ::
  "'s set_ops \<Rightarrow> ('w, reloader_info list, 'h) ctl_env \<Rightarrow>
   (('s ReloaderReconciler, reloader_info list, 'h, 'w) rstate, ctrl_result) act" where
  "Reloader_reconcileDelete S E st =
     (let name = scope_Name (st_scope st) in
      andThen (Reloader_cleanMaps S E) (\<lambda>_.
      andThen (manager_do (EvaluateReloader (ct_lib E) name)) (\<lambda>_.
      andThen (drop_finalizer E) (\<lambda>_. ret finished))) st)"

definition Reloader_reconcileNormal ::
  "'s set_ops \<Rightarrow> ('w, reloader_info list, 'h) ctl_env \<Rightarrow>
   (('s ReloaderReconciler, reloader_info list, 'h, 'w) rstate, unit) act" where
  "Reloader_reconcileNormal S E st =
     (let name = scope_Name (st_scope st) in
      andThen (ensure_finalizer E) (\<lambda>_.
      andThen (Reloader_updateMaps S E) (\<lambda>_.
        manager_do (EvaluateReloader (ct_lib E) name))) st)"

text \<open>This Reconcile does not ask for a rebuild of the list of watched kinds.\<close>

definition Reloader_Reconcile ::
  "'s set_ops \<Rightarrow> ('w, reloader_info list, 'h) ctl_env \<Rightarrow> string \<Rightarrow> string \<Rightarrow>
   (('s ReloaderReconciler, 'w) cstate, ctrl_result) act" where
  "Reloader_Reconcile S E ns n =
     fetch_object E ns n (\<lambda>reloader.
       with_scope (NewReloaderScope (Some (ct_patch E)) (Some reloader)) E
         (if om_DeletionTimestamp (metadata reloader) \<noteq> None then Reloader_reconcileDelete S E
          else andThen (Reloader_reconcileNormal S E) (\<lambda>_. ret finished)))"

definition Reloader_react ::
  "'s set_ops \<Rightarrow> libsveltos \<Rightarrow> 's ReloaderReconciler \<Rightarrow> gvk option \<Rightarrow> manager option \<Rightarrow> manager option outcome" where
  "Reloader_react S L r = react_index S (EvaluateReloader L) (GVKReloaders r)"

section \<open>Keys\<close>

text \<open>The scheme knows the type, as it does for every type registered by InitScheme.\<close>

definition known_type :: "('w, 'spec, 'h) ctl_env \<Rightarrow> bool" where
  "known_type E \<longleftrightarrow> (case ct_ObjectKinds E of Ok _ \<Rightarrow> True | _ \<Rightarrow> False)"

definition object_ref :: "('w, 'spec, 'h) ctl_env \<Rightarrow> 'spec kobject \<Rightarrow> object_reference" where
  "object_ref E x = (case getKeyFromObject E x of Ok r \<Rightarrow> r
     | _ \<Rightarrow> \<lparr>or_Kind = '''', or_Namespace = '''', or_Name = '''', or_APIVersion = ''''\<rparr>)"

lemma getKeyFromObject_known: "known_type E \<Longrightarrow> getKeyFromObject E x = Ok (object_ref E x)"
  by (auto simp: object_ref_def getKeyFromObject_def addTypeInformationToObject_def known_type_def
      split: outcome.splits option.splits)

lemma object_ref_name: "known_type E \<Longrightarrow> or_Name (object_ref E x) = om_Name (metadata x)"
  by (auto simp: object_ref_def getKeyFromObject_def addTypeInformationToObject_def known_type_def
      split: outcome.splits option.splits)

lemma object_ref_finalizers [simp]: "object_ref E (with_finalizers fs x) = object_ref E x"
  by (cases "addTypeInformationToObject E") (simp_all add: object_ref_def getKeyFromObject_def)

lemma key_do_run [simp]: "known_type E \<Longrightarrow> key_do E st = (Ok (object_ref E (scope_object (st_scope st))), st)"
  by (simp add: key_do_def getKeyFromObject_known)

lemma object_ref_eq:
  assumes "known_type E"
  shows "object_ref E x = object_ref E y \<longleftrightarrow> obj_key x = obj_key y"
  using assms
  by (auto simp: object_ref_def getKeyFromObject_def addTypeInformationToObject_def known_type_def
      split: outcome.splits option.splits)

section \<open>Reconcile, step by step\<close>

lemma maps_do_run [simp]: "maps_do g st = (Ok (), st\<lparr>st_reconciler := g (st_reconciler st)\<rparr>)"
  by (simp add: maps_do_def)

lemma manager_do_run [simp]:
  "st_manager st = Some m \<Longrightarrow> manager_do g st = (Ok (), st\<lparr>st_manager := Some (g m)\<rparr>)"
  by (simp add: manager_do_def)

text \<open>What the stored objects are after the finalizer has been added to one of them.\<close>

lemma finalizer_added:
  assumes "s (obj_key x) = Some x" and "om_DeletionTimestamp (metadata x) = None"
    and "if f \<in> set (om_Finalizers (metadata x)) then s' = s
         else replaced (obj_key x) (om_Finalizers (metadata x) @ [f]) s s'"
  shows "\<exists>y. s' = s(obj_key x \<mapsto> y) \<and> f \<in> set (om_Finalizers (metadata y)) \<and> Spec y = Spec x \<and>
    om_DeletionTimestamp (metadata y) = None"
proof (cases "f \<in> set (om_Finalizers (metadata x))")
  case True
  with assms show ?thesis by (intro exI [of _ x]) (simp add: fun_upd_idem)
next
  case False
  with assms show ?thesis by (auto simp: replaced_def)
qed

context reconciler_world
begin

text \<open>An object that is there and is the agent's to handle.\<close>

lemma fetch_live:
  assumes "stored w (ns, n) = Some x" and "\<not> shouldIgnore (ct_lib E) x"
    and "fetch_object E ns n k (r, mgr, w) = (Ok res, s')"
  obtains w0 where "stored w0 = stored w" "rest w0 = rest w" "k x (r, mgr, w0) = (Ok res, s')"
proof -
  obtain r0 w0 where get: "cl_Get (ct_client E) ns n w = (r0, w0)"
    by fastforce
  show thesis
    using that [of w0] assms get wpD [OF get_law get]
    by (cases r0) (auto simp: fetch_object_def split: if_splits)
qed

text \<open>An object that is gone, or somebody else's: nothing happens.\<close>

lemma fetch_other:
  assumes "\<And>x. stored w (ns, n) = Some x \<Longrightarrow> shouldIgnore (ct_lib E) x"
    and "fetch_object E ns n k (r, mgr, w) = (res, (r', mgr', w'))"
  shows "r' = r \<and> mgr' = mgr \<and> stored w' = stored w \<and> rest w' = rest w \<and>
    (res = Ok finished \<or> (\<exists>e. res = Err e \<and> e \<noteq> NotFound))"
proof -
  obtain r0 w0 where get: "cl_Get (ct_client E) ns n w = (r0, w0)"
    by fastforce
  show ?thesis
    using assms get wpD [OF get_law get]
    by (cases r0) (auto simp: fetch_object_def split: if_splits)
qed

text \<open>The reconciliation of a live object: whatever the maps (\<open>G\<close>) and the manager (\<open>H\<close>) do, the
  finalizer ends in the stored object, by the deferred Close.\<close>

lemma reconcile_live:
  assumes run: "with_scope (new_scope kind (Some (ct_patch E)) (Some x)) E
      (call body fail (\<lambda>_. ret finished)) (r, Some m, w) = (Ok res, (r', mgr', w'))"
    and body: "\<And>st. scope_object (st_scope st) = x \<Longrightarrow> body st = call (ensure_finalizer E) fail (\<lambda>_. tail) st"
    and tail: "\<And>st. scope_object (st_scope st) = with_finalizers
        (added (ct_Finalizer E) (om_Finalizers (metadata x))) x \<Longrightarrow> st_manager st = Some m \<Longrightarrow>
      tail st = (Ok (), st\<lparr>st_reconciler := G (st_reconciler st), st_manager := Some (H m)\<rparr>)"
    and x: "stored w (obj_key x) = Some x" "om_DeletionTimestamp (metadata x) = None"
  shows "res = finished \<and> r' = G r \<and> mgr' = Some (H m) \<and> rest w' = rest w \<and>
    (\<exists>y. stored w' = (stored w)(obj_key x \<mapsto> y) \<and> ct_Finalizer E \<in> set (om_Finalizers (metadata y)) \<and>
      Spec y = Spec x \<and> om_DeletionTimestamp (metadata y) = None)"
proof -
  obtain h w1 st where start: "stored w1 = stored w" "rest w1 = rest w" "base h = x"
    and b: "call body fail (\<lambda>_. ret finished)
      \<lparr>st_reconciler = r, st_manager = Some m, st_scope = \<lparr>scope_patchHelper = h, scope_object = x\<rparr>,
       st_world = w1\<rparr> = (Ok res, st)"
    and close: "ph_Patch (ct_patch E) (scope_patchHelper (st_scope st)) (scope_object (st_scope st))
      (st_world st) = (Ok (), w')"
    and fin: "r' = st_reconciler st" "mgr' = st_manager st"
    using run by (rule with_scope_run)
  let ?st = "\<lparr>st_reconciler = r, st_manager = Some m, st_scope = \<lparr>scope_patchHelper = h, scope_object = x\<rparr>,
       st_world = w1\<rparr>"
  obtain q st1 where ens: "ensure_finalizer E ?st = (q, st1)"
    by fastforce
  note e = ensure_finalizer_run [OF ens]
  from b ens have q: "q = Ok ()"
    by (cases q) (auto simp: call_def body fail_def)
  have "tail st1 = (Ok (), st1\<lparr>st_reconciler := G (st_reconciler st1), st_manager := Some (H m)\<rparr>)"
    by (rule tail) (use e in simp_all)
  with b ens q have st: "st = st1\<lparr>st_reconciler := G (st_reconciler st1), st_manager := Some (H m)\<rparr>"
    and res: "res = finished"
    by (auto simp: call_def body ret_def)
  have "ph_Patch (ct_patch E) h (with_finalizers (added (ct_Finalizer E) (om_Finalizers (metadata x))) (base h))
      (st_world st) = (Ok (), w')"
    using close e st start by simp
  note close_same [OF this refl]
  then have closed: "rest w' = rest w" "if ct_Finalizer E \<in> set (om_Finalizers (metadata x)) then stored w' = stored w
      else replaced (obj_key x) (om_Finalizers (metadata x) @ [ct_Finalizer E]) (stored w) (stored w')"
    using e st start by (auto simp: added_def split: if_splits)
  from finalizer_added [of "stored w", OF x closed(2)] closed(1) e st fin res show ?thesis by simp
qed

lemma drop_finalizer_run:
  "drop_finalizer E st = (Ok (), st\<lparr>st_scope := (st_scope st)\<lparr>scope_object :=
     with_finalizers (removed (ct_Finalizer E) (om_Finalizers (metadata (scope_object (st_scope st)))))
       (scope_object (st_scope st))\<rparr>\<rparr>)"
  by (simp add: drop_finalizer_def object_do_def)

text \<open>The effect of a Close that has removed the finalizer of \<open>x\<close>.\<close>

lemma close_dropped:
  assumes "ph_Patch (ct_patch E) h (with_finalizers (removed f (om_Finalizers (metadata (base h)))) (base h)) w
      = (Ok (), w')"
  shows "rest w' = rest w \<and>
    (if f \<in> set (om_Finalizers (metadata (base h)))
     then replaced (obj_key (base h)) (removed f (om_Finalizers (metadata (base h)))) (stored w) (stored w')
     else stored w' = stored w)"
  using close_same [OF assms refl] by (auto simp: removed_eq split: if_splits)

text \<open>The deletion of an object without a report to wait for.\<close>

lemma reconcile_deleted:
  assumes run: "with_scope (new_scope kind (Some (ct_patch E)) (Some x)) E body (r, Some m, w) =
      (Ok res, (r', mgr', w'))"
    and body: "\<And>st. scope_object (st_scope st) = x \<Longrightarrow> st_manager st = Some m \<Longrightarrow>
      body st = call (drop_finalizer E) fail (\<lambda>_. ret finished)
        (st\<lparr>st_reconciler := G (st_reconciler st), st_manager := Some (H m)\<rparr>)"
  shows "res = finished \<and> r' = G r \<and> mgr' = Some (H m) \<and> rest w' = rest w \<and>
    (if ct_Finalizer E \<in> set (om_Finalizers (metadata x))
     then replaced (obj_key x) (removed (ct_Finalizer E) (om_Finalizers (metadata x))) (stored w) (stored w')
     else stored w' = stored w)"
proof -
  obtain h w1 st where start: "stored w1 = stored w" "rest w1 = rest w" "base h = x"
    and b: "body \<lparr>st_reconciler = r, st_manager = Some m, st_scope = \<lparr>scope_patchHelper = h, scope_object = x\<rparr>,
       st_world = w1\<rparr> = (Ok res, st)"
    and close: "ph_Patch (ct_patch E) (scope_patchHelper (st_scope st)) (scope_object (st_scope st))
      (st_world st) = (Ok (), w')"
    and fin: "r' = st_reconciler st" "mgr' = st_manager st"
    using run by (rule with_scope_run)
  from b have st: "res = finished" "st_reconciler st = G r" "st_manager st = Some (H m)" "st_world st = w1"
    "st_scope st = \<lparr>scope_patchHelper = h,
       scope_object = with_finalizers (removed (ct_Finalizer E) (om_Finalizers (metadata x))) x\<rparr>"
    by (auto simp: body call_def drop_finalizer_run ret_def)
  have "ph_Patch (ct_patch E) h (with_finalizers (removed (ct_Finalizer E) (om_Finalizers (metadata (base h)))) (base h))
      w1 = (Ok (), w')"
    using close st start by simp
  from close_dropped [OF this] start st fin show ?thesis by (auto split: if_splits)
qed

end

text \<open>The deletion of an object whose report has to be gone, or processed, first.\<close>

definition report_settled :: "('w \<Rightarrow> string \<times> string \<Rightarrow> 'rep kobject option) \<Rightarrow> 'w \<Rightarrow> string \<Rightarrow> bool" where
  "report_settled reports w n =
     (case reports w (ReportNamespace, n) of None \<Rightarrow> True | Some report \<Rightarrow> report_processed report)"

text \<open>A check that answers whether the report of \<open>n\<close> is settled, and changes nothing.\<close>

definition checks_report ::
  "('w, bool) act \<Rightarrow> ('w \<Rightarrow> string \<times> string \<Rightarrow> 'rep kobject option) \<Rightarrow> ('w \<Rightarrow> 'r) \<Rightarrow> string \<Rightarrow> bool" where
  "checks_report check reports rest n \<longleftrightarrow>
     (\<forall>w q w'. check w = (q, w') \<longrightarrow> reports w' = reports w \<and> rest w' = rest w \<and> q \<noteq> Panic \<and>
        (\<forall>b. q = Ok b \<longrightarrow> b = report_settled reports w n))"

lemma get_checks_report:
  assumes R: "api_client R reports rest"
    and check: "check = call (cl_Get R ReportNamespace n) (\<lambda>e. if e = NotFound then ret True else fail e)
      (\<lambda>report. ret (report_processed report))"
  shows "checks_report check reports rest n"
  unfolding checks_report_def
proof (intro allI impI)
  fix w q w'
  assume run: "check w = (q, w')"
  obtain r0 w0 where get: "cl_Get R ReportNamespace n w = (r0, w0)"
    by fastforce
  show "reports w' = reports w \<and> rest w' = rest w \<and> q \<noteq> Panic \<and> (\<forall>b. q = Ok b \<longrightarrow> b = report_settled reports w n)"
    using run get wpD [OF api_client.get_law [OF R] get]
    by (cases r0) (auto simp: check run_act report_settled_def split: if_splits)
qed

lemma unprocessed_answer:
  "(if om_DeletionTimestamp (metadata report) = None \<or> status_Phase report = None \<or>
       status_Phase report \<noteq> Some ReportProcessed then ret False else ret True) = ret (report_processed report)"
  by (auto simp: report_processed_def)

lemma canRemoveFinalizer_checks:
  assumes "api_client R reports rest"
  shows "checks_report (HealthCheck_canRemoveFinalizer R n) reports rest n"
    and "checks_report (EventSource_canRemoveFinalizer R n) reports rest n"
proof -
  show "checks_report (HealthCheck_canRemoveFinalizer R n) reports rest n"
    by (rule get_checks_report [OF assms]) (simp add: HealthCheck_canRemoveFinalizer_def)
  show "checks_report (EventSource_canRemoveFinalizer R n) reports rest n"
    by (rule get_checks_report [OF assms]) (simp only: EventSource_canRemoveFinalizer_def unprocessed_answer)
qed

lemma finish_delete_run:
  assumes world: "reconciler_world E stored (\<lambda>w. (reports w, other w)) base"
    and check: "checks_report check reports (\<lambda>w. (stored w, other w)) n"
    and run: "finish_delete E check st = (Ok res, st')"
  shows "stored (st_world st') = stored (st_world st) \<and> reports (st_world st') = reports (st_world st) \<and>
    other (st_world st') = other (st_world st) \<and>
    st_reconciler st' = st_reconciler st \<and> st_manager st' = st_manager st \<and>
    ((res = finished \<and> report_settled reports (st_world st) n \<and> st_scope st' = (st_scope st)\<lparr>scope_object :=
        with_finalizers (removed (ct_Finalizer E) (om_Finalizers (metadata (scope_object (st_scope st)))))
          (scope_object (st_scope st))\<rparr>) \<or>
     (res = requeue_later \<and> st_scope st' = st_scope st))"
proof -
  obtain q w0 where can: "check (st_world st) = (q, w0)"
    by fastforce
  note spec = check [unfolded checks_report_def, rule_format, OF can]
  show ?thesis
    using run can spec
    by (cases q) (auto simp: finish_delete_def call_def world_do_def ret_def fail_def
        reconciler_world.drop_finalizer_run [OF world] split: if_splits)
qed

lemma reconcile_deleted_report:
  assumes world: "reconciler_world E stored (\<lambda>w. (reports w, other w)) base"
    and check: "checks_report check reports (\<lambda>w. (stored w, other w)) n"
    and run: "with_scope (new_scope kind (Some (ct_patch E)) (Some x)) E body (r, Some m, w) =
      (Ok res, (r', mgr', w'))"
    and body: "\<And>st. scope_object (st_scope st) = x \<Longrightarrow> st_manager st = Some m \<Longrightarrow>
      body st = finish_delete E check (st\<lparr>st_reconciler := G (st_reconciler st), st_manager := Some (H m)\<rparr>)"
  shows "r' = G r \<and> mgr' = Some (H m) \<and> reports w' = reports w \<and> other w' = other w \<and>
    ((res = finished \<and> report_settled reports w n \<and>
      (if ct_Finalizer E \<in> set (om_Finalizers (metadata x))
       then replaced (obj_key x) (removed (ct_Finalizer E) (om_Finalizers (metadata x))) (stored w) (stored w')
       else stored w' = stored w)) \<or>
     (res = requeue_later \<and> stored w' = stored w))"
proof -
  obtain h w1 st where start: "stored w1 = stored w" "(reports w1, other w1) = (reports w, other w)" "base h = x"
    and b: "body \<lparr>st_reconciler = r, st_manager = Some m, st_scope = \<lparr>scope_patchHelper = h, scope_object = x\<rparr>,
       st_world = w1\<rparr> = (Ok res, st)"
    and close: "ph_Patch (ct_patch E) (scope_patchHelper (st_scope st)) (scope_object (st_scope st))
      (st_world st) = (Ok (), w')"
    and fin: "r' = st_reconciler st" "mgr' = st_manager st"
    using reconciler_world.with_scope_run [OF world run] by blast
  have settled: "report_settled reports w1 n = report_settled reports w n"
    using start by (simp add: report_settled_def)
  from b have "finish_delete E check \<lparr>st_reconciler = G r, st_manager = Some (H m),
      st_scope = \<lparr>scope_patchHelper = h, scope_object = x\<rparr>, st_world = w1\<rparr> = (Ok res, st)"
    by (simp add: body)
  note f = finish_delete_run [OF world check this, simplified, unfolded settled]
  have patch: "\<exists>fs. scope_patchHelper (st_scope st) = h \<and>
      scope_object (st_scope st) = with_finalizers fs (base h) \<and>
      (res = finished \<longrightarrow> fs = removed (ct_Finalizer E) (om_Finalizers (metadata x))) \<and>
      (res \<noteq> finished \<longrightarrow> fs = om_Finalizers (metadata x))"
    using f start by (auto simp: finished_def requeue_later_def)
  then obtain fs where fs: "scope_object (st_scope st) = with_finalizers fs (base h)"
    "res = finished \<longrightarrow> fs = removed (ct_Finalizer E) (om_Finalizers (metadata x))"
    "res \<noteq> finished \<longrightarrow> fs = om_Finalizers (metadata x)"
    and closed: "ph_Patch (ct_patch E) h (scope_object (st_scope st)) (st_world st) = (Ok (), w')"
    using close by auto
  from reconciler_world.close_same [OF world closed fs(1)] f fs(2,3) start fin show ?thesis
    by (auto simp: removed_eq finished_def requeue_later_def split: if_splits)
qed

section \<open>EventSource maps\<close>

text \<open>The sets after the loop over the selectors of an EventSource.\<close>

definition eventsource_index ::
  "'s set_ops \<Rightarrow> eventsource \<Rightarrow> object_reference \<Rightarrow> (gvk, 's) gomap \<Rightarrow> (gvk, 's) gomap" where
  "eventsource_index S eventSource policyRef =
     insert_kinds S (map selector_gvk (ess_ResourceSelectors (Spec eventSource))) policyRef"

lemma EventSource_updateMaps_run:
  assumes "known_type E"
  shows "EventSource_updateMaps S E st = (Ok (), st\<lparr>st_reconciler := (st_reconciler st)\<lparr>GVKEventSources :=
    eventsource_index S (scope_object (st_scope st)) (object_ref E (scope_object (st_scope st)))
      (GVKEventSources (st_reconciler st))\<rparr>\<rparr>)"
proof -
  have "foldA (\<lambda>_ rs. andThen (key_do E) (\<lambda>policyRef.
         maps_do (\<lambda>r. r\<lparr>GVKEventSources := insert_at S (selector_gvk rs) policyRef (GVKEventSources r)\<rparr>)))
       () rss st = (Ok (), st\<lparr>st_reconciler := (st_reconciler st)\<lparr>GVKEventSources :=
         insert_kinds S (map selector_gvk rss) (object_ref E (scope_object (st_scope st)))
           (GVKEventSources (st_reconciler st))\<rparr>\<rparr>)" for rss
    by (induction rss arbitrary: st) (simp_all add: assms call_def ret_def insert_kinds_def)
  then show ?thesis by (simp add: EventSource_updateMaps_def eventsource_index_def)
qed

section \<open>The contract of the sets per kind\<close>

text \<open>What the reconciler was told, in order: an object as it was reconciled, or its deletion. The objects
  it knows are, per reference, the last ones reconciled.\<close>

datatype 'obj told = Seen 'obj | Gone 'obj

definition tell :: "('obj \<Rightarrow> 'i \<Rightarrow> 'i) \<Rightarrow> ('obj \<Rightarrow> 'i \<Rightarrow> 'i) \<Rightarrow> 'obj told \<Rightarrow> 'i \<Rightarrow> 'i" where
  "tell upd cln ev m = (case ev of Seen x \<Rightarrow> upd x m | Gone x \<Rightarrow> cln x m)"

definition known :: "('obj \<Rightarrow> 'k) \<Rightarrow> 'obj told list \<Rightarrow> 'k \<Rightarrow> 'obj option" where
  "known ref evs =
     fold (\<lambda>ev cur. case ev of Seen x \<Rightarrow> cur(ref x \<mapsto> x) | Gone x \<Rightarrow> cur(ref x := None)) evs Map.empty"

lemma tell_simps [simp]:
  "tell upd cln (Seen x) m = upd x m"
  "tell upd cln (Gone x) m = cln x m"
  by (simp_all add: tell_def)

lemma known_simps [simp]:
  "known ref [] = Map.empty"
  "known ref (evs @ [Seen x]) = (known ref evs)(ref x \<mapsto> x)"
  "known ref (evs @ [Gone x]) = (known ref evs)(ref x := None)"
  by (simp_all add: known_def)

locale watch_index = object_set S elems
  for S :: "'s set_ops" and elems :: "'s \<Rightarrow> object_reference set" +
  fixes kinds :: "'obj \<Rightarrow> gvk set"
    and ref :: "'obj \<Rightarrow> object_reference"
    and upd :: "'obj \<Rightarrow> (gvk, 's) gomap \<Rightarrow> (gvk, 's) gomap"
    and cln :: "'obj \<Rightarrow> (gvk, 's) gomap \<Rightarrow> (gvk, 's) gomap"
  assumes upd_covers: "g \<in> kinds x \<Longrightarrow> ref x \<in> members elems (upd x m) g"
    and upd_sound: "ref x \<in> members elems (upd x m) g \<Longrightarrow> g \<in> kinds x \<or> ref x \<in> members elems m g"
    and upd_frame: "r \<noteq> ref x \<Longrightarrow> r \<in> members elems (upd x m) g \<longleftrightarrow> r \<in> members elems m g"
    and cln_members: "members elems (cln x m) g = members elems m g - {ref x}"
begin

lemma index_covers:
  "known ref evs r = Some x \<Longrightarrow> g \<in> kinds x \<Longrightarrow> r \<in> members elems (fold (tell upd cln) evs []) g"
proof (induction evs rule: rev_induct)
  case (snoc ev evs)
  then show ?case
    by (cases ev) (auto simp: cln_members upd_frame upd_covers split: if_splits)
qed simp

text \<open>An entry is never made up: the object is known, and it selected the kind at some time.\<close>

lemma index_sound:
  "r \<in> members elems (fold (tell upd cln) evs []) g \<Longrightarrow>
     known ref evs r \<noteq> None \<and> (\<exists>x. Seen x \<in> set evs \<and> ref x = r \<and> g \<in> kinds x)"
proof (induction evs rule: rev_induct)
  case (snoc ev evs)
  show ?case
  proof (cases ev)
    case (Seen x)
    show ?thesis
    proof (cases "r = ref x")
      case True
      with snoc Seen upd_sound [of x "fold (tell upd cln) evs []" g] show ?thesis
        by auto
    qed (use snoc Seen in \<open>auto simp: upd_frame\<close>)
  next
    case (Gone x)
    with snoc show ?thesis by (auto simp: cln_members)
  qed
qed simp

end

text \<open>The stronger contract: an update also takes the object out of the other kinds.\<close>

locale exact_index = object_set S elems
  for S :: "'s set_ops" and elems :: "'s \<Rightarrow> object_reference set" +
  fixes kinds :: "'obj \<Rightarrow> gvk set"
    and ref :: "'obj \<Rightarrow> object_reference"
    and upd :: "'obj \<Rightarrow> (gvk, 's) gomap \<Rightarrow> (gvk, 's) gomap"
    and cln :: "'obj \<Rightarrow> (gvk, 's) gomap \<Rightarrow> (gvk, 's) gomap"
  assumes upd_exact: "ref x \<in> members elems (upd x m) g \<longleftrightarrow> g \<in> kinds x"
    and upd_others: "r \<noteq> ref x \<Longrightarrow> r \<in> members elems (upd x m) g \<longleftrightarrow> r \<in> members elems m g"
    and cln_exact: "members elems (cln x m) g = members elems m g - {ref x}"

sublocale exact_index \<subseteq> watch_index
  by unfold_locales (simp_all add: upd_exact upd_others cln_exact)

context exact_index
begin

lemma index_exact:
  "r \<in> members elems (fold (tell upd cln) evs []) g \<longleftrightarrow> (\<exists>x. known ref evs r = Some x \<and> g \<in> kinds x)"
proof (induction evs rule: rev_induct)
  case (snoc ev evs)
  then show ?case
    by (cases ev; cases "\<exists>x. (ev = Seen x \<or> ev = Gone x) \<and> r = ref x")
      (auto simp: cln_exact upd_exact upd_others)
qed simp

text \<open>The sets refine the relation between kinds and the objects known that select them.\<close>

lemma upd_refines:
  "{(g, r). r \<in> members elems (upd x m) g} =
     {(g, r). r \<in> members elems m g \<and> r \<noteq> ref x} \<union> kinds x \<times> {ref x}"
proof -
  have "r \<in> members elems (upd x m) g \<longleftrightarrow>
      r \<in> members elems m g \<and> r \<noteq> ref x \<or> g \<in> kinds x \<and> r = ref x" for g r
    by (cases "r = ref x") (auto simp: upd_exact upd_others)
  then show ?thesis by auto
qed

end

section \<open>The controllers meet it\<close>

context object_set
begin

lemma members_insert_kinds:
  "members elems (insert_kinds S gvks r m) g =
     (if g \<in> set gvks then insert r (members elems m g) else members elems m g)"
  by (induction gvks arbitrary: m) (auto simp: insert_kinds_def)

lemma members_erase_some:
  "members elems (map (\<lambda>(g, s). (g, if g \<in> A then s else set_erase S s r)) m) g =
     (if g \<in> A then members elems m g else members elems m g - {r})"
  by (induction m) (auto simp: members_def)

lemma classifier_watch_index:
  "watch_index S elems classifier_gvks ref
     (\<lambda>x. classifier_index S x (ref x)) (\<lambda>x. erase_everywhere S (ref x))"
  by unfold_locales
    (auto simp: classifier_index_def classifier_gvks_def members_insert_kinds split: option.splits if_splits)

lemma healthcheck_watch_index:
  "watch_index S elems (\<lambda>x. selector_gvk ` set (hcs_ResourceSelectors (Spec x))) ref
     (\<lambda>x. healthcheck_index S x (ref x)) (\<lambda>x. erase_everywhere S (ref x))"
  by unfold_locales (auto simp: healthcheck_index_def members_insert_kinds split: if_splits)

lemma eventsource_watch_index:
  "watch_index S elems (\<lambda>x. selector_gvk ` set (ess_ResourceSelectors (Spec x))) ref
     (\<lambda>x. eventsource_index S x (ref x)) (\<lambda>x. erase_everywhere S (ref x))"
  by unfold_locales (auto simp: eventsource_index_def members_insert_kinds split: if_splits)

lemma reloader_exact_index:
  "exact_index S elems (\<lambda>x. keys (reloader_kinds L x)) ref
     (\<lambda>x. reloader_index S L x (ref x)) (\<lambda>x. erase_everywhere S (ref x))"
  by unfold_locales
    (auto simp: reloader_index_def Let_def members_insert_kinds members_erase_some split: if_splits)

end

interpretation classifier_sets: watch_index "list_set b" set classifier_gvks ref
  "\<lambda>x. classifier_index (list_set b) x (ref x)" "\<lambda>x. erase_everywhere (list_set b) (ref x)"
  by (rule lset.classifier_watch_index)

interpretation healthcheck_sets: watch_index "list_set b" set
  "\<lambda>x. selector_gvk ` set (hcs_ResourceSelectors (Spec x))" ref
  "\<lambda>x. healthcheck_index (list_set b) x (ref x)" "\<lambda>x. erase_everywhere (list_set b) (ref x)"
  by (rule lset.healthcheck_watch_index)

interpretation eventsource_sets: watch_index "list_set b" set
  "\<lambda>x. selector_gvk ` set (ess_ResourceSelectors (Spec x))" ref
  "\<lambda>x. eventsource_index (list_set b) x (ref x)" "\<lambda>x. erase_everywhere (list_set b) (ref x)"
  by (rule lset.eventsource_watch_index)

interpretation reloader_sets: exact_index "list_set b" set "\<lambda>x. keys (reloader_kinds L x)" ref
  "\<lambda>x. reloader_index (list_set b) L x (ref x)" "\<lambda>x. erase_everywhere (list_set b) (ref x)"
  by (rule lset.reloader_exact_index)

section \<open>What react queues\<close>

lemma keys_enqueue:
  "keys (classifierJobQueue (fold (\<lambda>r. EvaluateClassifier (or_Name r)) rs m)) =
     or_Name ` set rs \<union> keys (classifierJobQueue m)"
  "keys (healthCheckJobQueue (fold (\<lambda>r. EvaluateHealthCheck (or_Name r)) rs m)) =
     or_Name ` set rs \<union> keys (healthCheckJobQueue m)"
  "keys (eventSourceJobQueue (fold (\<lambda>r. EvaluateEventSource (or_Name r)) rs m)) =
     or_Name ` set rs \<union> keys (eventSourceJobQueue m)"
  "keys (reloaderJobQueue (fold (\<lambda>r. EvaluateReloader L (or_Name r)) rs m)) =
     (\<lambda>r. reloader_key L (or_Name r)) ` set rs \<union> keys (reloaderJobQueue m)"
  by (induction rs arbitrary: m)
    (auto simp: EvaluateClassifier_def EvaluateHealthCheck_def EvaluateEventSource_def EvaluateReloader_def)

text \<open>react always succeeds when there is a manager, and enqueues the members of the set of the kind.\<close>

context object_set
begin

lemma react_index_run:
  "\<exists>rs. react_index S enqueue m (Some g) (Some mg) = Ok (Some (fold (\<lambda>r. enqueue (or_Name r)) rs mg)) \<and>
     set rs = members elems m g"
  by (rule exI [of _ "case map_of m g of None \<Rightarrow> [] | Some v \<Rightarrow> set_items S v"])
    (simp add: react_index_def members_def split: option.splits)

end

text \<open>The method registered with the evaluation manager, as its notification function calls it: with a kind, and with
  the manager itself behind the pointer.\<close>

definition as_method ::
  "(gvk option \<Rightarrow> manager option \<Rightarrow> manager option outcome) \<Rightarrow> gvk \<Rightarrow> unstructured option \<Rightarrow> manager \<Rightarrow> manager" where
  "as_method f g obj m = (case f (Some g) (Some m) of Ok (Some m') \<Rightarrow> m' | _ \<Rightarrow> m)"

context object_set
begin

lemma as_method_run:
  obtains rs where "as_method (react_index S enqueue m) g obj mg = fold (\<lambda>r. enqueue (or_Name r)) rs mg"
    and "set rs = members elems m g"
  using react_index_run [of enqueue m g mg] by (auto simp: as_method_def)

end

lemma known_ref: "known ref evs q = Some x \<Longrightarrow> ref x = q"
proof (induction evs arbitrary: q x rule: rev_induct)
  case (snoc ev evs)
  then show ?case by (cases ev) (auto split: if_splits)
qed simp

text \<open>Queueing for one controller leaves the queues of the others, and the registrations, alone.\<close>

lemma enqueue_frame [simp]:
  "healthCheckJobQueue (fold (\<lambda>r. EvaluateClassifier (or_Name r)) rs m) = healthCheckJobQueue m"
  "eventSourceJobQueue (fold (\<lambda>r. EvaluateClassifier (or_Name r)) rs m) = eventSourceJobQueue m"
  "reloaderJobQueue (fold (\<lambda>r. EvaluateClassifier (or_Name r)) rs m) = reloaderJobQueue m"
  "classifierJobQueue (fold (\<lambda>r. EvaluateHealthCheck (or_Name r)) rs m) = classifierJobQueue m"
  "eventSourceJobQueue (fold (\<lambda>r. EvaluateHealthCheck (or_Name r)) rs m) = eventSourceJobQueue m"
  "reloaderJobQueue (fold (\<lambda>r. EvaluateHealthCheck (or_Name r)) rs m) = reloaderJobQueue m"
  "classifierJobQueue (fold (\<lambda>r. EvaluateEventSource (or_Name r)) rs m) = classifierJobQueue m"
  "healthCheckJobQueue (fold (\<lambda>r. EvaluateEventSource (or_Name r)) rs m) = healthCheckJobQueue m"
  "reloaderJobQueue (fold (\<lambda>r. EvaluateEventSource (or_Name r)) rs m) = reloaderJobQueue m"
  "classifierJobQueue (fold (\<lambda>r. EvaluateReloader L (or_Name r)) rs m) = classifierJobQueue m"
  "healthCheckJobQueue (fold (\<lambda>r. EvaluateReloader L (or_Name r)) rs m) = healthCheckJobQueue m"
  "eventSourceJobQueue (fold (\<lambda>r. EvaluateReloader L (or_Name r)) rs m) = eventSourceJobQueue m"
  by (induction rs arbitrary: m)
    (simp_all add: EvaluateClassifier_def EvaluateHealthCheck_def EvaluateEventSource_def EvaluateReloader_def)

lemma registered_frame [simp]:
  "reactHealthCheck (fold (\<lambda>r. EvaluateClassifier (or_Name r)) rs m) = reactHealthCheck m"
  "reactEventSource (fold (\<lambda>r. EvaluateClassifier (or_Name r)) rs m) = reactEventSource m"
  "reactReloader (fold (\<lambda>r. EvaluateClassifier (or_Name r)) rs m) = reactReloader m"
  "reactEventSource (fold (\<lambda>r. EvaluateHealthCheck (or_Name r)) rs m) = reactEventSource m"
  "reactReloader (fold (\<lambda>r. EvaluateHealthCheck (or_Name r)) rs m) = reactReloader m"
  "reactReloader (fold (\<lambda>r. EvaluateEventSource (or_Name r)) rs m) = reactReloader m"
  by (induction rs arbitrary: m)
    (simp_all add: EvaluateClassifier_def EvaluateHealthCheck_def EvaluateEventSource_def)

section \<open>Properties\<close>

text \<open>Every Reconcile starts by fetching the object; all but the Reloader's then ask for a rebuild.\<close>

lemma reconcile_start:
  assumes world: "reconciler_world E stored rest base"
    and x: "stored w (ns, n) = Some x" and mine: "\<not> shouldIgnore (ct_lib E) x"
    and run: "fetch_object E ns n (\<lambda>x. request_watch (k x)) (r, Some m, w) = (Ok res, s')"
  obtains w0 where "stored w0 = stored w" "rest w0 = rest w" "obj_key x = (ns, n)"
    "k x (r, Some (ReEvaluateResourceToWatch m), w0) = (Ok res, s')"
  using reconciler_world.fetch_live [OF world x mine run]
    api_client.stored_key [OF reconciler_world.axioms(1) [OF world] x] that
  by (auto simp: request_watch_def)

text \<open>What a successful Reconcile of a live Classifier does.\<close>

lemma Classifier_live_run:
  assumes world: "reconciler_world E stored rest base" and known: "known_type E"
    and x: "stored w (ns, n) = Some x" and mine: "\<not> shouldIgnore (ct_lib E) x"
    and live: "om_DeletionTimestamp (metadata x) = None"
    and run: "Classifier_Reconcile S E ns n (r, Some m, w) = (Ok res, (r', mgr', w'))"
  shows "res = finished \<and> r' = classifier_maps S x (object_ref E x) r \<and>
    mgr' = Some (EvaluateClassifier n (ReEvaluateResourceToWatch m)) \<and> rest w' = rest w \<and>
    (\<exists>y. stored w' = (stored w)((ns, n) \<mapsto> y) \<and> ct_Finalizer E \<in> set (om_Finalizers (metadata y)) \<and>
      Spec y = Spec x \<and> om_DeletionTimestamp (metadata y) = None)"
proof -
  obtain w0 where w0: "stored w0 = stored w" "rest w0 = rest w" and key: "obj_key x = (ns, n)"
    and k: "with_scope (new_scope ''Classifier'' (Some (ct_patch E)) (Some x)) E
      (call (Classifier_reconcileNormal S E) fail (\<lambda>_. ret finished))
      (r, Some (ReEvaluateResourceToWatch m), w0) = (Ok res, (r', mgr', w'))"
    using reconcile_start [OF world x mine run [unfolded Classifier_Reconcile_def]] live
    by (auto simp: NewClassifierScope_def)
  have "res = finished \<and> r' = classifier_maps S x (object_ref E x) r \<and>
      mgr' = Some (EvaluateClassifier n (ReEvaluateResourceToWatch m)) \<and> rest w' = rest w0 \<and>
      (\<exists>y. stored w' = (stored w0)(obj_key x \<mapsto> y) \<and> ct_Finalizer E \<in> set (om_Finalizers (metadata y)) \<and>
        Spec y = Spec x \<and> om_DeletionTimestamp (metadata y) = None)"
    by (rule reconciler_world.reconcile_live [OF world k,
          where tail = "andThen (Classifier_updateMaps S E) (\<lambda>_. manager_do (EvaluateClassifier n))"])
      (use key known x live w0 in \<open>simp_all add: Classifier_reconcileNormal_def scope_Name_def
         Classifier_updateMaps_def call_def classifier_maps_def classifier_index_def\<close>)
  with w0 key show ?thesis by simp
qed

text \<open>The same for a live HealthCheck and a live EventSource.\<close>

lemma HealthCheck_live_run:
  assumes world: "reconciler_world E stored rest base" and known: "known_type E"
    and x: "stored w (ns, n) = Some x" and mine: "\<not> shouldIgnore (ct_lib E) x"
    and live: "om_DeletionTimestamp (metadata x) = None"
    and run: "HealthCheck_Reconcile S E R ns n (r, Some m, w) = (Ok res, (r', mgr', w'))"
  shows "res = finished \<and> r' = r\<lparr>GVKHealthChecks := healthcheck_index S x (object_ref E x) (GVKHealthChecks r)\<rparr> \<and>
    mgr' = Some (EvaluateHealthCheck n (ReEvaluateResourceToWatch m)) \<and> rest w' = rest w \<and>
    (\<exists>y. stored w' = (stored w)((ns, n) \<mapsto> y) \<and> ct_Finalizer E \<in> set (om_Finalizers (metadata y)) \<and>
      Spec y = Spec x \<and> om_DeletionTimestamp (metadata y) = None)"
proof -
  obtain w0 where w0: "stored w0 = stored w" "rest w0 = rest w" and key: "obj_key x = (ns, n)"
    and k: "with_scope (new_scope ''HealthCheck'' (Some (ct_patch E)) (Some x)) E
      (call (HealthCheck_reconcileNormal S E) fail (\<lambda>_. ret finished))
      (r, Some (ReEvaluateResourceToWatch m), w0) = (Ok res, (r', mgr', w'))"
    using reconcile_start [OF world x mine run [unfolded HealthCheck_Reconcile_def]] live
    by (auto simp: NewHealthCheckScope_def)
  have "res = finished \<and> r' = r\<lparr>GVKHealthChecks := healthcheck_index S x (object_ref E x) (GVKHealthChecks r)\<rparr> \<and>
      mgr' = Some (EvaluateHealthCheck n (ReEvaluateResourceToWatch m)) \<and> rest w' = rest w0 \<and>
      (\<exists>y. stored w' = (stored w0)(obj_key x \<mapsto> y) \<and> ct_Finalizer E \<in> set (om_Finalizers (metadata y)) \<and>
        Spec y = Spec x \<and> om_DeletionTimestamp (metadata y) = None)"
    by (rule reconciler_world.reconcile_live [OF world k,
          where tail = "andThen (HealthCheck_updateMaps S E) (\<lambda>_. manager_do (EvaluateHealthCheck n))"])
      (use key known x live w0 in \<open>simp_all add: HealthCheck_reconcileNormal_def scope_Name_def
         HealthCheck_updateMaps_def healthcheck_index_def call_def Let_def\<close>)
  with w0 key show ?thesis by simp
qed

lemma EventSource_live_run:
  assumes world: "reconciler_world E stored rest base" and known: "known_type E"
    and x: "stored w (ns, n) = Some x" and mine: "\<not> shouldIgnore (ct_lib E) x"
    and live: "om_DeletionTimestamp (metadata x) = None"
    and run: "EventSource_Reconcile S E R ns n (r, Some m, w) = (Ok res, (r', mgr', w'))"
  shows "res = finished \<and> r' = r\<lparr>GVKEventSources := eventsource_index S x (object_ref E x) (GVKEventSources r)\<rparr> \<and>
    mgr' = Some ((if ess_MessagingMatchCriteria (Spec x) \<noteq> None then RegisterNatsEventSource n
      else UnregisterNatsEventSource n) (EvaluateEventSource n (ReEvaluateResourceToWatch m))) \<and> rest w' = rest w \<and>
    (\<exists>y. stored w' = (stored w)((ns, n) \<mapsto> y) \<and> ct_Finalizer E \<in> set (om_Finalizers (metadata y)) \<and>
      Spec y = Spec x \<and> om_DeletionTimestamp (metadata y) = None)"
proof -
  obtain w0 where w0: "stored w0 = stored w" "rest w0 = rest w" and key: "obj_key x = (ns, n)"
    and k: "with_scope (new_scope ''EventSource'' (Some (ct_patch E)) (Some x)) E
      (call (EventSource_reconcileNormal S E) fail (\<lambda>_. ret finished))
      (r, Some (ReEvaluateResourceToWatch m), w0) = (Ok res, (r', mgr', w'))"
    using reconcile_start [OF world x mine run [unfolded EventSource_Reconcile_def]] live
    by (auto simp: NewEventSourceScope_def)
  let ?nats = "if ess_MessagingMatchCriteria (Spec x) \<noteq> None then RegisterNatsEventSource n
    else UnregisterNatsEventSource n"
  let ?m = "?nats (EvaluateEventSource n (ReEvaluateResourceToWatch m))"
  have "res = finished \<and> r' = r\<lparr>GVKEventSources := eventsource_index S x (object_ref E x) (GVKEventSources r)\<rparr> \<and>
      mgr' = Some ?m \<and> rest w' = rest w0 \<and>
      (\<exists>y. stored w' = (stored w0)(obj_key x \<mapsto> y) \<and> ct_Finalizer E \<in> set (om_Finalizers (metadata y)) \<and>
        Spec y = Spec x \<and> om_DeletionTimestamp (metadata y) = None)"
    by (rule reconciler_world.reconcile_live [OF world k,
          where tail = "andThen (EventSource_updateMaps S E) (\<lambda>_. andThen (manager_do (EvaluateEventSource n))
            (\<lambda>_. manager_do ?nats))" and H = "\<lambda>m. ?nats (EvaluateEventSource n m)"])
      (use key known x live w0 in \<open>auto simp: EventSource_reconcileNormal_def scope_Name_def Let_def
         EventSource_updateMaps_run call_def eventsource_index_def fun_eq_iff\<close>)
  with w0 key show ?thesis by simp
qed

text \<open>C9. Reconciling a live Classifier: when Reconcile succeeds on a Classifier deployed by Sveltos that is not
  being deleted, the Classifier is queued for evaluation, a rebuild of the watched kinds is requested,
  the sets have it under every kind it selects, and the stored Classifier has the finalizer; no other
  stored object changes.\<close>

theorem Classifier_Reconcile_live:
  assumes world: "reconciler_world E stored rest base" and "object_set S elems" and known: "known_type E"
    and x: "stored w (ns, n) = Some x" and mine: "\<not> shouldIgnore (ct_lib E) x"
    and live: "om_DeletionTimestamp (metadata x) = None"
    and run: "Classifier_Reconcile S E ns n (r, Some m, w) = (Ok res, (r', mgr', w'))"
  shows "res = finished \<and> mgr' = Some (EvaluateClassifier n (ReEvaluateResourceToWatch m)) \<and>
    r' = classifier_maps S x (object_ref E x) r \<and>
    (\<forall>g \<in> classifier_gvks x. object_ref E x \<in> members elems (GVKClassifiers r') g) \<and>
    (\<exists>y. stored w' = (stored w)((ns, n) \<mapsto> y) \<and> ct_Finalizer E \<in> set (om_Finalizers (metadata y)) \<and>
      Spec y = Spec x \<and> om_DeletionTimestamp (metadata y) = None) \<and> rest w' = rest w"
  using Classifier_live_run [OF world known x mine live run]
    watch_index.upd_covers [OF object_set.classifier_watch_index [OF assms(2)], of _ x "\<lambda>_. object_ref E x"]
  by (simp add: classifier_maps_def)

text \<open>C25. Reconciling a live EventSource: when Reconcile succeeds on an EventSource deployed by Sveltos that is
  not being deleted, it is queued, it is registered for CloudEvents exactly when it has messaging
  criteria, the sets have it under every kind it selects, and the stored EventSource has the finalizer.\<close>

theorem EventSource_Reconcile_live:
  assumes world: "reconciler_world E stored rest base" and "object_set S elems" and known: "known_type E"
    and x: "stored w (ns, n) = Some x" and mine: "\<not> shouldIgnore (ct_lib E) x"
    and live: "om_DeletionTimestamp (metadata x) = None"
    and run: "EventSource_Reconcile S E R ns n (r, Some m, w) = (Ok res, (r', mgr', w'))"
  shows "res = finished \<and>
    (\<exists>m'. mgr' = Some m' \<and> n \<in> keys (eventSourceJobQueue m') \<and> rebuildResourceToWatch m' = 1 \<and>
       (n \<in> keys (natsEventSources m') \<longleftrightarrow> ess_MessagingMatchCriteria (Spec x) \<noteq> None) \<and>
       (\<forall>n'. n' \<noteq> n \<longrightarrow> n' \<in> keys (natsEventSources m') \<longleftrightarrow> n' \<in> keys (natsEventSources m))) \<and>
    GVKEventSources r' = eventsource_index S x (object_ref E x) (GVKEventSources r) \<and>
    (\<forall>g \<in> selector_gvk ` set (ess_ResourceSelectors (Spec x)).
       object_ref E x \<in> members elems (GVKEventSources r') g) \<and>
    (\<exists>y. stored w' = (stored w)((ns, n) \<mapsto> y) \<and> ct_Finalizer E \<in> set (om_Finalizers (metadata y)) \<and>
      Spec y = Spec x \<and> om_DeletionTimestamp (metadata y) = None) \<and> rest w' = rest w"
proof -
  let ?nats = "if ess_MessagingMatchCriteria (Spec x) \<noteq> None then RegisterNatsEventSource n
    else UnregisterNatsEventSource n"
  let ?m = "?nats (EvaluateEventSource n (ReEvaluateResourceToWatch m))"
  have "n \<in> keys (eventSourceJobQueue ?m)" "rebuildResourceToWatch ?m = 1"
    "n \<in> keys (natsEventSources ?m) \<longleftrightarrow> ess_MessagingMatchCriteria (Spec x) \<noteq> None"
    "n' \<noteq> n \<Longrightarrow> n' \<in> keys (natsEventSources ?m) \<longleftrightarrow> n' \<in> keys (natsEventSources m)" for n'
    by (auto simp: manager_ops)
  with EventSource_live_run [OF world known x mine live run] show ?thesis
    using watch_index.upd_covers [OF object_set.eventsource_watch_index [OF assms(2)], of _ x "\<lambda>_. object_ref E x"]
    by simp
qed

text \<open>C26. Reconciling a Classifier that is being deleted: it is queued (so that its report is removed), it is in
  no set any more, and the finalizer is gone from the stored Classifier, which disappears when that
  was its last one.\<close>

theorem Classifier_Reconcile_deleted:
  assumes world: "reconciler_world E stored rest base" and "object_set S elems" and known: "known_type E"
    and x: "stored w (ns, n) = Some x" and mine: "\<not> shouldIgnore (ct_lib E) x"
    and del: "om_DeletionTimestamp (metadata x) \<noteq> None"
    and f: "ct_Finalizer E \<in> set (om_Finalizers (metadata x))"
    and run: "Classifier_Reconcile S E ns n (r, Some m, w) = (Ok res, (r', mgr', w'))"
  shows "mgr' = Some (EvaluateClassifier n (ReEvaluateResourceToWatch m)) \<and>
    (\<forall>g. members elems (GVKClassifiers r') g = members elems (GVKClassifiers r) g - {object_ref E x}) \<and>
    elems (VersionClassifiers r') = elems (VersionClassifiers r) - {object_ref E x} \<and>
    (\<forall>k. k \<noteq> (ns, n) \<longrightarrow> stored w' k = stored w k) \<and>
    (case stored w' (ns, n) of
       None \<Rightarrow> removed (ct_Finalizer E) (om_Finalizers (metadata x)) = []
     | Some y \<Rightarrow> om_Finalizers (metadata y) = removed (ct_Finalizer E) (om_Finalizers (metadata x)) \<and>
         om_Finalizers (metadata y) \<noteq> [])"
proof -
  obtain w0 where w0: "stored w0 = stored w" "rest w0 = rest w" and key: "obj_key x = (ns, n)"
    and k: "with_scope (new_scope ''Classifier'' (Some (ct_patch E)) (Some x)) E
      (Classifier_reconcileDelete S E)
      (r, Some (ReEvaluateResourceToWatch m), w0) = (Ok res, (r', mgr', w'))"
    using reconcile_start [OF world x mine run [unfolded Classifier_Reconcile_def]] del
    by (auto simp: NewClassifierScope_def)
  have "res = finished \<and> r' = r\<lparr>VersionClassifiers := set_erase S (VersionClassifiers r) (object_ref E x),
        GVKClassifiers := erase_everywhere S (object_ref E x) (GVKClassifiers r)\<rparr> \<and>
      mgr' = Some (EvaluateClassifier n (ReEvaluateResourceToWatch m)) \<and> rest w' = rest w0 \<and>
      (if ct_Finalizer E \<in> set (om_Finalizers (metadata x))
       then replaced (obj_key x) (removed (ct_Finalizer E) (om_Finalizers (metadata x))) (stored w0) (stored w')
       else stored w' = stored w0)"
    by (rule reconciler_world.reconcile_deleted [OF world k])
      (use key known in \<open>simp add: Classifier_reconcileDelete_def scope_Name_def Let_def call_def\<close>)
  with w0 f key x del show ?thesis
    by (auto simp: replaced_def object_set.members_erase_everywhere [OF assms(2)] object_set.elems_erase [OF assms(2)])
qed

text \<open>A HealthCheck that is being deleted stays until its report has been dealt with: when Reconcile
  succeeds on it, the HealthCheck is queued and in no set any more; if the stored HealthCheck changes
  at all, its report was gone, or marked as deleted and processed by the management cluster; otherwise
  the reconciliation is repeated later.\<close>

theorem HealthCheck_Reconcile_deleted:
  assumes world: "reconciler_world E stored (\<lambda>w. (reports w, other w)) base"
    and R: "api_client R reports (\<lambda>w. (stored w, other w))"
    and "object_set S elems" and known: "known_type E"
    and x: "stored w (ns, n) = Some x" and mine: "\<not> shouldIgnore (ct_lib E) x"
    and del: "om_DeletionTimestamp (metadata x) \<noteq> None"
    and run: "HealthCheck_Reconcile S E R ns n (r, Some m, w) = (Ok res, (r', mgr', w'))"
  shows "mgr' = Some (EvaluateHealthCheck n (ReEvaluateResourceToWatch m)) \<and>
    (\<forall>g. members elems (GVKHealthChecks r') g = members elems (GVKHealthChecks r) g - {object_ref E x}) \<and>
    reports w' = reports w \<and>
    ((res = requeue_later \<and> stored w' = stored w) \<or>
     (res = finished \<and> report_settled reports w n \<and>
      (\<forall>k. k \<noteq> (ns, n) \<longrightarrow> stored w' k = stored w k) \<and>
      (case stored w' (ns, n) of
         None \<Rightarrow> removed (ct_Finalizer E) (om_Finalizers (metadata x)) = []
       | Some y \<Rightarrow> om_Finalizers (metadata y) = removed (ct_Finalizer E) (om_Finalizers (metadata x)))))"
proof -
  obtain w0 where w0: "stored w0 = stored w" "(reports w0, other w0) = (reports w, other w)"
    and key: "obj_key x = (ns, n)"
    and k: "with_scope (new_scope ''HealthCheck'' (Some (ct_patch E)) (Some x)) E
      (HealthCheck_reconcileDelete S E R)
      (r, Some (ReEvaluateResourceToWatch m), w0) = (Ok res, (r', mgr', w'))"
    using reconcile_start [OF world x mine run [unfolded HealthCheck_Reconcile_def]] del
    by (auto simp: NewHealthCheckScope_def)
  have "r' = r\<lparr>GVKHealthChecks := erase_everywhere S (object_ref E x) (GVKHealthChecks r)\<rparr> \<and>
      mgr' = Some (EvaluateHealthCheck n (ReEvaluateResourceToWatch m)) \<and>
      reports w' = reports w0 \<and> other w' = other w0 \<and>
      ((res = finished \<and> report_settled reports w0 n \<and>
        (if ct_Finalizer E \<in> set (om_Finalizers (metadata x))
         then replaced (obj_key x) (removed (ct_Finalizer E) (om_Finalizers (metadata x))) (stored w0) (stored w')
         else stored w' = stored w0)) \<or>
       (res = requeue_later \<and> stored w' = stored w0))"
    by (rule reconcile_deleted_report [OF world canRemoveFinalizer_checks(1) [OF R] k])
      (use key known in \<open>simp add: HealthCheck_reconcileDelete_def HealthCheck_cleanMaps_def scope_Name_def
         Let_def call_def\<close>)
  with w0 key x del show ?thesis
    by (auto simp: replaced_def report_settled_def object_set.members_erase_everywhere [OF assms(3)] split: if_splits)
qed

text \<open>C14. An EventSource that is being deleted stays until its report has been dealt with, and gets no CloudEvents in the
  meantime: when Reconcile succeeds on it, it is queued, in no set any more and not registered for CloudEvents,
  and no other EventSource is affected; if the stored EventSource changes at all, its report was gone, or marked as
  deleted and processed by the management cluster; otherwise the reconciliation is repeated later.\<close>

theorem EventSource_Reconcile_deleted:
  assumes world: "reconciler_world E stored (\<lambda>w. (reports w, other w)) base"
    and R: "api_client R reports (\<lambda>w. (stored w, other w))"
    and "object_set S elems" and known: "known_type E"
    and x: "stored w (ns, n) = Some x" and mine: "\<not> shouldIgnore (ct_lib E) x"
    and del: "om_DeletionTimestamp (metadata x) \<noteq> None"
    and run: "EventSource_Reconcile S E R ns n (r, Some m, w) = (Ok res, (r', mgr', w'))"
  shows "(\<exists>m'. mgr' = Some m' \<and> keys (eventSourceJobQueue m') = insert n (keys (eventSourceJobQueue m)) \<and>
      keys (natsEventSources m') = keys (natsEventSources m) - {n} \<and> rebuildResourceToWatch m' = 1) \<and>
    (\<forall>g. members elems (GVKEventSources r') g = members elems (GVKEventSources r) g - {object_ref E x}) \<and>
    reports w' = reports w \<and>
    ((res = requeue_later \<and> stored w' = stored w) \<or>
     (res = finished \<and> report_settled reports w n \<and>
      (\<forall>k. k \<noteq> (ns, n) \<longrightarrow> stored w' k = stored w k) \<and>
      (case stored w' (ns, n) of
         None \<Rightarrow> removed (ct_Finalizer E) (om_Finalizers (metadata x)) = []
       | Some y \<Rightarrow> om_Finalizers (metadata y) = removed (ct_Finalizer E) (om_Finalizers (metadata x)))))"
proof -
  let ?m = "UnregisterNatsEventSource n (EvaluateEventSource n (ReEvaluateResourceToWatch m))"
  obtain w0 where w0: "stored w0 = stored w" "(reports w0, other w0) = (reports w, other w)"
    and key: "obj_key x = (ns, n)"
    and k: "with_scope (new_scope ''EventSource'' (Some (ct_patch E)) (Some x)) E
      (EventSource_reconcileDelete S E R)
      (r, Some (ReEvaluateResourceToWatch m), w0) = (Ok res, (r', mgr', w'))"
    using reconcile_start [OF world x mine run [unfolded EventSource_Reconcile_def]] del
    by (auto simp: NewEventSourceScope_def)
  have "r' = r\<lparr>GVKEventSources := erase_everywhere S (object_ref E x) (GVKEventSources r)\<rparr> \<and>
      mgr' = Some ?m \<and> reports w' = reports w0 \<and> other w' = other w0 \<and>
      ((res = finished \<and> report_settled reports w0 n \<and>
        (if ct_Finalizer E \<in> set (om_Finalizers (metadata x))
         then replaced (obj_key x) (removed (ct_Finalizer E) (om_Finalizers (metadata x))) (stored w0) (stored w')
         else stored w' = stored w0)) \<or>
       (res = requeue_later \<and> stored w' = stored w0))"
    by (rule reconcile_deleted_report [OF world canRemoveFinalizer_checks(2) [OF R] k])
      (use key known in \<open>simp add: EventSource_reconcileDelete_def EventSource_cleanMaps_def scope_Name_def
         Let_def call_def\<close>)
  moreover have "keys (eventSourceJobQueue ?m) = insert n (keys (eventSourceJobQueue m))"
    "keys (natsEventSources ?m) = keys (natsEventSources m) - {n}" "rebuildResourceToWatch ?m = 1"
    by (auto simp: manager_ops)
  ultimately show ?thesis
    using w0 key x del
    by (auto simp: replaced_def report_settled_def object_set.members_erase_everywhere [OF assms(3)] split: if_splits)
qed

text \<open>C13. The Reloader controller's sets are a refinement of a relation: when Reconcile succeeds on a live Reloader,
  the pairs of a kind and a Reloader that its sets stand for are the old pairs without this
  Reloader, and the pairs of this Reloader with the kinds it names now; the Reloader is queued. No rebuild
  of the watched kinds is requested.\<close>

theorem Reloader_Reconcile_refines:
  assumes world: "reconciler_world E stored rest base" and "object_set S elems" and known: "known_type E"
    and x: "stored w (ns, n) = Some x" and mine: "\<not> shouldIgnore (ct_lib E) x"
    and live: "om_DeletionTimestamp (metadata x) = None"
    and run: "Reloader_Reconcile S E ns n (r, Some m, w) = (Ok res, (r', mgr', w'))"
  shows "{(g, q). q \<in> members elems (GVKReloaders r') g} =
      {(g, q). q \<in> members elems (GVKReloaders r) g \<and> q \<noteq> object_ref E x} \<union>
      (\<lambda>info. GVK (apps_Group (ct_lib E)) (apps_Version (ct_lib E)) (ri_Kind info)) ` set (Spec x) \<times> {object_ref E x} \<and>
    mgr' = Some (EvaluateReloader (ct_lib E) n m) \<and>
    (\<exists>y. stored w' = (stored w)((ns, n) \<mapsto> y) \<and> ct_Finalizer E \<in> set (om_Finalizers (metadata y)) \<and>
      Spec y = Spec x \<and> om_DeletionTimestamp (metadata y) = None)"
proof -
  have key: "obj_key x = (ns, n)"
    using reconciler_world.axioms(1) [OF world] x by (rule api_client.stored_key)
  obtain w0 where w0: "stored w0 = stored w" "rest w0 = rest w"
    and k: "with_scope (new_scope ''Reloader'' (Some (ct_patch E)) (Some x)) E
      (call (Reloader_reconcileNormal S E) fail (\<lambda>_. ret finished)) (r, Some m, w0) = (Ok res, (r', mgr', w'))"
    using reconciler_world.fetch_live [OF world x mine run [unfolded Reloader_Reconcile_def]] live
    by (auto simp: NewReloaderScope_def)
  have "res = finished \<and>
      r' = r\<lparr>GVKReloaders := reloader_index S (ct_lib E) x (object_ref E x) (GVKReloaders r)\<rparr> \<and>
      mgr' = Some (EvaluateReloader (ct_lib E) n m) \<and> rest w' = rest w0 \<and>
      (\<exists>y. stored w' = (stored w0)(obj_key x \<mapsto> y) \<and> ct_Finalizer E \<in> set (om_Finalizers (metadata y)) \<and>
        Spec y = Spec x \<and> om_DeletionTimestamp (metadata y) = None)"
    by (rule reconciler_world.reconcile_live [OF world k,
          where tail = "andThen (Reloader_updateMaps S E) (\<lambda>_. manager_do (EvaluateReloader (ct_lib E) n))"])
      (use key known x live w0 in \<open>simp_all add: Reloader_reconcileNormal_def scope_Name_def
         Reloader_updateMaps_def call_def reloader_index_def reloader_kinds_def\<close>)
  with w0 key exact_index.upd_refines [OF object_set.reloader_exact_index
      [OF assms(2), where L = "ct_lib E" and ref = "\<lambda>_. object_ref E x"], where x = x and m = "GVKReloaders r"]
  show ?thesis by (simp add: reloader_kinds_def)
qed

section \<open>Reconcilers to run\<close>

definition ref_ctl :: "string \<Rightarrow> gvk \<Rightarrow> (('a, 'b) agent_world, 'a, 'a kobject) ctl_env" where
  "ref_ctl f g =
     \<lparr>ct_lib = ref_lib, ct_client = sources_client,
      ct_patch = server_patch aw_sources (\<lambda>s w. w\<lparr>aw_sources := s\<rparr>),
      ct_finalizers = std_finalizers, ct_Finalizer = f, ct_ObjectKinds = Ok [g],
      ct_typeMeta = GVK '''' '''' '''',
      ct_gvkString = \<lambda>g. gvk_Group g @ ''/'' @ gvk_Version g @ '', Kind='' @ gvk_Kind g,
      ct_APIVersionInternal = ''__internal''\<rparr>"

lemma ref_ctl_world:
  "reconciler_world (ref_ctl f g) (srv_stored aw_sources)
     (\<lambda>w. (srv_stored aw_reports w, srv_stored aw_mgmt w)) id"
  unfolding reconciler_world_def
proof (intro conjI)
  show "api_client (ct_client (ref_ctl f g)) (srv_stored aw_sources)
      (\<lambda>w. (srv_stored aw_reports w, srv_stored aw_mgmt w))"
    using ref_sources_api by (simp add: ref_ctl_def)
  show "patch_contract (ct_patch (ref_ctl f g)) (srv_stored aw_sources)
      (\<lambda>w. (srv_stored aw_reports w, srv_stored aw_mgmt w)) id"
    unfolding ref_ctl_def by simp (rule server_patch_contract, simp add: server_at_def)
  show "finalizer_contract (ct_finalizers (ref_ctl f g))"
    by (simp add: ref_ctl_def std_finalizers_contract)
qed

interpretation ref_reconcilers: reconciler_world "ref_ctl f g" "srv_stored aw_sources"
  "\<lambda>w. (srv_stored aw_reports w, srv_stored aw_mgmt w)" id
  by (rule ref_ctl_world)

lemma ref_reports_beside: "api_client reports_client (srv_stored aw_reports)
    (\<lambda>w. (srv_stored aw_sources w, srv_stored aw_mgmt w))"
  unfolding reports_client_def by (rule server_client_api) (simp add: server_at_def)

lemma ref_ctl_known [simp]: "known_type (ref_ctl f g)"
  by (simp add: known_type_def ref_ctl_def)

text \<open>An object as Sveltos deploys it; and one that is being deleted.\<close>

definition deployed :: "'spec kobject \<Rightarrow> 'spec kobject" where
  "deployed x = x\<lparr>metadata := (metadata x)\<lparr>om_Annotations := Some [(''deployed-by-sveltos'', '''')]\<rparr>\<rparr>"

definition doomed :: "string \<Rightarrow> 'spec kobject \<Rightarrow> 'spec kobject" where
  "doomed f x = set_deletion (Some 1) (with_finalizers [f] (deployed x))"

definition ref_classifier_ctl :: "((classifier_spec, unit) agent_world, classifier_spec, classifier) ctl_env" where
  "ref_classifier_ctl = ref_ctl ''cf'' (GVK ''lib.projectsveltos.io'' ''v1beta1'' ''Classifier'')"

definition ref_healthcheck_ctl ::
  "((healthcheck_spec, healthcheck_report_spec) agent_world, healthcheck_spec, healthcheck) ctl_env" where
  "ref_healthcheck_ctl = ref_ctl ''hf'' (GVK ''lib.projectsveltos.io'' ''v1beta1'' ''HealthCheck'')"

definition ref_eventsource_ctl ::
  "((eventsource_spec, unit) agent_world, eventsource_spec, eventsource) ctl_env" where
  "ref_eventsource_ctl = ref_ctl ''ef'' (GVK ''lib.projectsveltos.io'' ''v1beta1'' ''EventSource'')"

definition ref_reloader_ctl ::
  "((reloader_info list, unit) agent_world, reloader_info list, reloader) ctl_env" where
  "ref_reloader_ctl = ref_ctl ''rf'' (GVK ''lib.projectsveltos.io'' ''v1beta1'' ''Reloader'')"

lemmas ref_ctls = ref_classifier_ctl_def ref_healthcheck_ctl_def ref_eventsource_ctl_def ref_reloader_ctl_def

lemma ref_ctl_worlds:
  "reconciler_world ref_classifier_ctl (srv_stored aw_sources) (\<lambda>w. (srv_stored aw_reports w, srv_stored aw_mgmt w)) id"
  "reconciler_world ref_healthcheck_ctl (srv_stored aw_sources) (\<lambda>w. (srv_stored aw_reports w, srv_stored aw_mgmt w)) id"
  "reconciler_world ref_eventsource_ctl (srv_stored aw_sources) (\<lambda>w. (srv_stored aw_reports w, srv_stored aw_mgmt w)) id"
  "reconciler_world ref_reloader_ctl (srv_stored aw_sources) (\<lambda>w. (srv_stored aw_reports w, srv_stored aw_mgmt w)) id"
  "known_type ref_classifier_ctl" "known_type ref_healthcheck_ctl"
  "known_type ref_eventsource_ctl" "known_type ref_reloader_ctl"
  unfolding ref_ctls by (rule ref_ctl_world)+ simp_all

definition no_classifiers :: "object_reference list ClassifierReconciler" where
  "no_classifiers = \<lparr>GVKClassifiers = [], VersionClassifiers = []\<rparr>"

lemma run_of: "fst f = Ok res \<Longrightarrow> (\<And>r' mgr' w'. f = (Ok res, (r', mgr', w')) \<Longrightarrow> thesis) \<Longrightarrow> thesis"
  by (metis prod.collapse)

theorem Classifier_Reconcile_live_witness:
  "\<exists>r' w'. Classifier_Reconcile (list_set True) ref_classifier_ctl '''' ''c1''
       (no_classifiers, Some (ref_manager True), ref_world [deployed (ref_classifier [] [pod_selector])] [] [] []) =
       (Ok finished, (r', Some (EvaluateClassifier ''c1'' (ReEvaluateResourceToWatch (ref_manager True))), w')) \<and>
     members set (GVKClassifiers r') (GVK '''' ''v1'' ''Pod'') \<noteq> {} \<and>
     srv_stored aw_sources w' ('''', ''c1'') \<noteq> None"
proof -
  let ?x = "deployed (ref_classifier [] [pod_selector])"
  let ?w = "ref_world [?x] [] [] [] :: (classifier_spec, unit) agent_world"
  let ?run = "Classifier_Reconcile (list_set True) ref_classifier_ctl '''' ''c1'' (no_classifiers, Some (ref_manager True), ?w)"
  have "fst ?run = Ok finished" by code_simp
  then obtain r' mgr' w' where run: "?run = (Ok finished, (r', mgr', w'))"
    by (rule run_of)
  have x: "srv_stored aw_sources ?w ('''', ''c1'') = Some ?x"
    and mine: "\<not> shouldIgnore (ct_lib ref_classifier_ctl) ?x"
    and live: "om_DeletionTimestamp (metadata ?x) = None"
    by code_simp+
  have "GVK '''' ''v1'' ''Pod'' \<in> classifier_gvks ?x"
    by (simp add: classifier_gvks_def deployed_def ref_classifier_def selector_gvk_def pod_selector_def)
  with Classifier_Reconcile_live [OF ref_ctl_worlds(1) lset.object_set_axioms ref_ctl_worlds(5) x mine live run]
    run show ?thesis by auto
qed

theorem EventSource_Reconcile_live_witness:
  "\<exists>r' m' w'. EventSource_Reconcile (list_set True) ref_eventsource_ctl reports_client '''' ''e1''
       (\<lparr>GVKEventSources = []\<rparr>, Some (ref_manager True), ref_world [deployed (ref_eventsource '''')] [] [] []) =
       (Ok finished, (r', Some m', w')) \<and>
     ''e1'' \<in> keys (natsEventSources m') \<and> ''e1'' \<in> keys (eventSourceJobQueue m')"
proof -
  let ?x = "deployed (ref_eventsource '''')"
  let ?w = "ref_world [?x] [] [] [] :: (eventsource_spec, unit) agent_world"
  let ?run = "EventSource_Reconcile (list_set True) ref_eventsource_ctl reports_client '''' ''e1''
    (\<lparr>GVKEventSources = []\<rparr>, Some (ref_manager True), ?w)"
  have "fst ?run = Ok finished" by code_simp
  then obtain r' mgr' w' where run: "?run = (Ok finished, (r', mgr', w'))"
    by (rule run_of)
  have x: "srv_stored aw_sources ?w ('''', ''e1'') = Some ?x"
    and mine: "\<not> shouldIgnore (ct_lib ref_eventsource_ctl) ?x"
    and live: "om_DeletionTimestamp (metadata ?x) = None"
    and crit: "ess_MessagingMatchCriteria (Spec ?x) \<noteq> None"
    by code_simp+
  from EventSource_Reconcile_live [OF ref_ctl_worlds(3) lset.object_set_axioms ref_ctl_worlds(7) x mine live run]
    run crit show ?thesis by auto
qed

theorem Classifier_Reconcile_deleted_witness:
  "\<exists>r' w'. Classifier_Reconcile (list_set True) ref_classifier_ctl '''' ''c1''
       (no_classifiers, Some (ref_manager True), ref_world [doomed ''cf'' (ref_classifier [] [pod_selector])] [] [] []) =
       (Ok finished, (r', Some (EvaluateClassifier ''c1'' (ReEvaluateResourceToWatch (ref_manager True))), w')) \<and>
     srv_stored aw_sources w' ('''', ''c1'') = None"
proof -
  let ?x = "doomed ''cf'' (ref_classifier [] [pod_selector])"
  let ?w = "ref_world [?x] [] [] [] :: (classifier_spec, unit) agent_world"
  let ?run = "Classifier_Reconcile (list_set True) ref_classifier_ctl '''' ''c1'' (no_classifiers, Some (ref_manager True), ?w)"
  have "fst ?run = Ok finished" by code_simp
  then obtain r' mgr' w' where run: "?run = (Ok finished, (r', mgr', w'))"
    by (rule run_of)
  have x: "srv_stored aw_sources ?w ('''', ''c1'') = Some ?x"
    and mine: "\<not> shouldIgnore (ct_lib ref_classifier_ctl) ?x"
    and del: "om_DeletionTimestamp (metadata ?x) \<noteq> None"
    and f: "ct_Finalizer ref_classifier_ctl \<in> set (om_Finalizers (metadata ?x))"
    and last: "removed (ct_Finalizer ref_classifier_ctl) (om_Finalizers (metadata ?x)) = []"
    by code_simp+
  from Classifier_Reconcile_deleted [OF ref_ctl_worlds(1) lset.object_set_axioms ref_ctl_worlds(5) x mine del f run]
    run last show ?thesis by (auto split: option.splits)
qed

theorem HealthCheck_Reconcile_deleted_witness:
  "\<exists>r' w'. HealthCheck_Reconcile (list_set True) ref_healthcheck_ctl reports_client '''' ''h1''
       (\<lparr>GVKHealthChecks = []\<rparr>, Some (ref_manager True),
        ref_world [doomed ''hf'' (ref_healthcheck '''')] [] [] []) =
       (Ok finished, (r', Some (EvaluateHealthCheck ''h1'' (ReEvaluateResourceToWatch (ref_manager True))), w')) \<and>
     report_settled (srv_stored aw_reports)
       (ref_world [doomed ''hf'' (ref_healthcheck '''')] [] [] [] ::
         (healthcheck_spec, healthcheck_report_spec) agent_world) ''h1''"
proof -
  let ?x = "doomed ''hf'' (ref_healthcheck '''')"
  let ?w = "ref_world [?x] [] [] [] :: (healthcheck_spec, healthcheck_report_spec) agent_world"
  let ?run = "HealthCheck_Reconcile (list_set True) ref_healthcheck_ctl reports_client '''' ''h1''
    (\<lparr>GVKHealthChecks = []\<rparr>, Some (ref_manager True), ?w)"
  have "fst ?run = Ok finished" by code_simp
  then obtain r' mgr' w' where run: "?run = (Ok finished, (r', mgr', w'))"
    by (rule run_of)
  have x: "srv_stored aw_sources ?w ('''', ''h1'') = Some ?x"
    and mine: "\<not> shouldIgnore (ct_lib ref_healthcheck_ctl) ?x"
    and del: "om_DeletionTimestamp (metadata ?x) \<noteq> None"
    by code_simp+
  from HealthCheck_Reconcile_deleted [OF ref_ctl_worlds(2) ref_reports_beside lset.object_set_axioms
      ref_ctl_worlds(6) x mine del run] run
  show ?thesis by (auto simp: finished_def requeue_later_def)
qed

theorem EventSource_Reconcile_deleted_witness:
  "\<exists>r' m' w'. EventSource_Reconcile (list_set True) ref_eventsource_ctl reports_client '''' ''e1''
       (\<lparr>GVKEventSources = []\<rparr>, Some (RegisterNatsEventSource ''e1'' (ref_manager True)),
        ref_world [doomed ''ef'' (ref_eventsource '''')] [] [] []) = (Ok finished, (r', Some m', w')) \<and>
     ''e1'' \<in> keys (eventSourceJobQueue m') \<and> ''e1'' \<notin> keys (natsEventSources m')"
proof -
  let ?x = "doomed ''ef'' (ref_eventsource '''')"
  let ?w = "ref_world [?x] [] [] [] :: (eventsource_spec, unit) agent_world"
  let ?run = "EventSource_Reconcile (list_set True) ref_eventsource_ctl reports_client '''' ''e1''
    (\<lparr>GVKEventSources = []\<rparr>, Some (RegisterNatsEventSource ''e1'' (ref_manager True)), ?w)"
  have "fst ?run = Ok finished" by code_simp
  then obtain r' mgr' w' where run: "?run = (Ok finished, (r', mgr', w'))"
    by (rule run_of)
  have x: "srv_stored aw_sources ?w ('''', ''e1'') = Some ?x"
    and mine: "\<not> shouldIgnore (ct_lib ref_eventsource_ctl) ?x"
    and del: "om_DeletionTimestamp (metadata ?x) \<noteq> None"
    by code_simp+
  from EventSource_Reconcile_deleted [OF ref_ctl_worlds(3) ref_reports_beside lset.object_set_axioms
      ref_ctl_worlds(7) x mine del run] run
  show ?thesis by auto
qed

definition ref_reloader :: "string list \<Rightarrow> reloader" where
  "ref_reloader kinds = deployed \<lparr>metadata = empty_meta '''' ''r1'',
     Spec = map (\<lambda>k. \<lparr>ri_Kind = k, ri_Namespace = ''ns'', ri_Name = ''n''\<rparr>) kinds, status_Phase = None\<rparr>"

theorem Reloader_Reconcile_refines_witness:
  "\<exists>r' w'. Reloader_Reconcile (list_set True) ref_reloader_ctl '''' ''r1''
       (\<lparr>GVKReloaders = [(GVK ''apps'' ''v1'' ''DaemonSet'', [object_ref ref_reloader_ctl (ref_reloader [])])]\<rparr>,
        Some (ref_manager True), ref_world [ref_reloader [''Deployment'']] [] [] []) =
       (Ok finished, (r', Some (EvaluateReloader ref_lib ''r1'' (ref_manager True)), w')) \<and>
     members set (GVKReloaders r') (GVK ''apps'' ''v1'' ''Deployment'') =
       {object_ref ref_reloader_ctl (ref_reloader [''Deployment''])} \<and>
     members set (GVKReloaders r') (GVK ''apps'' ''v1'' ''DaemonSet'') = {}"
proof -
  let ?x = "ref_reloader [''Deployment'']"
  let ?w = "ref_world [?x] [] [] [] :: (reloader_info list, unit) agent_world"
  let ?r = "\<lparr>GVKReloaders = [(GVK ''apps'' ''v1'' ''DaemonSet'', [object_ref ref_reloader_ctl (ref_reloader [])])]\<rparr>"
  let ?run = "Reloader_Reconcile (list_set True) ref_reloader_ctl '''' ''r1'' (?r, Some (ref_manager True), ?w)"
  have "fst ?run = Ok finished" by code_simp
  then obtain r' mgr' w' where run: "?run = (Ok finished, (r', mgr', w'))"
    by (rule run_of)
  have x: "srv_stored aw_sources ?w ('''', ''r1'') = Some ?x"
    and mine: "\<not> shouldIgnore (ct_lib ref_reloader_ctl) ?x"
    and live: "om_DeletionTimestamp (metadata ?x) = None"
    by code_simp+
  have lib: "ct_lib ref_reloader_ctl = ref_lib" "apps_Group ref_lib = ''apps''" "apps_Version ref_lib = ''v1''"
    by (simp_all add: ref_reloader_ctl_def ref_ctl_def ref_lib_def)
  have same: "object_ref ref_reloader_ctl (ref_reloader []) = object_ref ref_reloader_ctl ?x"
    by (simp add: object_ref_eq ref_ctl_worlds ref_reloader_def deployed_def)
  have img: "(\<lambda>info. GVK ''apps'' ''v1'' (ri_Kind info)) ` set (Spec ?x) = {GVK ''apps'' ''v1'' ''Deployment''}"
    by (simp add: ref_reloader_def deployed_def)
  note refines = Reloader_Reconcile_refines [OF ref_ctl_worlds(4) lset.object_set_axioms ref_ctl_worlds(8) x mine live run]
  then have rel: "{(g, q). q \<in> members set (GVKReloaders r') g} =
      {(g, q). q \<in> members set (GVKReloaders ?r) g \<and> q \<noteq> object_ref ref_reloader_ctl ?x} \<union>
      {GVK ''apps'' ''v1'' ''Deployment''} \<times> {object_ref ref_reloader_ctl ?x}"
    unfolding lib img by blast
  have old: "members set (GVKReloaders ?r) g \<subseteq> {object_ref ref_reloader_ctl ?x}" for g
    unfolding same by (simp add: members_def)
  have "members set (GVKReloaders r') g =
      (if g = GVK ''apps'' ''v1'' ''Deployment'' then {object_ref ref_reloader_ctl ?x} else {})" for g
    using rel old [of g] by (auto simp: set_eq_iff)
  with refines run lib show ?thesis by auto
qed

end
