(* ===== verification/Pipeline.thy ===== *)
theory Pipeline
  imports Controllers
begin

text \<open>
  From a reconciled object to its report: a controller queues the object, a later round of the evaluation loop
  takes it from the queue together with the other jobs, and the report is there when the round is over.
  The locale \<open>framed_jobs\<close> says what a job of a round may change: the places it owns. Its lemma says
  that the places of a job that did not fail are at the end of the round as this job left them, whatever
  the other jobs did. The evaluations meet the contract: the places of a job are its report and the report it
  delivers.
\<close>

section \<open>Jobs that own what they change\<close>

locale framed_jobs =
  fixes ev :: "string \<Rightarrow> ('w, unit) act"
    and owns :: "string \<Rightarrow> 'k \<Rightarrow> bool"
    and store :: "'w \<Rightarrow> 'k \<Rightarrow> 'v"
    and keep :: "'w \<Rightarrow> 'r"
  assumes frame: "ev j w = (r, w') \<Longrightarrow> keep w' = keep w \<and> (\<forall>k. \<not> owns j k \<longrightarrow> store w' k = store w k)"
    and disjoint: "owns i k \<Longrightarrow> owns j k \<Longrightarrow> i = j"
begin

lemma jobs_frame:
  "evaluate_jobs ev jobs w = (r, w') \<Longrightarrow>
     keep w' = keep w \<and> (\<forall>k. (\<forall>j \<in> set jobs. \<not> owns j k) \<longrightarrow> store w' k = store w k)"
proof (induction jobs arbitrary: w r w')
  case Nil
  then show ?case by (simp add: ret_def)
next
  case (Cons job jobs)
  obtain r1 w1 where first: "ev job w = (r1, w1)"
    by fastforce
  obtain r2 w2 where rest: "evaluate_jobs ev jobs w1 = (r2, w2)"
    by fastforce
  have "r1 \<noteq> Panic \<Longrightarrow> w' = w2" "r1 = Panic \<Longrightarrow> w' = w1"
    using Cons.prems first rest
    by (cases r1; cases r2; simp add: call_def ret_def fail_def)+
  then show ?case
    using frame [OF first] Cons.IH [OF rest] by (cases "r1 = Panic") auto
qed

lemma job_result:
  assumes "evaluate_jobs ev jobs w = (Ok failed, w')" and "distinct jobs" and "j \<in> set jobs" and "j \<notin> set failed"
  shows "\<exists>w1 w2. ev j w1 = (Ok (), w2) \<and> keep w1 = keep w \<and> keep w' = keep w \<and>
    (\<forall>k. owns j k \<longrightarrow> store w1 k = store w k \<and> store w' k = store w2 k)"
  using assms
proof (induction jobs arbitrary: w failed)
  case (Cons job jobs)
  obtain r1 w1 where first: "ev job w = (r1, w1)"
    by fastforce
  with Cons.prems(1) obtain failed' where rest: "evaluate_jobs ev jobs w1 = (Ok failed', w')"
    and "failed = (if r1 = Ok () then failed' else job # failed')"
    by (cases r1) (auto simp: call_def ret_def fail_def split: prod.splits outcome.splits)
  then have failed: "set failed' \<subseteq> set failed" "r1 \<noteq> Ok () \<Longrightarrow> job \<in> set failed"
    by auto
  show ?case
  proof (cases "j = job")
    case True
    with failed Cons.prems(4) first have "ev j w = (Ok (), w1)"
      by (cases r1) auto
    moreover have "store w' k = store w1 k" if "owns j k" for k
    proof -
      have "\<forall>i \<in> set jobs. \<not> owns i k"
        using disjoint [OF that] Cons.prems(2) True by auto
      with jobs_frame [OF rest] show ?thesis by blast
    qed
    ultimately show ?thesis
      using frame [OF first] jobs_frame [OF rest] by (intro exI [of _ w] exI [of _ w1]) simp
  next
    case False
    have own: "store w1 k = store w k" if "owns j k" for k
      using frame [OF first] disjoint [OF that, of job] False by blast
    from Cons.IH [OF rest] Cons.prems False failed(1) obtain u1 u2 where
      "ev j u1 = (Ok (), u2)" "keep u1 = keep w1" "keep w' = keep w1"
      "\<forall>k. owns j k \<longrightarrow> store u1 k = store w1 k \<and> store w' k = store u2 k"
      by auto
    with own frame [OF first] show ?thesis by (intro exI [of _ u1] exI [of _ u2]) simp
  qed
qed simp

text \<open>A job that a round takes from a queue and does not leave behind.\<close>

lemma round_result:
  assumes queue: "job_queue enqueue drain pending invar" and inv: "invar m"
    and round: "evaluation_round drain enqueue ev others m w = (Ok m', w')"
    and n: "n \<in> pending m" "n \<notin> pending m'"
  shows "\<exists>w1 w2. ev n w1 = (Ok (), w2) \<and> keep w1 = keep w \<and> keep w' = keep w \<and>
    (\<forall>k. owns n k \<longrightarrow> store w1 k = store w k \<and> store w' k = store w2 k)"
proof -
  obtain failed where jobs: "evaluate_jobs ev (fst (drain m)) w = (Ok failed, w')"
    using evaluation_round_failed [OF round] by blast
  show ?thesis
    using job_result [OF jobs] job_queue.drain_jobs [OF queue inv] job_queue.round_pending [OF queue inv round jobs] n
    by auto
qed

end

text \<open>A job owns its report in the managed cluster (on the left) and the one it delivers (on the right).\<close>

definition owned :: "(string \<Rightarrow> string \<times> string) \<Rightarrow> string \<Rightarrow> (string \<times> string) + (string \<times> string) \<Rightarrow> bool" where
  "owned delivered n k \<longleftrightarrow> k = Inl (ReportNamespace, n) \<or> k = Inr (delivered n)"

text \<open>What is beside these two places.\<close>

definition beside ::
  "('w \<Rightarrow> 's) \<Rightarrow> ('w \<Rightarrow> string \<times> string \<Rightarrow> 'a option) \<Rightarrow> ('w \<Rightarrow> string \<times> string \<Rightarrow> 'a option) \<Rightarrow>
   string \<Rightarrow> string \<times> string \<Rightarrow> 'w \<Rightarrow>
   's \<times> (string \<times> string \<Rightarrow> 'a option) \<times> (string \<times> string \<Rightarrow> 'a option)" where
  "beside sources reports mgmt n rk w = (sources w, (reports w)((ReportNamespace, n) := None), (mgmt w)(rk := None))"

lemma inj_delivered: "inj name \<Longrightarrow> inj (\<lambda>n. (ns, name n))"
  by (auto simp: inj_def)

lemma framed_jobs_beside:
  assumes "\<And>n w. beside sources reports mgmt n (delivered n) (snd (ev n w)) = beside sources reports mgmt n (delivered n) w"
    and "inj delivered"
  shows "framed_jobs ev (owned delivered) (\<lambda>w. case_sum (reports w) (mgmt w)) sources"
proof
  fix j w r w'
  assume "ev j w = (r, w')"
  with assms(1) [of j w] show "sources w' = sources w \<and> (\<forall>k. \<not> owned delivered j k \<longrightarrow>
      case_sum (reports w') (mgmt w') k = case_sum (reports w) (mgmt w) k)"
    by (auto simp: owned_def beside_def fun_eq_iff split: sum.splits if_splits)
qed (use assms(2) in \<open>auto simp: owned_def inj_def\<close>)

text \<open>A job the round took and did not leave behind ran once; nobody else wrote its two places.\<close>

lemma round_places:
  assumes "framed_jobs ev (owned delivered) (\<lambda>w. case_sum (reports w) (mgmt w)) sources"
    and "job_queue enqueue drain pending invar" and "invar m"
    and "evaluation_round drain enqueue ev others m w = (Ok m', w')"
    and "n \<in> pending m" and "n \<notin> pending m'"
  obtains w1 w2 where "ev n w1 = (Ok (), w2)" "sources w1 = sources w" "sources w' = sources w"
    "mgmt w1 (delivered n) = mgmt w (delivered n)" "mgmt w' (delivered n) = mgmt w2 (delivered n)"
    "reports w' (ReportNamespace, n) = reports w2 (ReportNamespace, n)"
proof -
  obtain w1 w2 where run: "ev n w1 = (Ok (), w2)" "sources w1 = sources w" "sources w' = sources w"
    and own: "\<forall>k. owned delivered n k \<longrightarrow>
      case_sum (reports w1) (mgmt w1) k = case_sum (reports w) (mgmt w) k \<and>
      case_sum (reports w') (mgmt w') k = case_sum (reports w2) (mgmt w2) k"
    using framed_jobs.round_result [OF assms] by blast
  from own [rule_format, of "Inr (delivered n)"] own [rule_format, of "Inl (ReportNamespace, n)"]
  show thesis by (intro that [OF run]) (simp_all add: owned_def)
qed

text \<open>The steps of an evaluation: fetch the object, clean when it is gone or being deleted, look at the
  cluster, write the report and send it.\<close>

lemma fetched_frame:
  assumes "\<And>w. P (snd (get w)) = P w" and "\<And>w. P (snd (clean w)) = P w"
    and "\<And>c w w0. get w = (Ok c, w0) \<Longrightarrow> P (snd (body c w0)) = P w0"
  shows "P (snd (call get (\<lambda>e. if e = NotFound then clean else fail e) (\<lambda>c. if gone c then clean else body c) w)) = P w"
  by (rule frame_call [of P]) (auto simp: assms)

lemma reported_frame:
  assumes "\<And>w. P (snd (create w)) = P w" and "\<And>w. P (snd (send w)) = P w"
  shows "P (snd (andThen create (\<lambda>_. if b then andThen send (\<lambda>_. ret ()) else ret ()) w)) = P w"
proof -
  have "P (snd (andThen send (\<lambda>_. ret ()) w)) = P w" for w
    by (rule frame_call [of P]) (simp_all add: assms)
  then show ?thesis
    by (intro frame_call [of P]) (simp_all add: assms)
qed

section \<open>Frames of a delivery\<close>

context api_client
begin

lemma get_frame: "stored (snd (cl_Get C ns n w)) = stored w" "rest (snd (cl_Get C ns n w)) = rest w"
  using get_law [of ns n w] by (auto simp: wp_def split: prod.splits)

lemma create_frame:
  "rest (snd (cl_Create C x w)) = rest w"
  "(stored (snd (cl_Create C x w)))(obj_key x := v) = (stored w)(obj_key x := v)"
  using create_law [of x w] by (auto simp: wp_def fun_eq_iff split: prod.splits outcome.splits)

lemma update_frame:
  "rest (snd (cl_Update C x w)) = rest w"
  "(stored (snd (cl_Update C x w)))(obj_key x := v) = (stored w)(obj_key x := v)"
  using update_law [of x w] by (auto simp: wp_def fun_eq_iff split: prod.splits outcome.splits)

lemma status_frame:
  "rest (snd (cl_StatusUpdate C x w)) = rest w"
  "(stored (snd (cl_StatusUpdate C x w)))(obj_key x := v) = (stored w)(obj_key x := v)"
  using status_law [of x w] by (auto simp: wp_def fun_eq_iff split: prod.splits outcome.splits)

text \<open>An evaluation of a live object that succeeded had an answer from the cluster.\<close>

lemma fetched_answered:
  assumes c: "stored w (ns, n) = Some c" and live: "om_DeletionTimestamp (metadata c) = None"
    and run: "call (cl_Get C ns n) (\<lambda>e. if e = NotFound then clean else fail e)
      (\<lambda>c. if om_DeletionTimestamp (metadata c) \<noteq> None then clean else andThen (look c) (body c)) w = (Ok (), w')"
  obtains w0 a where "cl_Get C ns n w = (Ok c, w0)" "stored w0 = stored w" "fst (look c w0) = Ok a"
proof -
  obtain r0 w0 where get: "cl_Get C ns n w = (r0, w0)"
    by fastforce
  have r0: "r0 = Ok c" "stored w0 = stored w"
    using wpD [OF get_law get] c get run by (cases r0; auto simp: run_act split: if_splits)+
  obtain r1 w1 where look: "look c w0 = (r1, w1)"
    by fastforce
  with run get r0 live obtain a where "r1 = Ok a"
    by (cases r1) (auto simp: run_act)
  with that get r0 look show thesis by simp
qed

end

text \<open>Whatever its outcome, a delivery writes the two reports only.\<close>

context report_delivery
begin

lemma deliver_frame:
  assumes new_key: "\<And>x. obj_key (new x) = rk" and upd_key: "\<And>x cur. obj_key (upd x cur) = rk"
    and P_def: "P = beside rest stored mstored l rk"
    and kc: "\<And>x y w. P (snd (kc x y w)) = P w"
    and ku: "\<And>x y w. obj_key x = (ReportNamespace, l) \<Longrightarrow> P (snd (ku x y w)) = P w"
  shows "P (snd (andThen (cl_Get C ReportNamespace l) (\<lambda>x.
      andThen (getManamegentClusterClient L M) (\<lambda>cfg.
        call (cl_Get (R cfg) ns n)
          (\<lambda>e. if e = NotFound then andThen (cl_Create (R cfg) (new x)) (kc x) else fail e)
          (\<lambda>cur. andThen (cl_Update (R cfg) (upd x cur)) (ku x)))) w)) = P w"
proof (rule frame_call [of P])
  note P = P_def [THEN fun_cong, unfolded beside_def]
  show "P (snd (cl_Get C ReportNamespace l w)) = P w"
    using get_frame [of ReportNamespace l w] by (simp add: P)
  fix x w1
  assume "cl_Get C ReportNamespace l w = (Ok x, w1)"
  then have key: "obj_key x = (ReportNamespace, l)"
    using get_Ok stored_key by blast
  have client: "P (snd (getManamegentClusterClient L M w)) = P w" for w
    using mgmt_client_frame [OF prod.collapse [symmetric], of L w] by (simp add: P)
  have rget: "P (snd (cl_Get (R cfg) ns n w)) = P w" for cfg w
    using api_client.get_frame [OF remote, of cfg ns n w] by (simp add: P)
  have rcreate: "P (snd (andThen (cl_Create (R cfg) (new x)) (kc x) w)) = P w" for cfg w
    by (rule frame_call [of P])
      (use api_client.create_frame [OF remote, of cfg "new x" w] kc new_key in \<open>simp_all add: P\<close>)
  have rupdate: "P (snd (andThen (cl_Update (R cfg) (upd x cur)) (ku x) w)) = P w" for cfg cur w
    by (rule frame_call [of P])
      (use api_client.update_frame [OF remote, of cfg "upd x cur" w] ku [OF key] upd_key in \<open>simp_all add: P\<close>)
  show "P (snd (andThen (getManamegentClusterClient L M) (\<lambda>cfg.
        call (cl_Get (R cfg) ns n)
          (\<lambda>e. if e = NotFound then andThen (cl_Create (R cfg) (new x)) (kc x) else fail e)
          (\<lambda>cur. andThen (cl_Update (R cfg) (upd x cur)) (ku x))) w1)) = P w1"
    by (rule frame_call [of P, OF client]; (rule frame_call [of P, OF rget])?) (simp_all add: rcreate rupdate)
qed simp

end

section \<open>Classifiers\<close>

context classifier_world
begin

abbreviation delivered :: "manager \<Rightarrow> string \<Rightarrow> string \<times> string" where
  "delivered m n \<equiv> (clusterNamespace m, GetClassifierReportName (ce_lib E) n (clusterName m) (clusterType m))"

lemma sendClassifierReport_frame:
  "beside sources reports mgmt (om_Name (metadata c)) (remote_name m c) (snd (sendClassifierReport E m c w)) =
   beside sources reports mgmt (om_Name (metadata c)) (remote_name m c) w"
  unfolding sendClassifierReport_def Let_def
  by (rule deliver_frame [where kc = "\<lambda>_. ret" and ku = "\<lambda>_. ret" and rk = "remote_name m c", unfolded andThen_ret, OF _ _ refl])
    (simp_all add: new_mgmt_report_def overwrite_mgmt_report_def)

lemma evaluateClassifierInstance_frame:
  "beside sources reports mgmt n (delivered m n) (snd (evaluateClassifierInstance E m n w)) =
   beside sources reports mgmt n (delivered m n) w"
proof -
  let ?P = "beside sources reports mgmt n (delivered m n)"
  have "?P (snd (cleanClassifierReport E n w)) = ?P w" for w
    using cleanClassifierReport_law [of n w] by (cases "cleanClassifierReport E n w") (auto simp: beside_def fun_eq_iff)
  moreover have "?P (snd (cl_Get (ce_classifiers E) '''' n w)) = ?P w" for w
    using api_client.get_frame [OF src, of "''''" n w] by (simp add: beside_def)
  moreover have "?P (snd (classifier_match E c w)) = ?P w" for c w
    using classifier_match_frame [OF prod.collapse [symmetric], of c w] by (auto simp: beside_def fun_eq_iff)
  moreover have "?P (snd (createClassifierReport E c b w)) = ?P w"
    "?P (snd (sendClassifierReport E m c w)) = ?P w" if "om_Name (metadata c) = n" for c b w
    using createClassifierReport_law [of c b w] sendClassifierReport_frame [of c m w] that
    by (cases "createClassifierReport E c b w"; auto simp: beside_def fun_eq_iff)+
  moreover have "om_Name (metadata c) = n" if "cl_Get (ce_classifiers E) '''' n w = (Ok c, w0)" for c w w0
    using api_client.get_Ok [OF src that] api_client.stored_key [OF src] by fastforce
  ultimately show ?thesis
    unfolding evaluateClassifierInstance_def
    by (intro fetched_frame [of ?P] frame_call [of ?P "classifier_match E _"] reported_frame [of ?P]) auto
qed

lemma classifier_jobs:
  "inj (delivered m) \<Longrightarrow> framed_jobs (evaluateClassifierInstance E m) (owned (delivered m))
     (\<lambda>w. case_sum (reports w) (mgmt w)) sources"
  by (rule framed_jobs_beside [OF evaluateClassifierInstance_frame])

text \<open>A queued Classifier that a round takes and does not leave behind has its report.\<close>

lemma queued_classifier_reported:
  assumes names: "inj (delivered m)"
    and ok: "queues_ok m" and queued: "n \<in> keys (classifierJobQueue m)"
    and c: "sources w ('''', n) = Some c" and live: "om_DeletionTimestamp (metadata c) = None"
    and rk: "rk = delivered m n"
    and alive: "\<forall>cur. mgmt w rk = Some cur \<longrightarrow> om_DeletionTimestamp (metadata cur) = None"
    and round: "evaluateClassifiers E others m w = (Ok m', w')"
    and left: "n \<notin> keys (classifierJobQueue m')"
  shows "sources w' = sources w \<and> (\<exists>v b. sources v = sources w \<and> fst (classifier_match E c v) = Ok b \<and>
    (\<exists>y. reports w' (ReportNamespace, n) = Some y \<and> crs_Match (Spec y) = b \<and>
       status_Phase y = Some ReportWaitingForDelivery) \<and>
    (sendReport m \<longrightarrow> (\<exists>z. mgmt w' rk = Some z \<and> crs_Match (Spec z) = b)))"
proof -
  obtain w1 w2 where run: "evaluateClassifierInstance E m n w1 = (Ok (), w2)"
    and same: "sources w1 = sources w" "sources w' = sources w"
    and places: "mgmt w1 rk = mgmt w rk" "mgmt w' rk = mgmt w2 rk"
      "reports w' (ReportNamespace, n) = reports w2 (ReportNamespace, n)"
    by (rule round_places [OF classifier_jobs [OF names] classifier_queue.job_queue_axioms ok
          round [unfolded evaluateClassifiers_def] queued left]) (simp add: rk)
  have name: "om_Name (metadata c) = n"
    using api_client.stored_key [OF src c] by simp
  obtain v b where get: "cl_Get (ce_classifiers E) '''' n w1 = (Ok c, v)" and v: "sources v = sources w1"
    and answer: "fst (classifier_match E c v) = Ok b"
    using api_client.fetched_answered [OF src c [folded same(1)] live run [unfolded evaluateClassifierInstance_def]] by blast
  have "\<forall>cur. mgmt w1 (remote_name m c) = Some cur \<longrightarrow> om_DeletionTimestamp (metadata cur) = None"
    using alive places(1) by (simp add: name rk)
  from evaluateClassifierInstance_law [OF get live answer this run] show ?thesis
    using places v same answer by (auto simp: name rk split: if_splits)
qed

end

section \<open>HealthChecks and EventSources\<close>

context eval_world
begin

text \<open>The parts that HealthChecks and EventSources share.\<close>

lemma eval_steps_frame:
  "beside sources reports mgmt n rk (snd (cl_Get (ev_sources E) ns k w)) = beside sources reports mgmt n rk w"
  "beside sources reports mgmt n rk (snd (call (cl_Get (ev_reports E) ReportNamespace n)
      (\<lambda>e. if e = NotFound then ret () else fail e)
      (\<lambda>x. if om_DeletionTimestamp (metadata x) \<noteq> None then ret ()
           else andThen (cl_StatusUpdate (ev_reports E) (x\<lparr>status_Phase := Some ReportWaitingForDelivery\<rparr>))
                  (\<lambda>x'. cl_Delete (ev_reports E) x')) w)) = beside sources reports mgmt n rk w"
  using api_client.get_frame [OF src, of ns k w] clean_law [where n = n and w = w, OF prod.collapse [symmetric]]
  by (auto simp: beside_def fun_eq_iff)

lemma fetched_name: "cl_Get (ev_sources E) '''' n w = (Ok c, w0) \<Longrightarrow> om_Name (metadata c) = n"
  using api_client.get_Ok [OF src] api_client.stored_key [OF src] by fastforce

lemma processed_frame:
  "obj_key x = (ReportNamespace, n) \<Longrightarrow>
   beside sources reports mgmt n rk (snd (cl_StatusUpdate (ev_reports E) (x\<lparr>status_Phase := p\<rparr>) w)) =
   beside sources reports mgmt n rk w"
  using status_frame [of "x\<lparr>status_Phase := p\<rparr>" w] by (simp add: beside_def)

end

context healthcheck_world
begin

abbreviation delivered :: "manager \<Rightarrow> string \<Rightarrow> string \<times> string" where
  "delivered m n \<equiv> (clusterNamespace m, GetHealthCheckReportName (ev_lib E) n (clusterName m) (clusterType m))"

lemma sendHealthCheckReport_frame:
  "beside sources reports mgmt (om_Name (metadata h)) (remote_name m h) (snd (sendHealthCheckReport E m h w)) =
   beside sources reports mgmt (om_Name (metadata h)) (remote_name m h) w"
  unfolding sendHealthCheckReport_def Let_def
  by (rule deliver_frame [where kc = "\<lambda>_. ret"
        and ku = "\<lambda>x _. cl_StatusUpdate (ev_reports E) (x\<lparr>status_Phase := Some ReportProcessed\<rparr>)"
        and rk = "remote_name m h", OF _ _ refl])
    (simp_all add: new_mgmt_health_report_def overwrite_mgmt_health_report_def processed_frame)

lemma evaluateHealthCheckInstance_frame:
  "beside sources reports mgmt n (delivered m n) (snd (evaluateHealthCheckInstance E m n w)) =
   beside sources reports mgmt n (delivered m n) w"
proof -
  let ?P = "beside sources reports mgmt n (delivered m n)"
  have "?P (snd (getHealthStatus E h w)) = ?P w" for h w
    using getHealthStatus_frame [OF prod.collapse [symmetric], of h w] by (simp add: beside_def)
  moreover have "?P (snd (createHealthCheckReport E h sts w)) = ?P w"
    "?P (snd (sendHealthCheckReport E m h w)) = ?P w" if "om_Name (metadata h) = n" for h sts w
    using createHealthCheckReport_law [OF prod.collapse [symmetric], of h sts w] sendHealthCheckReport_frame [of h m w] that
    by (auto simp: beside_def fun_eq_iff)
  ultimately show ?thesis
    unfolding evaluateHealthCheckInstance_def cleanHealthCheckReport_def
    by (intro fetched_frame [of ?P] eval_steps_frame frame_call [of ?P "getHealthStatus E _"] reported_frame [of ?P])
      (auto dest: fetched_name)
qed

lemma healthcheck_jobs:
  "inj (delivered m) \<Longrightarrow> framed_jobs (evaluateHealthCheckInstance E m) (owned (delivered m))
     (\<lambda>w. case_sum (reports w) (mgmt w)) sources"
  by (rule framed_jobs_beside [OF evaluateHealthCheckInstance_frame])

lemma queued_healthcheck_reported:
  assumes names: "inj (delivered m)"
    and ok: "queues_ok m" and queued: "n \<in> keys (healthCheckJobQueue m)"
    and h: "sources w ('''', n) = Some h" and live: "om_DeletionTimestamp (metadata h) = None"
    and rk: "rk = delivered m n"
    and alive: "\<forall>cur. mgmt w rk = Some cur \<longrightarrow> om_DeletionTimestamp (metadata cur) = None"
    and round: "evaluateHealthChecks E others m w = (Ok m', w')"
    and left: "n \<notin> keys (healthCheckJobQueue m')"
  shows "sources w' = sources w \<and> (\<exists>v sts. sources v = sources w \<and> fst (getHealthStatus E h v) = Ok sts \<and>
    (\<exists>y. reports w' (ReportNamespace, n) = Some y \<and> hrs_ResourceStatuses (Spec y) = sts \<and>
       status_Phase y = Some (if sendReport m \<and> mgmt w rk \<noteq> None then ReportProcessed else ReportWaitingForDelivery)) \<and>
    (sendReport m \<longrightarrow> (\<exists>z. mgmt w' rk = Some z \<and> hrs_ResourceStatuses (Spec z) = sts)))"
proof -
  obtain w1 w2 where run: "evaluateHealthCheckInstance E m n w1 = (Ok (), w2)"
    and same: "sources w1 = sources w" "sources w' = sources w"
    and places: "mgmt w1 rk = mgmt w rk" "mgmt w' rk = mgmt w2 rk"
      "reports w' (ReportNamespace, n) = reports w2 (ReportNamespace, n)"
    by (rule round_places [OF healthcheck_jobs [OF names] healthCheck_queue.job_queue_axioms ok
          round [unfolded evaluateHealthChecks_def] queued left]) (simp add: rk)
  obtain v sts where get: "cl_Get (ev_sources E) '''' n w1 = (Ok h, v)" and v: "sources v = sources w1"
    and answer: "fst (getHealthStatus E h v) = Ok sts"
    using api_client.fetched_answered [OF src h [folded same(1)] live run [unfolded evaluateHealthCheckInstance_def]] by blast
  have name: "om_Name (metadata h) = n"
    by (rule fetched_name [OF get])
  have "\<forall>cur. mgmt w1 (remote_name m h) = Some cur \<longrightarrow> om_DeletionTimestamp (metadata cur) = None"
    using alive places(1) by (simp add: name rk)
  from evaluateHealthCheckInstance_law [OF get live answer this run] show ?thesis
    using places v same answer by (auto simp: name rk split: if_splits)
qed

end

context event_world
begin

abbreviation delivered :: "manager \<Rightarrow> string \<Rightarrow> string \<times> string" where
  "delivered m n \<equiv> (clusterNamespace m, GetEventReportName (ev_lib E) n (clusterName m) (clusterType m))"

lemma sendEventReport_frame:
  "beside sources reports mgmt (om_Name (metadata ev)) (remote_name m ev) (snd (sendEventReport E m ev w)) =
   beside sources reports mgmt (om_Name (metadata ev)) (remote_name m ev) w"
  unfolding sendEventReport_def Let_def
  by (rule deliver_frame [where kc = "\<lambda>_. ret"
        and ku = "\<lambda>x _. cl_StatusUpdate (ev_reports E) (x\<lparr>status_Phase := Some ReportProcessed\<rparr>)"
        and rk = "remote_name m ev", OF _ _ refl])
    (simp_all add: new_mgmt_event_report_def overwrite_mgmt_event_report_def processed_frame)

lemma evaluateEventSourceInstance_frame:
  "beside sources reports mgmt n (delivered m n) (snd (evaluateEventSourceInstance R E m n w)) =
   beside sources reports mgmt n (delivered m n) w"
proof -
  let ?P = "beside sources reports mgmt n (delivered m n)"
  have look: "?P (snd (getEventMatchingResources E ev w)) = ?P w" for ev w
    using getEventMatchingResources_frame [OF prod.collapse [symmetric], of ev w] by (simp add: beside_def)
  have writes: "?P (snd (createEventReport R E ev (Some ms) j None w)) = ?P w"
    "?P (snd (sendEventReport E m ev w)) = ?P w" if "om_Name (metadata ev) = n" for ev ms j w
    using createEventReport_law [OF prod.collapse [symmetric], of ev ms j w] sendEventReport_frame [of ev m w] that
    by (auto simp: beside_def fun_eq_iff)
  have rest: "?P (snd (andThen (lift_outcome (collected_json E ms us)) (\<lambda>j.
      andThen (createEventReport R E ev (Some ms) j None) (\<lambda>_.
        if sendReport m then andThen (sendEventReport E m ev) (\<lambda>_. ret ()) else ret ())) w)) = ?P w"
    if "om_Name (metadata ev) = n" for ev ms us w
    by (rule frame_call [of ?P], simp add: lift_outcome_def, rule reported_frame [of ?P, OF writes [OF that]]) simp
  have "?P (snd (andThen (getEventMatchingResources E ev) (\<lambda>(ms, us).
      andThen (lift_outcome (collected_json E ms us)) (\<lambda>j.
      andThen (createEventReport R E ev (Some ms) j None) (\<lambda>_.
        if sendReport m then andThen (sendEventReport E m ev) (\<lambda>_. ret ()) else ret ()))) w)) = ?P w"
    if "om_Name (metadata ev) = n" for ev w
    by (rule frame_call [of ?P, OF look]) (simp_all only: split_paired_all prod.case rest [OF that] fail_def snd_conv)
  with look writes show ?thesis
    unfolding evaluateEventSourceInstance_def cleanEventReport_def
    by (intro fetched_frame [of ?P] eval_steps_frame) (auto dest: fetched_name)
qed

lemma event_jobs:
  "inj (delivered m) \<Longrightarrow> framed_jobs (evaluateEventSourceInstance R E m) (owned (delivered m))
     (\<lambda>w. case_sum (reports w) (mgmt w)) sources"
  by (rule framed_jobs_beside [OF evaluateEventSourceInstance_frame])

lemma queued_event_reported:
  assumes names: "inj (delivered m)"
    and ok: "queues_ok m" and queued: "n \<in> keys (eventSourceJobQueue m)"
    and ev: "sources w ('''', n) = Some ev" and live: "om_DeletionTimestamp (metadata ev) = None"
    and rk: "rk = delivered m n"
    and alive: "\<forall>cur. mgmt w rk = Some cur \<longrightarrow> om_DeletionTimestamp (metadata cur) = None"
    and round: "evaluateEventSources R E others m w = (Ok m', w')"
    and left: "n \<notin> keys (eventSourceJobQueue m')"
  shows "sources w' = sources w \<and>
    (\<exists>v ms us. sources v = sources w \<and> fst (getEventMatchingResources E ev v) = Ok (ms, us) \<and>
    (\<exists>y. reports w' (ReportNamespace, n) = Some y \<and> ers_MatchingResources (Spec y) = Some ms \<and>
       collected_json E ms us = Ok (ers_Resources (Spec y)) \<and>
       status_Phase y = Some (if sendReport m \<and> mgmt w rk \<noteq> None then ReportProcessed else ReportWaitingForDelivery)) \<and>
    (sendReport m \<longrightarrow> (\<exists>z. mgmt w' rk = Some z \<and> ers_MatchingResources (Spec z) = Some ms)))"
proof -
  obtain w1 w2 where run: "evaluateEventSourceInstance R E m n w1 = (Ok (), w2)"
    and same: "sources w1 = sources w" "sources w' = sources w"
    and places: "mgmt w1 rk = mgmt w rk" "mgmt w' rk = mgmt w2 rk"
      "reports w' (ReportNamespace, n) = reports w2 (ReportNamespace, n)"
    by (rule round_places [OF event_jobs [OF names] eventSource_queue.job_queue_axioms ok
          round [unfolded evaluateEventSources_def] queued left]) (simp add: rk)
  obtain v found where get: "cl_Get (ev_sources E) '''' n w1 = (Ok ev, v)" and v: "sources v = sources w1"
    and answer: "fst (getEventMatchingResources E ev v) = Ok found"
    using api_client.fetched_answered [OF src ev [folded same(1)] live run [unfolded evaluateEventSourceInstance_def]] by blast
  obtain ms us where found: "found = (ms, us)"
    by fastforce
  have name: "om_Name (metadata ev) = n"
    by (rule fetched_name [OF get])
  have "\<forall>cur. mgmt w1 (remote_name m ev) = Some cur \<longrightarrow> om_DeletionTimestamp (metadata cur) = None"
    using alive places(1) by (simp add: name rk)
  from evaluateEventSourceInstance_law [OF get live answer [unfolded found] this run] show ?thesis
    using places v same answer found by (auto simp: name rk split: if_splits)
qed

end

section \<open>Properties\<close>




section \<open>Witnesses\<close>

lemma run_parts: "fst f = Ok res \<Longrightarrow> fst (snd (snd f)) = Some m \<Longrightarrow> f = (Ok res, (fst (snd f), Some m, snd (snd (snd f))))"
  by (metis prod.collapse)

lemma ref_names: "inj (\<lambda>n. GetClassifierReportName (ce_lib ref_classifier_env) n cn ct)"
  by (auto simp: inj_def ref_classifier_env_def ref_lib_def)

interpretation ref_classifier_jobs: framed_jobs "evaluateClassifierInstance ref_classifier_env m"
  "owned (\<lambda>n. (clusterNamespace m, GetClassifierReportName (ce_lib ref_classifier_env) n (clusterName m) (clusterType m)))"
  "\<lambda>w. case_sum (srv_stored aw_reports w) (srv_stored aw_mgmt w)" "srv_stored aw_sources"
  by (rule ref_classifiers.classifier_jobs [OF inj_delivered [OF ref_names]])

definition ref_pipeline_ctl :: "(ref_classifier_world, classifier_spec, classifier) ctl_env" where
  "ref_pipeline_ctl = ref_ctl ''cf'' (GVK ''lib.projectsveltos.io'' ''v1beta1'' ''Classifier'')"

definition ref_pipeline_start :: ref_classifier_world where
  "ref_pipeline_start = ref_world [deployed (ref_classifier [at_least ''1.27.0''] [pod_selector])] [] [] ref_pods"

definition ref_reconciled ::
  "ctrl_result outcome \<times> object_reference list ClassifierReconciler \<times> manager option \<times> ref_classifier_world" where
  "ref_reconciled = Classifier_Reconcile (list_set True) ref_pipeline_ctl '''' ''c1''
     (no_classifiers, Some (ref_manager True), ref_pipeline_start)"

text \<open>Another Classifier is queued while the round runs.\<close>

definition ref_round :: "manager outcome \<times> ref_classifier_world" where
  "ref_round = evaluateClassifiers ref_classifier_env [''late''] (the (fst (snd (snd ref_reconciled)))) (snd (snd (snd ref_reconciled)))"


lemma ref_eval_names:
  "inj (\<lambda>n. GetHealthCheckReportName (ev_lib ref_eval_env) n cn ct)"
  "inj (\<lambda>n. GetEventReportName (ev_lib ref_eval_env) n cn ct)"
  by (auto simp: inj_def ref_eval_env_def ref_lib_def)

interpretation ref_healthcheck_jobs: framed_jobs "evaluateHealthCheckInstance ref_eval_env m"
  "owned (\<lambda>n. (clusterNamespace m, GetHealthCheckReportName (ev_lib (ref_eval_env :: (_, _, _, _, _, healthcheck_spec,
     healthcheck_report_spec) eval_env)) n (clusterName m) (clusterType m)))"
  "\<lambda>w. case_sum (srv_stored aw_reports w) (srv_stored aw_mgmt w)" "srv_stored aw_sources"
  by (rule ref_healthchecks.healthcheck_jobs [OF inj_delivered [OF ref_eval_names(1)]])

interpretation ref_event_jobs: framed_jobs "evaluateEventSourceInstance ref_retry ref_eval_env m"
  "owned (\<lambda>n. (clusterNamespace m, GetEventReportName (ev_lib (ref_eval_env :: (_, _, _, _, _, eventsource_spec,
     event_report_spec) eval_env)) n (clusterName m) (clusterType m)))"
  "\<lambda>w. case_sum (srv_stored aw_reports w) (srv_stored aw_mgmt w)" "srv_stored aw_sources"
  by (rule ref_events.event_jobs [OF inj_delivered [OF ref_eval_names(2)]])

definition ref_health_ctl :: "(ref_health_world, healthcheck_spec, healthcheck) ctl_env" where
  "ref_health_ctl = ref_ctl ''hf'' (GVK ''lib.projectsveltos.io'' ''v1beta1'' ''HealthCheck'')"

definition ref_health_reconciled ::
  "ctrl_result outcome \<times> object_reference list HealthCheckReconciler \<times> manager option \<times> ref_health_world" where
  "ref_health_reconciled = HealthCheck_Reconcile (list_set True) ref_health_ctl reports_client '''' ''h1''
     (\<lparr>GVKHealthChecks = []\<rparr>, Some (ref_manager True),
      ref_world [deployed (ref_healthcheck ''healthy'')] [] [] (aw_resources ref_health_start))"

definition ref_health_round :: "manager outcome \<times> ref_health_world" where
  "ref_health_round = evaluateHealthChecks ref_eval_env [''late''] (the (fst (snd (snd ref_health_reconciled))))
     (snd (snd (snd ref_health_reconciled)))"


definition ref_event_ctl :: "(ref_event_world, eventsource_spec, eventsource) ctl_env" where
  "ref_event_ctl = ref_ctl ''ef'' (GVK ''lib.projectsveltos.io'' ''v1beta1'' ''EventSource'')"

definition ref_event_reconciled ::
  "ctrl_result outcome \<times> object_reference list EventSourceReconciler \<times> manager option \<times> ref_event_world" where
  "ref_event_reconciled = EventSource_Reconcile (list_set True) ref_event_ctl reports_client '''' ''e1''
     (\<lparr>GVKEventSources = []\<rparr>, Some (ref_manager True),
      ref_world [deployed (ref_eventsource ''all'')] [] [] (aw_resources ref_event_start))"

definition ref_event_round :: "manager outcome \<times> ref_event_world" where
  "ref_event_round = evaluateEventSources ref_retry ref_eval_env [''late''] (the (fst (snd (snd ref_event_reconciled))))
     (snd (snd (snd ref_event_reconciled)))"


end
