(* ===== verification/Report_Controllers.thy ===== *)
theory Report_Controllers
  imports Controllers
begin

text \<open>
  The other controllers (controllers/*.go): HealthCheckReports and EventReports (finalizers only), Nodes
  (a new Kubernetes version re-evaluates the Classifiers that depend on it), and the predicates through which
  changes of ConfigMaps and Secrets reach the Reloader queue.
\<close>

section \<open>HealthCheckReport and EventReport\<close>

definition sync_finalizer :: "('w, 'rep, 'h) ctl_env \<Rightarrow> 'rep kobject \<Rightarrow> ('w, unit) act" where
  "sync_finalizer E report =
     (if om_DeletionTimestamp (metadata report) \<noteq> None then
        if status_Phase report = Some ReportProcessed \<and>
           fz_Contains (ct_finalizers E) report (ct_Finalizer E)
        then snd (removeFinalizer E report (ct_Finalizer E)) else ret ()
      else
        if \<not> fz_Contains (ct_finalizers E) report (ct_Finalizer E)
        then snd (addFinalizer E report (ct_Finalizer E)) else ret ())"

definition HealthCheckReport_Reconcile ::
  "('w, healthcheck_report_spec, 'h) ctl_env \<Rightarrow> string \<Rightarrow> string \<Rightarrow> ('w, ctrl_result) act" where
  "HealthCheckReport_Reconcile E ns n =
     call (cl_Get (ct_client E) ns n)
       (\<lambda>e. if e = NotFound then ret finished else fail e)
       (\<lambda>report. call (sync_finalizer E report) (\<lambda>_. ret requeue_later) (\<lambda>_. ret finished))"

definition EventReport_Reconcile ::
  "('w, event_report_spec, 'h) ctl_env \<Rightarrow> string \<Rightarrow> string \<Rightarrow> ('w, ctrl_result) act" where
  "EventReport_Reconcile E ns n =
     call (cl_Get (ct_client E) ns n)
       (\<lambda>e. if e = NotFound then ret finished else fail e)
       (\<lambda>report. if shouldIgnore (ct_lib E) report then ret finished
                 else call (sync_finalizer E report) (\<lambda>_. ret requeue_later) (\<lambda>_. ret finished))"

section \<open>Node\<close>

definition findClassifierUsingKubernetesVersion :: "('w, classifier_spec) client \<Rightarrow> ('w, string list) act" where
  "findClassifierUsingKubernetesVersion C =
     andThen (cl_List C) (\<lambda>items.
       ret (map (\<lambda>c. om_Name (metadata c))
         (filter (\<lambda>c. case cs_KubernetesVersionConstraints (Spec c) of None \<Rightarrow> False | Some ks \<Rightarrow> 0 < length ks) items)))"

text \<open>The state is the Kubernetes version seen last, the manager and the world.\<close>

definition Node_Reconcile ::
  "('w, 'node) client \<Rightarrow> ('w, classifier_spec) client \<Rightarrow> ('w, string) act \<Rightarrow> string \<Rightarrow> string \<Rightarrow>
   ((string, 'w) cstate, ctrl_result) act" where
  "Node_Reconcile nodes C GetKubernetesVersion ns n = (\<lambda>(kubernetesVersion, mgr, w).
     (case cl_Get nodes ns n w of
        (Err e, w1) \<Rightarrow> (if e = NotFound then Ok finished else Err e, (kubernetesVersion, mgr, w1))
      | (Panic, w1) \<Rightarrow> (Panic, (kubernetesVersion, mgr, w1))
      | (Ok _, w1) \<Rightarrow>
          (case GetKubernetesVersion w1 of
             (Err _, w2) \<Rightarrow> (Ok finished, (kubernetesVersion, mgr, w2))
           | (Panic, w2) \<Rightarrow> (Panic, (kubernetesVersion, mgr, w2))
           | (Ok version, w2) \<Rightarrow>
               if version = kubernetesVersion then (Ok finished, (kubernetesVersion, mgr, w2))
               else (case findClassifierUsingKubernetesVersion C w2 of
                       (Err e, w3) \<Rightarrow> (Err e, (kubernetesVersion, mgr, w3))
                     | (Panic, w3) \<Rightarrow> (Panic, (kubernetesVersion, mgr, w3))
                     | (Ok list, w3) \<Rightarrow>
                         (case mgr of
                            None \<Rightarrow> if list = [] then (Ok finished, (version, None, w3))
                                    else (Panic, (kubernetesVersion, None, w3))
                          | Some m \<Rightarrow> (Ok finished, (version, Some (fold EvaluateClassifier list m), w3)))))))"

section \<open>The predicates on ConfigMaps and Secrets\<close>

text \<open>reflect.DeepEqual on Go maps: nil is not the empty map; otherwise the same keys with the same values.\<close>

definition deep_equal :: "(string, string) gomap option \<Rightarrow> (string, string) gomap option \<Rightarrow> bool" where
  "deep_equal a b =
     (case (a, b) of
        (None, None) \<Rightarrow> True
      | (Some x, Some y) \<Rightarrow> keys x = keys y \<and> list_all (\<lambda>k. map_of x k = map_of y k) (map fst x)
      | _ \<Rightarrow> False)"

record configmap =
  cm_Namespace :: string
  cm_Name :: string
  cm_Data :: "(string, string) gomap option"
  cm_BinaryData :: "(string, string) gomap option"

record secret =
  sec_Namespace :: string
  sec_Name :: string
  sec_Data :: "(string, string) gomap option"
  sec_StringData :: "(string, string) gomap option"

text \<open>The objects of an event are interfaces: \<open>None\<close> is a nil interface (the type assertion panics),
  \<open>Some None\<close> a nil pointer of the right type.\<close>

datatype 'o event = UpdateEvent "'o option option" "'o option option" | CreateEvent | DeleteEvent | GenericEvent

definition enqueue_through :: "(manager \<Rightarrow> manager) \<Rightarrow> manager option \<Rightarrow> manager option outcome" where
  "enqueue_through g mgr = (case mgr of None \<Rightarrow> Panic | Some m \<Rightarrow> Ok (Some (g m)))"

definition on_changes :: "(manager \<Rightarrow> manager) \<Rightarrow> bool \<Rightarrow> bool \<Rightarrow> manager option \<Rightarrow> (bool \<times> manager option) outcome" where
  "on_changes g first second mgr =
     (case (if first then enqueue_through g mgr else Ok mgr) of
        Ok mgr1 \<Rightarrow> (case (if second then enqueue_through g mgr1 else Ok mgr1) of
                      Ok mgr2 \<Rightarrow> Ok (False, mgr2) | _ \<Rightarrow> Panic)
      | _ \<Rightarrow> Panic)"

definition ConfigMapPredicates :: "configmap event \<Rightarrow> manager option \<Rightarrow> (bool \<times> manager option) outcome" where
  "ConfigMapPredicates e mgr =
     (case e of
        UpdateEvent (Some (Some newConfigMap)) (Some old) \<Rightarrow>
          (let queue = EvaluateConfigMap (cm_Namespace newConfigMap) (cm_Name newConfigMap) in
           case old of
             None \<Rightarrow> on_changes queue True False mgr
           | Some oldConfigMap \<Rightarrow>
               on_changes queue (\<not> deep_equal (cm_Data oldConfigMap) (cm_Data newConfigMap))
                 (\<not> deep_equal (cm_BinaryData oldConfigMap) (cm_BinaryData newConfigMap)) mgr)
      | UpdateEvent _ _ \<Rightarrow> Panic
      | _ \<Rightarrow> Ok (False, mgr))"

text \<open>The Secret is queued with EvaluateConfigMap.\<close>

definition SecretPredicates :: "secret event \<Rightarrow> manager option \<Rightarrow> (bool \<times> manager option) outcome" where
  "SecretPredicates e mgr =
     (case e of
        UpdateEvent (Some (Some newSecret)) (Some old) \<Rightarrow>
          (let queue = EvaluateConfigMap (sec_Namespace newSecret) (sec_Name newSecret) in
           case old of
             None \<Rightarrow> on_changes queue True False mgr
           | Some oldSecret \<Rightarrow>
               on_changes queue (\<not> deep_equal (sec_Data oldSecret) (sec_Data newSecret))
                 (\<not> deep_equal (sec_StringData oldSecret) (sec_StringData newSecret)) mgr)
      | UpdateEvent _ _ \<Rightarrow> Panic
      | _ \<Rightarrow> Ok (False, mgr))"

section \<open>Lemmas\<close>

lemma deep_equal_maps:
  "deep_equal a b \<longleftrightarrow> (case (a, b) of (None, None) \<Rightarrow> True | (Some x, Some y) \<Rightarrow> map_of x = map_of y | _ \<Rightarrow> False)"
proof -
  have "keys x = keys y \<and> list_all (\<lambda>k. map_of x k = map_of y k) (map fst x) \<longleftrightarrow> map_of x = map_of y"
    for x y :: "(string, string) gomap"
  proof
    assume same: "keys x = keys y \<and> list_all (\<lambda>k. map_of x k = map_of y k) (map fst x)"
    show "map_of x = map_of y"
    proof
      fix k
      show "map_of x k = map_of y k"
      proof (cases "k \<in> keys x")
        case True
        moreover have "\<forall>k \<in> keys x. map_of x k = map_of y k"
          using conjunct2 [OF same] by (simp add: list_all_iff)
        ultimately show ?thesis by blast
      next
        case False
        with same have "map_of x k = None" "map_of y k = None"
          by (simp_all add: map_of_eq_None_iff)
        then show ?thesis by simp
      qed
    qed
  next
    assume eq: "map_of x = map_of y"
    then have "keys x = keys y"
      by (metis dom_map_of_conv_image_fst)
    with eq show "keys x = keys y \<and> list_all (\<lambda>k. map_of x k = map_of y k) (map fst x)"
      by (simp add: list_all_iff)
  qed
  then show ?thesis by (simp add: deep_equal_def split: option.splits)
qed

lemma EvaluateConfigMap_twice [simp]:
  "EvaluateConfigMap ns n (EvaluateConfigMap ns n m) = EvaluateConfigMap ns n m"
  by (simp add: EvaluateConfigMap_def)

lemma keys_enqueue_names:
  "keys (classifierJobQueue (fold EvaluateClassifier ns m)) = set ns \<union> keys (classifierJobQueue m)"
  by (induction ns arbitrary: m) (auto simp: EvaluateClassifier_def)

context reconciler_world
begin

lemma sync_finalizer_frame:
  assumes "sync_finalizer E x w = (r, w')"
  shows "stored w' = stored w \<and> rest w' = rest w \<and> r \<noteq> Panic"
  using assms patchObject_frame
  by (auto simp: sync_finalizer_def addFinalizer_def removeFinalizer_def Let_def ret_def split: if_splits)

lemma sync_call_frame:
  assumes "call (sync_finalizer E x) (\<lambda>_. ret requeue_later) (\<lambda>_. ret finished) w = (r, w')"
  shows "stored w' = stored w \<and> rest w' = rest w \<and> r \<in> {Ok finished, Ok requeue_later}"
proof -
  obtain q w1 where run: "sync_finalizer E x w = (q, w1)"
    by fastforce
  with sync_finalizer_frame [OF run] assms show ?thesis
    by (cases q) (auto simp: run_act)
qed

end

section \<open>Properties\<close>

text \<open>C27. The report controllers never change a finalizer: addFinalizer and removeFinalizer change the object
  first and make the patch helper from the changed object, so the patch is empty. Whatever the report,
  a run of the HealthCheckReport or EventReport reconciler leaves every stored report as it was: the
  finalizer is not added to a live report, and not removed from one that is deleted and processed.\<close>

theorem report_finalizers_unchanged:
  assumes "reconciler_world H stored_h rest_h base_h" and "reconciler_world E stored_e rest_e base_e"
    and "HealthCheckReport_Reconcile H ns n w = (res, w')"
    and "EventReport_Reconcile E ns n v = (res', v')"
  shows "stored_h w' = stored_h w \<and> rest_h w' = rest_h w \<and> stored_e v' = stored_e v \<and> rest_e v' = rest_e v"
proof -
  obtain q w1 where hget: "cl_Get (ct_client H) ns n w = (q, w1)"
    by fastforce
  note h = wpD [OF api_client.get_law [OF reconciler_world.axioms(1) [OF assms(1)]] hget]
  have "stored_h w' = stored_h w \<and> rest_h w' = rest_h w"
    using assms(3) hget h reconciler_world.sync_call_frame [OF assms(1)]
    by (cases q) (force simp: HealthCheckReport_Reconcile_def run_act split: if_splits)+
  moreover obtain q' v1 where eget: "cl_Get (ct_client E) ns n v = (q', v1)"
    by fastforce
  note e = wpD [OF api_client.get_law [OF reconciler_world.axioms(1) [OF assms(2)]] eget]
  have "stored_e v' = stored_e v \<and> rest_e v' = rest_e v"
    using assms(4) eget e reconciler_world.sync_call_frame [OF assms(2)]
    by (cases q') (force simp: EventReport_Reconcile_def run_act split: if_splits)+
  ultimately show ?thesis by simp
qed

text \<open>A new Kubernetes version re-evaluates what depends on it: when Reconcile of a Node succeeds and the
  version could be read, either it is the version seen last and nothing is queued, or exactly
  the Classifiers with version constraints are added to the queue and the version is remembered.\<close>

theorem Node_Reconcile_requeues:
  assumes "cl_Get nodes ns n w = (Ok node, w1)" and "GetVersion w1 = (Ok version, w2)"
    and "cl_List C w2 = (Ok items, w3)"
    and "Node_Reconcile nodes C GetVersion ns n (seen, Some m, w) = (Ok res, (seen', mgr', w'))"
  shows "\<exists>m'. mgr' = Some m' \<and> seen' = version \<and>
    (if version = seen then m' = m
     else keys (classifierJobQueue m') = keys (classifierJobQueue m) \<union>
       {om_Name (metadata c) | c. c \<in> set items \<and>
          (\<exists>k ks. cs_KubernetesVersionConstraints (Spec c) = Some (k # ks))})"
proof (cases "version = seen")
  case True
  with assms show ?thesis by (auto simp: Node_Reconcile_def)
next
  case False
  let ?names = "map (\<lambda>c. om_Name (metadata c))
    (filter (\<lambda>c. case cs_KubernetesVersionConstraints (Spec c) of None \<Rightarrow> False | Some ks \<Rightarrow> 0 < length ks) items)"
  have "mgr' = Some (fold EvaluateClassifier ?names m) \<and> seen' = version"
    using assms False
    by (auto simp: Node_Reconcile_def findClassifierUsingKubernetesVersion_def call_def ret_def)
  moreover have "set ?names = {om_Name (metadata c) | c. c \<in> set items \<and>
      (\<exists>k ks. cs_KubernetesVersionConstraints (Spec c) = Some (k # ks))}"
    by (auto simp: neq_Nil_conv split: option.splits)
  ultimately show ?thesis
    using False keys_enqueue_names [of ?names m] by auto
qed

text \<open>A ConfigMap is queued exactly when its content changed: an update event for which Data and BinaryData
  are the same maps (nil counts as different from empty) leaves the manager as it is, any other
  queues the ConfigMap once; no reconcile request follows.\<close>

theorem ConfigMap_queued_iff_changed:
  "ConfigMapPredicates (UpdateEvent (Some (Some new)) (Some (Some old))) (Some m) =
     Ok (False, Some (if deep_equal (cm_Data old) (cm_Data new) \<and> deep_equal (cm_BinaryData old) (cm_BinaryData new)
                      then m else EvaluateConfigMap (cm_Namespace new) (cm_Name new) m)) \<and>
   (deep_equal d d' \<longleftrightarrow>
     (case (d, d') of (None, None) \<Rightarrow> True | (Some x, Some y) \<Rightarrow> map_of x = map_of y | _ \<Rightarrow> False))"
  by (simp add: ConfigMapPredicates_def on_changes_def enqueue_through_def Let_def deep_equal_maps)

text \<open>C35. A changed Secret is queued as a ConfigMap: when the data of a Secret changes, SecretPredicates puts the key
  of the ConfigMap of that name on the Reloader queue, and no key of a Secret, so the evaluation never
  looks for the workloads that mount the Secret.\<close>

theorem Secret_change_queues_ConfigMap:
  assumes "\<not> deep_equal (sec_Data old) (sec_Data new)"
    and "SecretPredicates (UpdateEvent (Some (Some new)) (Some (Some old))) (Some m) = Ok (b, mgr')"
  shows "\<exists>m'. mgr' = Some m' \<and> \<not> b \<and>
    keys (reloaderJobQueue m') =
      insert (mounted_key ''ConfigMap'' (sec_Namespace new) (sec_Name new)) (keys (reloaderJobQueue m)) \<and>
    (\<forall>ns n. mounted_key ''Secret'' ns n \<in> keys (reloaderJobQueue m') \<longrightarrow>
       mounted_key ''Secret'' ns n \<in> keys (reloaderJobQueue m))"
  using assms
  by (auto simp: SecretPredicates_def on_changes_def enqueue_through_def Let_def EvaluateConfigMap_def
      mounted_key_def split: if_splits)

section \<open>Runs\<close>

text \<open>Report controllers: the reports are the sources of the reference world.\<close>

definition ref_hcr_ctl ::
  "((healthcheck_report_spec, unit) agent_world, healthcheck_report_spec, healthcheck_report) ctl_env" where
  "ref_hcr_ctl = ref_ctl ''hrf'' (GVK ''lib.projectsveltos.io'' ''v1beta1'' ''HealthCheckReport'')"

definition ref_er_ctl ::
  "((event_report_spec, unit) agent_world, event_report_spec, event_report) ctl_env" where
  "ref_er_ctl = ref_ctl ''erf'' (GVK ''lib.projectsveltos.io'' ''v1beta1'' ''EventReport'')"

text \<open>A report that is deleted, processed, and waits for its finalizer to go.\<close>

definition processed_report :: "'rep \<Rightarrow> 'rep kobject" where
  "processed_report spec = doomed ''hrf''
     \<lparr>metadata = empty_meta ''projectsveltos'' ''x'', Spec = spec, status_Phase = Some ReportProcessed\<rparr>"

definition ref_hcr_world :: "(healthcheck_report_spec, unit) agent_world" where
  "ref_hcr_world = ref_world [processed_report \<lparr>hrs_ClusterNamespace = '''', hrs_ClusterName = '''',
     hrs_ClusterType = '''', hrs_HealthCheckName = ''x'', hrs_ResourceStatuses = []\<rparr>] [] [] []"

definition ref_er_world :: "(event_report_spec, unit) agent_world" where
  "ref_er_world = ref_world [deployed \<lparr>metadata = empty_meta ''projectsveltos'' ''x'',
     Spec = \<lparr>ers_ClusterNamespace = '''', ers_ClusterName = '''', ers_ClusterType = '''', ers_EventSourceName = ''x'',
       ers_MatchingResources = None, ers_Resources = None, ers_CloudEvents = []\<rparr>, status_Phase = None\<rparr>] [] [] []"

text \<open>The finalizer of the first report should go and the second report should get one: neither happens.\<close>

theorem report_finalizers_unchanged_witness:
  "fst (HealthCheckReport_Reconcile ref_hcr_ctl ''projectsveltos'' ''x'' ref_hcr_world) = Ok finished \<and>
   fst (EventReport_Reconcile ref_er_ctl ''projectsveltos'' ''x'' ref_er_world) = Ok finished \<and>
   srv_stored aw_sources (snd (HealthCheckReport_Reconcile ref_hcr_ctl ''projectsveltos'' ''x'' ref_hcr_world)) =
     srv_stored aw_sources ref_hcr_world \<and>
   srv_stored aw_sources (snd (EventReport_Reconcile ref_er_ctl ''projectsveltos'' ''x'' ref_er_world)) =
     srv_stored aw_sources ref_er_world"
proof -
  let ?h = "HealthCheckReport_Reconcile ref_hcr_ctl ''projectsveltos'' ''x'' ref_hcr_world"
  let ?e = "EventReport_Reconcile ref_er_ctl ''projectsveltos'' ''x'' ref_er_world"
  have ok: "fst ?h = Ok finished" "fst ?e = Ok finished"
    by code_simp+
  have worlds: "reconciler_world ref_hcr_ctl (srv_stored aw_sources) (\<lambda>w. (srv_stored aw_reports w, srv_stored aw_mgmt w)) id"
    "reconciler_world ref_er_ctl (srv_stored aw_sources) (\<lambda>w. (srv_stored aw_reports w, srv_stored aw_mgmt w)) id"
    unfolding ref_hcr_ctl_def ref_er_ctl_def by (rule ref_ctl_world)+
  have "?h = (fst ?h, snd ?h)" "?e = (fst ?e, snd ?e)"
    by simp_all
  from report_finalizers_unchanged [OF worlds this] ok show ?thesis by simp
qed

text \<open>One Node, and two Classifiers of which one has a version constraint.\<close>

definition ref_node_world :: "(classifier_spec, unit) agent_world" where
  "ref_node_world = ref_world [ref_classifier [at_least ''1.27.0''] [],
     (ref_classifier [] [])\<lparr>metadata := empty_meta '''' ''c2''\<rparr>]
     [\<lparr>metadata = empty_meta '''' ''node'', Spec = (), status_Phase = None\<rparr>] [] []"

theorem Node_Reconcile_requeues_witness:
  "\<exists>m' w'. Node_Reconcile reports_client sources_client (\<lambda>w. (Ok (aw_version w), w)) '''' ''node''
       ('''', Some (ref_manager True), ref_node_world) = (Ok finished, (''1.27.3'', Some m', w')) \<and>
     keys (classifierJobQueue m') = {''c1''}"
proof -
  let ?gv = "\<lambda>w :: (classifier_spec, unit) agent_world. (Ok (aw_version w), w)"
  let ?run = "Node_Reconcile reports_client sources_client ?gv '''' ''node'' ('''', Some (ref_manager True), ref_node_world)"
  let ?get = "cl_Get reports_client '''' ''node'' ref_node_world"
  let ?list = "cl_List sources_client (snd ?get)"
  let ?items = "[ref_classifier [at_least ''1.27.0''] [], (ref_classifier [] [])\<lparr>metadata := empty_meta '''' ''c2''\<rparr>]"
  have ok: "fst ?run = Ok finished" and node: "fst ?get = Ok \<lparr>metadata = empty_meta '''' ''node'', Spec = (), status_Phase = None\<rparr>"
    and list: "fst ?list = Ok ?items" and v: "aw_version (snd ?get) = ''1.27.3''"
    and none: "classifierJobQueue (ref_manager True) = []"
    by code_simp+
  from ok obtain s' mgr' w' where run: "?run = (Ok finished, (s', mgr', w'))"
    by (rule run_of)
  have "?get = (Ok \<lparr>metadata = empty_meta '''' ''node'', Spec = (), status_Phase = None\<rparr>, snd ?get)"
    "?gv (snd ?get) = (Ok ''1.27.3'', snd ?get)" "?list = (Ok ?items, snd ?list)"
    using node list v by (simp_all add: prod_eq_iff)
  from Node_Reconcile_requeues [OF this run] obtain m' where "mgr' = Some m'" "s' = ''1.27.3''"
    and "keys (classifierJobQueue m') = {om_Name (metadata c) | c. c \<in> set ?items \<and>
          (\<exists>k ks. cs_KubernetesVersionConstraints (Spec c) = Some (k # ks))}"
    using none by auto
  moreover have "{om_Name (metadata c) | c. c \<in> set ?items \<and>
      (\<exists>k ks. cs_KubernetesVersionConstraints (Spec c) = Some (k # ks))} = {''c1''}"
    by (auto simp: ref_classifier_def intro!: exI [of _ "ref_classifier [at_least ''1.27.0''] []"])
  ultimately show ?thesis using run by simp
qed

theorem Secret_change_queues_ConfigMap_witness:
  "\<exists>m'. SecretPredicates (UpdateEvent
       (Some (Some \<lparr>sec_Namespace = ''ns'', sec_Name = ''s'', sec_Data = Some [(''k'', ''2'')], sec_StringData = None\<rparr>))
       (Some (Some \<lparr>sec_Namespace = ''ns'', sec_Name = ''s'', sec_Data = Some [(''k'', ''1'')], sec_StringData = None\<rparr>)))
       (Some (ref_manager True)) = Ok (False, Some m') \<and>
     keys (reloaderJobQueue m') = {''ConfigMap:ns/s''}"
proof -
  let ?old = "\<lparr>sec_Namespace = ''ns'', sec_Name = ''s'', sec_Data = Some [(''k'', ''1'')], sec_StringData = None\<rparr>"
  let ?new = "\<lparr>sec_Namespace = ''ns'', sec_Name = ''s'', sec_Data = Some [(''k'', ''2'')], sec_StringData = None\<rparr>"
  have ne: "\<not> deep_equal (sec_Data ?old) (sec_Data ?new)"
    by (simp add: deep_equal_def)
  have run: "SecretPredicates (UpdateEvent (Some (Some ?new)) (Some (Some ?old))) (Some (ref_manager True)) =
      Ok (False, Some (EvaluateConfigMap ''ns'' ''s'' (ref_manager True)))"
    by (simp add: SecretPredicates_def on_changes_def enqueue_through_def deep_equal_def)
  have "reloaderJobQueue (ref_manager True) = []"
    by (simp add: ref_manager_def InitializeManager_def)
  with Secret_change_queues_ConfigMap [OF ne run] run show ?thesis
    by (auto simp: mounted_key_def)
qed

end
