(* ===== verification/Main_Program.thy ===== *)
theory Main_Program
  imports Report_Controllers
begin

text \<open>
  cmd/main.go, the start of the controllers once their CRDs are there, and the SetupWithManager methods that
  register the react method of a controller with the evaluation manager; \<open>Main_Loop\<close> has the rest of the file.
  \<^verbatim>\<open>os.Exit(1)\<close> ends the process as a panic does, and is \<open>Panic\<close> here. The controller-runtime builder is a
  parameter. The loops that wait for an answer of the API server have fuel: \<open>None\<close> means that they are
  still waiting.
\<close>

section \<open>Parameters\<close>

type_synonym 'w pstate = "manager option \<times> 'w"

record 'w main_env =
  pe_crds :: "('w, unit) client"
  pe_buildClassifier :: "('w, unit) act"
  pe_buildNode :: "('w, unit) act"
  pe_buildHealthCheck :: "('w, unit) act"
  pe_buildHealthCheckReport :: "('w, unit) act"
  pe_buildEventSource :: "('w, unit) act"
  pe_buildEventReport :: "('w, unit) act"
  pe_buildReloader :: "('w, unit) act"

definition in_pworld :: "('w, 'a) act \<Rightarrow> ('w pstate, 'a) act" where
  "in_pworld f = (\<lambda>(mgr, w). case f w of (r, w') \<Rightarrow> (r, (mgr, w')))"

definition register :: "(manager \<Rightarrow> manager) \<Rightarrow> ('w pstate, unit) act" where
  "register g = (\<lambda>(mgr, w). case mgr of None \<Rightarrow> (Panic, (None, w)) | Some m \<Rightarrow> (Ok (), (Some (g m), w)))"

text \<open>\<^verbatim>\<open>if err != nil { os.Exit(1) }\<close>\<close>

definition or_exit :: "('w, 'a) act \<Rightarrow> ('w, 'a) act" where
  "or_exit f = call f (\<lambda>_. panic) ret"

section \<open>SetupWithManager\<close>

definition Classifier_SetupWithManager :: "'w main_env \<Rightarrow> ('w pstate, unit) act" where
  "Classifier_SetupWithManager E =
     andThen (in_pworld (pe_buildClassifier E)) (\<lambda>_. register RegisterClassifierMethod)"

definition HealthCheck_SetupWithManager :: "'w main_env \<Rightarrow> ('w pstate, unit) act" where
  "HealthCheck_SetupWithManager E =
     andThen (in_pworld (pe_buildHealthCheck E)) (\<lambda>_. register RegisterHealthCheckMethod)"

definition EventSource_SetupWithManager :: "'w main_env \<Rightarrow> ('w pstate, unit) act" where
  "EventSource_SetupWithManager E =
     andThen (in_pworld (pe_buildEventSource E)) (\<lambda>_. register RegisterEventSourceMethod)"

definition Reloader_SetupWithManager :: "'w main_env \<Rightarrow> ('w pstate, unit) act" where
  "Reloader_SetupWithManager E =
     andThen (in_pworld (pe_buildReloader E)) (\<lambda>_. register RegisterReloaderMethod)"

definition Node_SetupWithManager :: "'w main_env \<Rightarrow> ('w pstate, unit) act" where
  "Node_SetupWithManager E = in_pworld (pe_buildNode E)"

definition HealthCheckReport_SetupWithManager :: "'w main_env \<Rightarrow> ('w pstate, unit) act" where
  "HealthCheckReport_SetupWithManager E = in_pworld (pe_buildHealthCheckReport E)"

definition EventReport_SetupWithManager :: "'w main_env \<Rightarrow> ('w pstate, unit) act" where
  "EventReport_SetupWithManager E = in_pworld (pe_buildEventReport E)"

section \<open>Starting the controllers\<close>

definition isCRDPresent :: "('w, unit) client \<Rightarrow> string \<Rightarrow> ('w, bool) act" where
  "isCRDPresent c crdName =
     call (cl_Get c '''' crdName) (\<lambda>e. if e = NotFound then ret False else fail e) (\<lambda>_. ret True)"

text \<open>The loop of every start function: ask until there is an answer, set up when the CRD is there.\<close>

fun start_reconciler ::
  "('w, unit) client \<Rightarrow> string \<Rightarrow> ('w pstate, unit) act \<Rightarrow> nat \<Rightarrow> 'w pstate \<Rightarrow> (unit outcome \<times> 'w pstate) option" where
  "start_reconciler c crdName setup 0 s = None"
| "start_reconciler c crdName setup (Suc fuel) s =
     (case in_pworld (isCRDPresent c crdName) s of
        (Err _, s') \<Rightarrow> start_reconciler c crdName setup fuel s'
      | (Panic, s') \<Rightarrow> Some (Panic, s')
      | (Ok isPresent, s') \<Rightarrow> Some (if isPresent then setup s' else (Ok (), s')))"

definition startClassifierReconciler :: "'w main_env \<Rightarrow> nat \<Rightarrow> 'w pstate \<Rightarrow> (unit outcome \<times> 'w pstate) option" where
  "startClassifierReconciler E = start_reconciler (pe_crds E) ''classifiers.lib.projectsveltos.io''
     (andThen (or_exit (Node_SetupWithManager E)) (\<lambda>_. or_exit (Classifier_SetupWithManager E)))"

definition startHealthCheckReconciler :: "'w main_env \<Rightarrow> nat \<Rightarrow> 'w pstate \<Rightarrow> (unit outcome \<times> 'w pstate) option" where
  "startHealthCheckReconciler E = start_reconciler (pe_crds E) ''healthchecks.lib.projectsveltos.io''
     (andThen (or_exit (HealthCheck_SetupWithManager E)) (\<lambda>_. or_exit (HealthCheckReport_SetupWithManager E)))"

definition startEventSourceReconciler :: "'w main_env \<Rightarrow> nat \<Rightarrow> 'w pstate \<Rightarrow> (unit outcome \<times> 'w pstate) option" where
  "startEventSourceReconciler E = start_reconciler (pe_crds E) ''eventsources.lib.projectsveltos.io''
     (andThen (or_exit (EventSource_SetupWithManager E)) (\<lambda>_. or_exit (EventReport_SetupWithManager E)))"

definition startReloaderReconciler :: "'w main_env \<Rightarrow> nat \<Rightarrow> 'w pstate \<Rightarrow> (unit outcome \<times> 'w pstate) option" where
  "startReloaderReconciler E = start_reconciler (pe_crds E) ''reloaders.lib.projectsveltos.io''
     (or_exit (Reloader_SetupWithManager E))"

text \<open>The first loop of startControllers takes every error, also NotFound, as a reason to try again.\<close>

fun wait_for_debugging :: "('w, unit) client \<Rightarrow> nat \<Rightarrow> 'w pstate \<Rightarrow> (unit outcome \<times> 'w pstate) option" where
  "wait_for_debugging c 0 s = None"
| "wait_for_debugging c (Suc fuel) s =
     (case in_pworld (cl_Get c '''' ''debuggingconfigurations.lib.projectsveltos.io'') s of
        (Err _, s') \<Rightarrow> wait_for_debugging c fuel s'
      | (Panic, s') \<Rightarrow> Some (Panic, s')
      | (Ok _, s') \<Rightarrow> Some (Ok (), s'))"

definition then_start ::
  "(unit outcome \<times> 'w pstate) option \<Rightarrow> ('w pstate \<Rightarrow> (unit outcome \<times> 'w pstate) option) \<Rightarrow>
   (unit outcome \<times> 'w pstate) option" where
  "then_start a k = (case a of Some (Ok _, s) \<Rightarrow> k s | _ \<Rightarrow> a)"

definition startControllers :: "'w main_env \<Rightarrow> nat \<Rightarrow> 'w pstate \<Rightarrow> (unit outcome \<times> 'w pstate) option" where
  "startControllers E fuel s =
     then_start (then_start (then_start (then_start (wait_for_debugging (pe_crds E) fuel s)
       (startClassifierReconciler E fuel))
       (startHealthCheckReconciler E fuel))
       (startEventSourceReconciler E fuel))
       (startReloaderReconciler E fuel)"

section \<open>Lemmas\<close>

text \<open>An action that succeeds and leaves the CRDs alone.\<close>

definition calm :: "('w \<Rightarrow> 'x) \<Rightarrow> ('w, unit) act \<Rightarrow> bool" where
  "calm g f \<longleftrightarrow> (\<forall>w. \<exists>w'. f w = (Ok (), w') \<and> g w' = g w)"

definition crd_present :: "('w \<Rightarrow> unit server) \<Rightarrow> 'w \<Rightarrow> string \<Rightarrow> bool" where
  "crd_present g w crdName \<longleftrightarrow> srv_stored g w ('''', crdName) \<noteq> None"

text \<open>A query: a scheduled fault is used up, or the answer comes.\<close>

lemma crd_query:
  assumes "server_at g p rest"
  obtains w' where "srv_objects (g w') = srv_objects (g w)" "srv_faults (g w') = tl (srv_faults (g w))"
    "(\<exists>e. e \<noteq> NotFound \<and> srv_faults (g w) \<noteq> [] \<and> cl_Get (server_client g p) '''' n w = (Err e, w')) \<or>
     (if crd_present g w n then \<exists>x. cl_Get (server_client g p) '''' n w = (Ok x, w')
      else cl_Get (server_client g p) '''' n w = (Err NotFound, w'))"
proof -
  obtain r w' where get: "cl_Get (server_client g p) '''' n w = (r, w')"
    by fastforce
  show thesis
    by (rule that [of w'])
      (use get assms in \<open>auto simp: serve_def Let_def server_at_def srv_get_def crd_present_def
        split: list.splits option.splits if_splits\<close>)
qed

lemma start_reconciler_total:
  assumes at: "server_at g p rest"
  shows "length (srv_faults (g w)) < fuel \<Longrightarrow>
    \<exists>w'. srv_objects (g w') = srv_objects (g w) \<and> length (srv_faults (g w')) \<le> length (srv_faults (g w)) \<and>
      start_reconciler (server_client g p) n setup fuel (mgr, w) =
        Some (if crd_present g w n then setup (mgr, w') else (Ok (), (mgr, w')))"
proof (induction fuel arbitrary: w)
  case (Suc fuel)
  obtain w1 where w1: "srv_objects (g w1) = srv_objects (g w)" "srv_faults (g w1) = tl (srv_faults (g w))"
    and q: "(\<exists>e. e \<noteq> NotFound \<and> srv_faults (g w) \<noteq> [] \<and> cl_Get (server_client g p) '''' n w = (Err e, w1)) \<or>
      (if crd_present g w n then \<exists>x. cl_Get (server_client g p) '''' n w = (Ok x, w1)
       else cl_Get (server_client g p) '''' n w = (Err NotFound, w1))"
    using crd_query [OF at] by metis
  from q show ?case
  proof
    assume "\<exists>e. e \<noteq> NotFound \<and> srv_faults (g w) \<noteq> [] \<and> cl_Get (server_client g p) '''' n w = (Err e, w1)"
    then obtain e where e: "e \<noteq> NotFound" "srv_faults (g w) \<noteq> []" "cl_Get (server_client g p) '''' n w = (Err e, w1)"
      by blast
    have "start_reconciler (server_client g p) n setup (Suc fuel) (mgr, w) =
        start_reconciler (server_client g p) n setup fuel (mgr, w1)"
      using e by (simp add: in_pworld_def isCRDPresent_def run_act del: server_client_simps)
    moreover have "length (srv_faults (g w1)) < fuel"
      using Suc.prems e(2) w1 by (cases "srv_faults (g w)") auto
    moreover have "crd_present g w1 n = crd_present g w n"
      by (simp add: crd_present_def w1)
    ultimately show ?thesis using Suc.IH [of w1] w1 by (auto simp del: start_reconciler.simps)
  next
    assume "if crd_present g w n then \<exists>x. cl_Get (server_client g p) '''' n w = (Ok x, w1)
       else cl_Get (server_client g p) '''' n w = (Err NotFound, w1)"
    then have "start_reconciler (server_client g p) n setup (Suc fuel) (mgr, w) =
        Some (if crd_present g w n then setup (mgr, w1) else (Ok (), (mgr, w1)))"
      by (auto simp: in_pworld_def isCRDPresent_def run_act simp del: server_client_simps split: if_splits)
    with w1 show ?thesis by auto
  qed
qed simp

lemma wait_total:
  assumes at: "server_at g p rest"
  shows "length (srv_faults (g w)) < fuel \<Longrightarrow> crd_present g w ''debuggingconfigurations.lib.projectsveltos.io'' \<Longrightarrow>
    \<exists>w'. srv_objects (g w') = srv_objects (g w) \<and> length (srv_faults (g w')) \<le> length (srv_faults (g w)) \<and>
      wait_for_debugging (server_client g p) fuel (mgr, w) = Some (Ok (), (mgr, w'))"
proof (induction fuel arbitrary: w)
  case (Suc fuel)
  let ?n = "''debuggingconfigurations.lib.projectsveltos.io''"
  obtain w1 where w1: "srv_objects (g w1) = srv_objects (g w)" "srv_faults (g w1) = tl (srv_faults (g w))"
    and q: "(\<exists>e. e \<noteq> NotFound \<and> srv_faults (g w) \<noteq> [] \<and> cl_Get (server_client g p) '''' ?n w = (Err e, w1)) \<or>
      (if crd_present g w ?n then \<exists>x. cl_Get (server_client g p) '''' ?n w = (Ok x, w1)
       else cl_Get (server_client g p) '''' ?n w = (Err NotFound, w1))"
    using crd_query [OF at, of w ?n] by metis
  have present: "crd_present g w1 ?n"
    using Suc.prems(2) by (simp add: crd_present_def w1)
  have less: "srv_faults (g w) \<noteq> [] \<Longrightarrow> length (srv_faults (g w1)) < fuel"
    using Suc.prems(1) w1 by (cases "srv_faults (g w)") auto
  from q Suc.prems(2) consider e where "srv_faults (g w) \<noteq> []" "cl_Get (server_client g p) '''' ?n w = (Err e, w1)"
    | x where "cl_Get (server_client g p) '''' ?n w = (Ok x, w1)"
    by auto
  then show ?case
  proof cases
    case 1
    with Suc.IH [OF less present] w1 show ?thesis
      by (auto simp: in_pworld_def simp del: server_client_simps)
  next
    case 2
    with w1 show ?thesis by (auto simp: in_pworld_def simp del: server_client_simps)
  qed
qed simp

lemma wait_never:
  assumes at: "server_at g p rest"
  shows "\<not> crd_present g w ''debuggingconfigurations.lib.projectsveltos.io'' \<Longrightarrow>
    wait_for_debugging (server_client g p) fuel (mgr, w) = None"
proof (induction fuel arbitrary: w)
  case (Suc fuel)
  let ?n = "''debuggingconfigurations.lib.projectsveltos.io''"
  obtain w1 where w1: "srv_objects (g w1) = srv_objects (g w)"
    and q: "(\<exists>e. e \<noteq> NotFound \<and> srv_faults (g w) \<noteq> [] \<and> cl_Get (server_client g p) '''' ?n w = (Err e, w1)) \<or>
      (if crd_present g w ?n then \<exists>x. cl_Get (server_client g p) '''' ?n w = (Ok x, w1)
       else cl_Get (server_client g p) '''' ?n w = (Err NotFound, w1))"
    using crd_query [OF at, of w ?n] by metis
  have "\<not> crd_present g w1 ?n"
    using Suc.prems by (simp add: crd_present_def w1)
  with Suc.IH [of w1] q Suc.prems show ?case
    by (auto simp: in_pworld_def simp del: server_client_simps)
qed simp

text \<open>A set-up that succeeds and changes the manager by \<open>H\<close>.\<close>

definition sets_up :: "('w \<Rightarrow> 'x) \<Rightarrow> ('w pstate, unit) act \<Rightarrow> (manager \<Rightarrow> manager) \<Rightarrow> bool" where
  "sets_up g setup H \<longleftrightarrow> (\<forall>m w. \<exists>w'. setup (Some m, w) = (Ok (), (Some (H m), w')) \<and> g w' = g w)"

lemma sets_up_build:
  assumes "calm g f"
  shows "sets_up g (or_exit (in_pworld f)) (\<lambda>m. m)"
  unfolding sets_up_def
proof (intro allI)
  fix m w
  obtain w' where "f w = (Ok (), w')" "g w' = g w"
    using assms unfolding calm_def by blast
  then show "\<exists>w'. or_exit (in_pworld f) (Some m, w) = (Ok (), (Some m, w')) \<and> g w' = g w"
    by (simp add: or_exit_def in_pworld_def call_def ret_def)
qed

lemma sets_up_register:
  assumes "calm g f"
  shows "sets_up g (or_exit (andThen (in_pworld f) (\<lambda>_. register H))) H"
  unfolding sets_up_def
proof (intro allI)
  fix m w
  obtain w' where "f w = (Ok (), w')" "g w' = g w"
    using assms unfolding calm_def by blast
  then show "\<exists>w'. or_exit (andThen (in_pworld f) (\<lambda>_. register H)) (Some m, w) = (Ok (), (Some (H m), w')) \<and> g w' = g w"
    by (simp add: or_exit_def in_pworld_def call_def ret_def register_def)
qed

lemma sets_up_then:
  assumes "sets_up g a H" and "sets_up g b K"
  shows "sets_up g (andThen a (\<lambda>_. b)) (\<lambda>m. K (H m))"
  unfolding sets_up_def
proof (intro allI)
  fix m w
  obtain w1 where w1: "a (Some m, w) = (Ok (), (Some (H m), w1))" "g w1 = g w"
    using assms(1) unfolding sets_up_def by blast
  moreover obtain w2 where "b (Some (H m), w1) = (Ok (), (Some (K (H m)), w2))" "g w2 = g w1"
    using assms(2) unfolding sets_up_def by blast
  ultimately show "\<exists>w'. andThen a (\<lambda>_. b) (Some m, w) = (Ok (), (Some (K (H m)), w')) \<and> g w' = g w"
    by (simp add: call_def)
qed

text \<open>A start function that ends on a server with the CRDs \<open>crds\<close> and fewer faults than \<open>fuel\<close>.\<close>

definition starts ::
  "('w \<Rightarrow> unit server) \<Rightarrow> (string \<times> string, unit kobject) gomap \<Rightarrow> nat \<Rightarrow>
   ('w pstate \<Rightarrow> (unit outcome \<times> 'w pstate) option) \<Rightarrow> (manager \<Rightarrow> manager) \<Rightarrow> bool" where
  "starts g crds fuel step H \<longleftrightarrow> (\<forall>m w. srv_objects (g w) = crds \<longrightarrow> length (srv_faults (g w)) < fuel \<longrightarrow>
     (\<exists>w'. srv_objects (g w') = crds \<and> length (srv_faults (g w')) < fuel \<and>
        step (Some m, w) = Some (Ok (), (Some (H m), w'))))"

lemma startsD:
  assumes "starts g crds fuel step H" and "srv_objects (g w) = crds" and "length (srv_faults (g w)) < fuel"
  obtains w' where "srv_objects (g w') = crds" "length (srv_faults (g w')) < fuel"
    "step (Some m, w) = Some (Ok (), (Some (H m), w'))"
  using assms unfolding starts_def by blast

lemma starts_then:
  assumes "starts g crds fuel a H" and "starts g crds fuel b K"
  shows "starts g crds fuel (\<lambda>s. then_start (a s) b) (\<lambda>m. K (H m))"
  unfolding starts_def
proof (intro allI impI)
  fix m w
  assume w: "srv_objects (g w) = crds" "length (srv_faults (g w)) < fuel"
  obtain w1 where w1: "srv_objects (g w1) = crds" "length (srv_faults (g w1)) < fuel"
    and a: "a (Some m, w) = Some (Ok (), (Some (H m), w1))"
    by (rule startsD [OF assms(1) w])
  obtain w2 where w2: "srv_objects (g w2) = crds" "length (srv_faults (g w2)) < fuel"
    and b: "b (Some (H m), w1) = Some (Ok (), (Some (K (H m)), w2))"
    by (rule startsD [OF assms(2) w1])
  show "\<exists>w'. srv_objects (g w') = crds \<and> length (srv_faults (g w')) < fuel \<and>
      then_start (a (Some m, w)) b = Some (Ok (), (Some (K (H m)), w'))"
    using w2 b by (simp add: then_start_def a)
qed

lemma starts_reconciler:
  assumes at: "server_at g p rest" and set_up: "sets_up g setup H"
  shows "starts g crds fuel (start_reconciler (server_client g p) n setup fuel)
    (if srv_lookup crds ('''', n) \<noteq> None then H else (\<lambda>m. m))"
  unfolding starts_def
proof (intro allI impI)
  fix m w
  assume w: "srv_objects (g w) = crds" "length (srv_faults (g w)) < fuel"
  obtain w1 where w1: "srv_objects (g w1) = crds" "length (srv_faults (g w1)) < fuel"
    and run: "start_reconciler (server_client g p) n setup fuel (Some m, w) =
        Some (if srv_lookup crds ('''', n) \<noteq> None then setup (Some m, w1) else (Ok (), (Some m, w1)))"
    using start_reconciler_total [OF at w(2), of n "setup" "Some m"] w unfolding crd_present_def by auto
  moreover obtain w2 where "setup (Some m, w1) = (Ok (), (Some (H m), w2))" "g w2 = g w1"
    using set_up unfolding sets_up_def by blast
  ultimately show "\<exists>w'. srv_objects (g w') = crds \<and> length (srv_faults (g w')) < fuel \<and>
      start_reconciler (server_client g p) n setup fuel (Some m, w) =
        Some (Ok (), (Some ((if srv_lookup crds ('''', n) \<noteq> None then H else (\<lambda>m. m)) m), w'))"
    by (cases "srv_lookup crds ('''', n) \<noteq> None") auto
qed

lemma starts_wait:
  assumes "server_at g p rest" and "srv_lookup crds ('''', ''debuggingconfigurations.lib.projectsveltos.io'') \<noteq> None"
  shows "starts g crds fuel (wait_for_debugging (server_client g p) fuel) (\<lambda>m. m)"
  unfolding starts_def
proof (intro allI impI)
  fix m w
  assume w: "srv_objects (g w) = crds" "length (srv_faults (g w)) < fuel"
  have "crd_present g w ''debuggingconfigurations.lib.projectsveltos.io''"
    using assms(2) w by (simp add: crd_present_def)
  from wait_total [OF assms(1) w(2) this, of "Some m"] w
  show "\<exists>w'. srv_objects (g w') = crds \<and> length (srv_faults (g w')) < fuel \<and>
      wait_for_debugging (server_client g p) fuel (Some m, w) = Some (Ok (), (Some m, w'))"
    by auto
qed

section \<open>Properties\<close>

text \<open>C18. The start of the controllers ends, and registers what it should: on an API server that fails finitely
  often, with fuel for one more query than there are faults, and when the controllers can be built and the CRD
  of the debugging configurations is there, startControllers returns, and each of the four react methods is
  registered exactly if it was before or its CRD is installed. Without that CRD it waits for ever.\<close>

theorem startControllers_total:
  assumes at: "server_at g p rest" and crds: "pe_crds E = server_client g p"
    and calm: "calm g (pe_buildClassifier E)" "calm g (pe_buildNode E)" "calm g (pe_buildHealthCheck E)"
      "calm g (pe_buildHealthCheckReport E)" "calm g (pe_buildEventSource E)" "calm g (pe_buildEventReport E)"
      "calm g (pe_buildReloader E)"
    and fuel: "length (srv_faults (g w)) < fuel"
  shows "if crd_present g w ''debuggingconfigurations.lib.projectsveltos.io''
     then \<exists>m' w'. startControllers E fuel (Some m, w) = Some (Ok (), (Some m', w')) \<and>
       reactClassifier m' = (reactClassifier m \<or> crd_present g w ''classifiers.lib.projectsveltos.io'') \<and>
       reactHealthCheck m' = (reactHealthCheck m \<or> crd_present g w ''healthchecks.lib.projectsveltos.io'') \<and>
       reactEventSource m' = (reactEventSource m \<or> crd_present g w ''eventsources.lib.projectsveltos.io'') \<and>
       reactReloader m' = (reactReloader m \<or> crd_present g w ''reloaders.lib.projectsveltos.io'')
     else startControllers E fuel (Some m, w) = None"
proof (cases "crd_present g w ''debuggingconfigurations.lib.projectsveltos.io''")
  case True
  let ?O = "srv_objects (g w)"
  note setups = sets_up_then [OF sets_up_build [OF calm(2)] sets_up_register [OF calm(1), of RegisterClassifierMethod]]
    sets_up_then [OF sets_up_register [OF calm(3), of RegisterHealthCheckMethod] sets_up_build [OF calm(4)]]
    sets_up_then [OF sets_up_register [OF calm(5), of RegisterEventSourceMethod] sets_up_build [OF calm(6)]]
    sets_up_register [OF calm(7), of RegisterReloaderMethod]
  note all = starts_then [OF starts_then [OF starts_then [OF starts_then
      [OF starts_wait [OF at True [unfolded crd_present_def]]
        starts_reconciler [OF at setups(1), of ?O fuel "''classifiers.lib.projectsveltos.io''"]]
        starts_reconciler [OF at setups(2), of ?O fuel "''healthchecks.lib.projectsveltos.io''"]]
        starts_reconciler [OF at setups(3), of ?O fuel "''eventsources.lib.projectsveltos.io''"]]
        starts_reconciler [OF at setups(4), of ?O fuel "''reloaders.lib.projectsveltos.io''"]]
  from all [unfolded starts_def, rule_format, OF refl fuel, of m] True show ?thesis
    unfolding startControllers_def crds startClassifierReconciler_def startHealthCheckReconciler_def
      startEventSourceReconciler_def startReloaderReconciler_def Node_SetupWithManager_def
      Classifier_SetupWithManager_def HealthCheck_SetupWithManager_def HealthCheckReport_SetupWithManager_def
      EventSource_SetupWithManager_def EventReport_SetupWithManager_def Reloader_SetupWithManager_def crd_present_def
    by (auto simp: manager_ops)
next
  case False
  with wait_never [OF at, of w fuel "Some m"] show ?thesis
    by (simp add: startControllers_def then_start_def crds)
qed

section \<open>A program to run\<close>

definition ref_main :: "unit server main_env" where
  "ref_main =
     \<lparr>pe_crds = server_client (\<lambda>s. s) (\<lambda>s _. s),
      pe_buildClassifier = ret (), pe_buildNode = ret (), pe_buildHealthCheck = ret (),
      pe_buildHealthCheckReport = ret (), pe_buildEventSource = ret (), pe_buildEventReport = ret (),
      pe_buildReloader = ret ()\<rparr>"

text \<open>The server fails twice before it answers, and has no CRD for Reloaders.\<close>

definition ref_crds :: "unit server" where
  "ref_crds = (new_server (map (\<lambda>n. \<lparr>metadata = empty_meta '''' n, Spec = (), status_Phase = None\<rparr>)
     [''debuggingconfigurations.lib.projectsveltos.io'', ''classifiers.lib.projectsveltos.io'',
      ''healthchecks.lib.projectsveltos.io'', ''eventsources.lib.projectsveltos.io'']))
     \<lparr>srv_faults := [Some ''timeout'', Some ''timeout'']\<rparr>"

theorem startControllers_total_witness:
  "\<exists>m' w'. startControllers ref_main 3 (Some (ref_manager True), ref_crds) = Some (Ok (), (Some m', w')) \<and>
     reactClassifier m' \<and> reactHealthCheck m' \<and> reactEventSource m' \<and> \<not> reactReloader m'"
proof -
  have at: "server_at (\<lambda>s :: unit server. s) (\<lambda>s _. s) (\<lambda>_. ())"
    by (simp add: server_at_def)
  have crds: "pe_crds ref_main = server_client (\<lambda>s. s) (\<lambda>s _. s)"
    by (simp add: ref_main_def)
  have calm: "calm (\<lambda>s. s) (pe_buildClassifier ref_main)" "calm (\<lambda>s. s) (pe_buildNode ref_main)"
    "calm (\<lambda>s. s) (pe_buildHealthCheck ref_main)" "calm (\<lambda>s. s) (pe_buildHealthCheckReport ref_main)"
    "calm (\<lambda>s. s) (pe_buildEventSource ref_main)" "calm (\<lambda>s. s) (pe_buildEventReport ref_main)"
    "calm (\<lambda>s. s) (pe_buildReloader ref_main)"
    by (simp_all add: ref_main_def calm_def ret_def)
  have fuel: "length (srv_faults ref_crds) < 3"
    by (simp add: ref_crds_def)
  have crd: "crd_present (\<lambda>s. s) ref_crds ''debuggingconfigurations.lib.projectsveltos.io''"
    "crd_present (\<lambda>s. s) ref_crds ''classifiers.lib.projectsveltos.io''"
    "crd_present (\<lambda>s. s) ref_crds ''healthchecks.lib.projectsveltos.io''"
    "crd_present (\<lambda>s. s) ref_crds ''eventsources.lib.projectsveltos.io''"
    "\<not> crd_present (\<lambda>s. s) ref_crds ''reloaders.lib.projectsveltos.io''"
    unfolding crd_present_def by code_simp+
  have "\<not> reactReloader (ref_manager True)"
    by (simp add: ref_manager_def InitializeManager_def)
  with startControllers_total [OF at crds calm fuel, of "ref_manager True"] crd show ?thesis
    by auto
qed

end
