(* ===== verification/Startup.thy ===== *)
theory Startup
  imports Manager
begin

text \<open>
  The goroutines InitializeManager starts (manager.go) and the wait group between them: the four evaluation
  loops call \<^verbatim>\<open>wg.Done()\<close> once, after their first round, and storeVersionForCompatibilityChecks waits for
  all of them before it stores the version of the agent.
  The statements of InitializeManager, the control flow of the loops (select on the context, a round,
  \<^verbatim>\<open>once.Do\<close>) and the waiting goroutine are the events of a transition system; what a round evaluates is the subject
  of the theories of the evaluations. \<open>startup_exec\<close> runs one event, \<open>startup_run\<close> a list of them, and
  \<open>startup_reach\<close> are the states of every interleaving.
\<close>

section \<open>Goroutines and the wait group\<close>

datatype evaluator = Classifiers | HealthChecks | EventSources | Reloaders

datatype routine =
    ListenForCloudEvents
  | EvaluationLoop evaluator
  | BuildResourceToWatch
  | StoreVersion
  | WatchCustomResourceDefinition

datatype statement = Go routine | WgAdd

text \<open>The statements after the fields of the manager have been set.\<close>

definition start_goroutines :: "statement list" where
  "start_goroutines =
     [Go ListenForCloudEvents,
      Go (EvaluationLoop Classifiers), WgAdd,
      Go (EvaluationLoop HealthChecks), WgAdd,
      Go (EvaluationLoop EventSources), WgAdd,
      Go (EvaluationLoop Reloaders), WgAdd,
      Go BuildResourceToWatch,
      Go StoreVersion,
      Go WatchCustomResourceDefinition]"

text \<open>An evaluation loop stands before its select statement, or has ended a round and stands before
  \<^verbatim>\<open>once.Do\<close>, or has returned because the context is done.\<close>

datatype loop_pc = NotStarted | AtSelect | AtOnce | Returned

datatype storer_pc = NotCalled | AtWait | Storing | Stored

record startup =
  su_todo :: "statement list"
  su_wg :: int
  su_loop :: "evaluator \<Rightarrow> loop_pc"
  su_once :: "evaluator \<Rightarrow> bool"
  su_rounds :: "evaluator \<Rightarrow> nat"
  su_storer :: storer_pc
  su_cancelled :: bool
  su_panicked :: bool

definition startup_init :: startup where
  "startup_init =
     \<lparr>su_todo = start_goroutines, su_wg = 0, su_loop = (\<lambda>_. NotStarted), su_once = (\<lambda>_. False),
      su_rounds = (\<lambda>_. 0), su_storer = NotCalled, su_cancelled = False, su_panicked = False\<rparr>"

text \<open>\<^verbatim>\<open>wg.Add(delta)\<close>; a counter below zero panics. \<^verbatim>\<open>wg.Done()\<close> is \<^verbatim>\<open>wg.Add(-1)\<close>.\<close>

definition wg_Add :: "int \<Rightarrow> startup \<Rightarrow> startup" where
  "wg_Add delta s =
     (if su_wg s + delta < 0 then s\<lparr>su_panicked := True\<rparr> else s\<lparr>su_wg := su_wg s + delta\<rparr>)"

definition go_routine :: "routine \<Rightarrow> startup \<Rightarrow> startup" where
  "go_routine r s =
     (case r of
        EvaluationLoop e \<Rightarrow> s\<lparr>su_loop := (su_loop s)(e := AtSelect)\<rparr>
      | StoreVersion \<Rightarrow> s\<lparr>su_storer := AtWait\<rparr>
      | _ \<Rightarrow> s)"

definition main_statement :: "startup \<Rightarrow> startup option" where
  "main_statement s =
     (case su_todo s of
        [] \<Rightarrow> None
      | Go r # todo \<Rightarrow> Some (go_routine r (s\<lparr>su_todo := todo\<rparr>))
      | WgAdd # todo \<Rightarrow> Some (wg_Add 1 (s\<lparr>su_todo := todo\<rparr>)))"

text \<open>\<^verbatim>\<open>once.Do(func() { wg.Done() })\<close>\<close>

definition once_Do :: "evaluator \<Rightarrow> startup \<Rightarrow> startup" where
  "once_Do e s = (if su_once s e then s else wg_Add (- 1) (s\<lparr>su_once := (su_once s)(e := True)\<rparr>))"

definition loop_statement :: "evaluator \<Rightarrow> startup \<Rightarrow> startup option" where
  "loop_statement e s =
     (case su_loop s e of
        AtSelect \<Rightarrow>
          Some (if su_cancelled s then s\<lparr>su_loop := (su_loop s)(e := Returned)\<rparr>
                else s\<lparr>su_loop := (su_loop s)(e := AtOnce), su_rounds := (su_rounds s)(e := Suc (su_rounds s e))\<rparr>)
      | AtOnce \<Rightarrow> Some (once_Do e (s\<lparr>su_loop := (su_loop s)(e := AtSelect)\<rparr>))
      | _ \<Rightarrow> None)"

text \<open>\<^verbatim>\<open>wg.Wait()\<close> blocks until the counter is zero; then the version is stored, with as many attempts as it takes.\<close>

definition storer_statement :: "bool \<Rightarrow> startup \<Rightarrow> startup option" where
  "storer_statement succeeds s =
     (case su_storer s of
        AtWait \<Rightarrow> if su_wg s = 0 then Some (s\<lparr>su_storer := Storing\<rparr>) else None
      | Storing \<Rightarrow> Some (if succeeds then s\<lparr>su_storer := Stored\<rparr> else s)
      | _ \<Rightarrow> None)"

datatype startup_event = MainStatement | LoopStatement evaluator | StorerStatement bool | Cancel

text \<open>A panic ends the process: nothing runs after it.\<close>

definition startup_exec :: "startup_event \<Rightarrow> startup \<Rightarrow> startup option" where
  "startup_exec ev s =
     (if su_panicked s then None
      else (case ev of
        MainStatement \<Rightarrow> main_statement s
      | LoopStatement e \<Rightarrow> loop_statement e s
      | StorerStatement ok \<Rightarrow> storer_statement ok s
      | Cancel \<Rightarrow> Some (s\<lparr>su_cancelled := True\<rparr>)))"

fun startup_run :: "startup_event list \<Rightarrow> startup \<Rightarrow> startup option" where
  "startup_run [] s = Some s"
| "startup_run (ev # evs) s = (case startup_exec ev s of None \<Rightarrow> None | Some s' \<Rightarrow> startup_run evs s')"

inductive startup_reach :: "startup \<Rightarrow> bool" where
  reach_init: "startup_reach startup_init"
| reach_exec: "startup_reach s \<Longrightarrow> startup_exec ev s = Some s' \<Longrightarrow> startup_reach s'"

section \<open>The invariant\<close>

definition evaluators :: "evaluator list" where
  "evaluators = [Classifiers, HealthChecks, EventSources, Reloaders]"

definition adds :: "statement list \<Rightarrow> int" where
  "adds todo = int (count_list todo WgAdd)"

definition first_rounds :: "startup \<Rightarrow> int" where
  "first_rounds s = int (length (filter (su_once s) evaluators))"

text \<open>Statements still to run and loops past their first round account for the counter; a loop is past its
  first round only if it had one; the storer is called last and past its wait only if every loop is past its first round.\<close>

definition startup_inv :: "startup \<Rightarrow> bool" where
  "startup_inv s \<longleftrightarrow>
     suffix (su_todo s) start_goroutines \<and>
     (\<forall>e. su_once s e \<or> su_loop s e = AtOnce \<longrightarrow> 1 \<le> su_rounds s e) \<and>
     (su_storer s \<noteq> NotCalled \<longrightarrow> adds (su_todo s) = 0) \<and>
     (su_storer s \<in> {Storing, Stored} \<longrightarrow> (\<forall>e. su_once s e)) \<and>
     (\<not> su_panicked s \<longrightarrow> 0 \<le> su_wg s \<and> su_wg s + adds (su_todo s) + first_rounds s = 4)"

lemma adds_simps [simp]:
  "adds [] = 0" "adds (Go r # todo) = adds todo" "adds (WgAdd # todo) = adds todo + 1"
  by (simp_all add: adds_def)

lemma adds_nonneg [simp]: "0 \<le> adds todo"
  by (simp add: adds_def)

lemma evaluators_all [simp]: "e \<in> set evaluators"
  by (cases e) (simp_all add: evaluators_def)

lemma first_rounds_update:
  "\<not> su_once s e \<Longrightarrow> first_rounds (s\<lparr>su_once := (su_once s)(e := True)\<rparr>) = first_rounds s + 1"
  by (cases e) (simp_all add: first_rounds_def evaluators_def)

lemma first_rounds_4: "first_rounds s = 4 \<longleftrightarrow> (\<forall>e. su_once s e)"
proof
  assume all: "first_rounds s = 4"
  show "\<forall>e. su_once s e"
  proof
    fix e
    from all show "su_once s e"
      by (cases e) (auto simp: first_rounds_def evaluators_def split: if_splits)
  qed
qed (simp add: first_rounds_def evaluators_def)

lemma first_rounds_bounds: "0 \<le> first_rounds s" "first_rounds s \<le> 4"
  using length_filter_le [of "su_once s" evaluators] by (simp_all add: first_rounds_def evaluators_def)

lemma first_rounds_frame [simp]:
  "first_rounds (s\<lparr>su_todo := a\<rparr>) = first_rounds s" "first_rounds (s\<lparr>su_wg := b\<rparr>) = first_rounds s"
  "first_rounds (s\<lparr>su_loop := c\<rparr>) = first_rounds s" "first_rounds (s\<lparr>su_rounds := d\<rparr>) = first_rounds s"
  "first_rounds (s\<lparr>su_storer := f\<rparr>) = first_rounds s" "first_rounds (s\<lparr>su_cancelled := g\<rparr>) = first_rounds s"
  "first_rounds (s\<lparr>su_panicked := h\<rparr>) = first_rounds s"
  by (simp_all add: first_rounds_def)

text \<open>Nothing is added to the wait group after the storer has been called.\<close>

lemma storer_last: "suffix (Go StoreVersion # todo) start_goroutines \<Longrightarrow> adds todo = 0"
  by (auto simp: start_goroutines_def suffix_Cons)

lemmas startup_ops = wg_Add_def go_routine_def once_Do_def

lemma main_statement_inv:
  assumes inv: "startup_inv s" and run: "main_statement s = Some s'" and alive: "\<not> su_panicked s"
  shows "startup_inv s' \<and> \<not> su_panicked s'"
proof (cases "su_todo s")
  case (Cons st todo)
  with inv have suffix: "suffix todo start_goroutines" "suffix (st # todo) start_goroutines"
    by (auto simp: startup_inv_def dest: suffix_ConsD)
  show ?thesis
  proof (cases st)
    case WgAdd
    with run Cons inv suffix alive adds_nonneg [of todo] show ?thesis
      by (auto simp: main_statement_def startup_inv_def wg_Add_def)
  next
    case (Go r)
    with run Cons have s': "s' = go_routine r (s\<lparr>su_todo := todo\<rparr>)"
      by (simp add: main_statement_def)
    have last: "adds todo = 0" if "r = StoreVersion"
      using suffix(2) unfolding Go that by (rule storer_last)
    from inv Cons Go have same: "adds (su_todo s) = adds todo"
      by simp
    show ?thesis
    proof (cases "r = StoreVersion")
      case True
      with inv suffix alive last same show ?thesis
        unfolding startup_inv_def s' by (simp add: go_routine_def)
    next
      case False
      with inv suffix alive same show ?thesis
        unfolding startup_inv_def s' by (cases r; simp add: go_routine_def; blast)
    qed
  qed
qed (use run in \<open>simp add: main_statement_def\<close>)

lemma once_Do_inv:
  assumes "startup_inv s" and "1 \<le> su_rounds s e"
  shows "startup_inv (once_Do e s)"
proof (cases "su_once s e")
  case False
  with assms first_rounds_update [OF False] show ?thesis
    by (auto simp: startup_inv_def once_Do_def wg_Add_def)
qed (use assms in \<open>simp add: once_Do_def\<close>)

lemma loop_statement_inv:
  assumes inv: "startup_inv s" and run: "loop_statement e s = Some s'"
  shows "startup_inv s'"
proof (cases "su_loop s e")
  case AtSelect
  with run inv show ?thesis
    by (auto simp: loop_statement_def startup_inv_def split: if_splits)
next
  case AtOnce
  let ?s = "s\<lparr>su_loop := (su_loop s)(e := AtSelect)\<rparr>"
  from inv AtOnce have "startup_inv ?s" "1 \<le> su_rounds ?s e"
    by (auto simp: startup_inv_def)
  with run AtOnce once_Do_inv [of ?s e] show ?thesis
    by (simp add: loop_statement_def)
qed (use run in \<open>simp_all add: loop_statement_def\<close>)

lemma storer_statement_inv:
  assumes inv: "startup_inv s" and run: "storer_statement ok s = Some s'" and alive: "\<not> su_panicked s"
  shows "startup_inv s'"
proof (cases "su_storer s")
  case AtWait
  with inv alive run have "first_rounds s = 4" "s' = s\<lparr>su_storer := Storing\<rparr>"
    by (auto simp: startup_inv_def storer_statement_def split: if_splits)
  with inv AtWait show ?thesis
    by (auto simp: startup_inv_def first_rounds_4)
next
  case Storing
  with inv run show ?thesis
    by (auto simp: startup_inv_def storer_statement_def split: if_splits)
qed (use run in \<open>simp_all add: storer_statement_def\<close>)

lemma startup_exec_inv:
  assumes "startup_inv s" and "startup_exec ev s = Some s'"
  shows "startup_inv s'"
proof (cases ev)
  case Cancel
  with assms show ?thesis by (auto simp: startup_exec_def startup_inv_def split: if_splits)
next
  case MainStatement
  with assms show ?thesis
    using main_statement_inv [of s s'] by (simp add: startup_exec_def split: if_splits)
next
  case (LoopStatement e)
  with assms show ?thesis
    using loop_statement_inv [of s e s'] by (simp add: startup_exec_def split: if_splits)
next
  case (StorerStatement ok)
  with assms show ?thesis
    using storer_statement_inv [of s ok s'] by (simp add: startup_exec_def split: if_splits)
qed

lemma startup_reach_inv: "startup_reach s \<Longrightarrow> startup_inv s"
proof (induction rule: startup_reach.induct)
  case reach_init
  then show ?case
    by (simp add: startup_inv_def startup_init_def start_goroutines_def first_rounds_def evaluators_def)
next
  case (reach_exec s ev s')
  then show ?case by (blast intro: startup_exec_inv)
qed

lemma startup_run_inv: "startup_inv s \<Longrightarrow> startup_run evs s = Some s' \<Longrightarrow> startup_inv s'"
  by (induction evs arbitrary: s) (auto split: option.splits dest: startup_exec_inv)

lemma startup_run_append:
  "startup_run (es @ fs) s = (case startup_run es s of None \<Rightarrow> None | Some s' \<Rightarrow> startup_run fs s')"
  by (induction es arbitrary: s) (auto split: option.splits)

section \<open>Progress\<close>

text \<open>Every goroutine whose go statement has run is there, and a loop returns only when the context is done.\<close>

definition startup_started :: "startup \<Rightarrow> bool" where
  "startup_started s \<longleftrightarrow>
     (\<forall>e. Go (EvaluationLoop e) \<in> set (su_todo s) \<longleftrightarrow> su_loop s e = NotStarted) \<and>
     (Go StoreVersion \<in> set (su_todo s) \<or> su_storer s \<noteq> NotCalled) \<and>
     (\<forall>e. su_loop s e = Returned \<longrightarrow> su_cancelled s)"

lemma wg_Add_frame [simp]:
  "su_todo (wg_Add d s) = su_todo s" "su_loop (wg_Add d s) = su_loop s" "su_storer (wg_Add d s) = su_storer s"
  "su_cancelled (wg_Add d s) = su_cancelled s" "su_once (wg_Add d s) = su_once s" "su_rounds (wg_Add d s) = su_rounds s"
  by (simp_all add: wg_Add_def)

lemma once_Do_frame [simp]:
  "su_todo (once_Do e s) = su_todo s" "su_loop (once_Do e s) = su_loop s" "su_storer (once_Do e s) = su_storer s"
  "su_cancelled (once_Do e s) = su_cancelled s" "su_once (once_Do e s) = (su_once s)(e := True)"
  by (auto simp: once_Do_def fun_eq_iff)

lemma go_routine_frame [simp]:
  "su_todo (go_routine r s) = su_todo s" "su_cancelled (go_routine r s) = su_cancelled s"
  "su_once (go_routine r s) = su_once s"
  by (simp_all add: go_routine_def split: routine.splits)

lemma go_once: "suffix (Go r # todo) start_goroutines \<Longrightarrow> Go r \<notin> set todo"
  by (auto simp: start_goroutines_def suffix_Cons)

lemma startup_exec_started:
  assumes "startup_started s" and "startup_exec ev s = Some s'" and inv: "startup_inv s"
  shows "startup_started s'"
proof (cases ev)
  case MainStatement
  with assms obtain st todo where todo: "su_todo s = st # todo"
    and s': "s' = (case st of Go r \<Rightarrow> go_routine r (s\<lparr>su_todo := todo\<rparr>) | WgAdd \<Rightarrow> wg_Add 1 (s\<lparr>su_todo := todo\<rparr>))"
    by (auto simp: startup_exec_def main_statement_def split: list.splits statement.splits if_splits)
  show ?thesis
  proof (cases st)
    case WgAdd
    with assms(1) todo show ?thesis by (simp add: startup_started_def s')
  next
    case (Go r)
    with inv todo have "Go r \<notin> set todo"
      by (intro go_once) (simp add: startup_inv_def)
    with Go assms(1) todo show ?thesis
      by (cases r) (auto simp: startup_started_def s' go_routine_def)
  qed
next
  case (LoopStatement e)
  with assms show ?thesis
    by (auto simp: startup_exec_def loop_statement_def startup_started_def split: loop_pc.splits if_splits)
next
  case (StorerStatement ok)
  with assms show ?thesis
    by (auto simp: startup_exec_def storer_statement_def startup_started_def split: storer_pc.splits if_splits)
next
  case Cancel
  with assms show ?thesis
    by (auto simp: startup_exec_def startup_started_def split: if_splits)
qed

lemma startup_reach_started: "startup_reach s \<Longrightarrow> startup_started s"
proof (induction rule: startup_reach.induct)
  case reach_init
  show ?case
    unfolding startup_started_def
  proof (intro conjI allI)
    fix e
    show "Go (EvaluationLoop e) \<in> set (su_todo startup_init) \<longleftrightarrow> su_loop startup_init e = NotStarted"
      by (cases e) (simp_all add: startup_init_def start_goroutines_def)
  qed (simp_all add: startup_init_def start_goroutines_def)
next
  case (reach_exec s ev s')
  then show ?case by (blast intro: startup_exec_started startup_reach_inv)
qed

text \<open>A live state, and one in which InitializeManager has run all its statements.\<close>

definition startup_live :: "startup \<Rightarrow> bool" where
  "startup_live s \<longleftrightarrow> startup_inv s \<and> startup_started s \<and> \<not> su_panicked s \<and> \<not> su_cancelled s"

definition reaches :: "startup \<Rightarrow> (startup \<Rightarrow> bool) \<Rightarrow> bool" where
  "reaches s P \<longleftrightarrow> (\<exists>evs s'. startup_run evs s = Some s' \<and> P s')"

lemma reaches_now: "P s \<Longrightarrow> reaches s P"
  unfolding reaches_def by (metis startup_run.simps(1))

lemma reaches_step: "startup_exec ev s = Some s1 \<Longrightarrow> reaches s1 P \<Longrightarrow> reaches s P"
  unfolding reaches_def by (metis startup_run.simps(2) option.simps(5))

lemma reaches_trans: "reaches s P \<Longrightarrow> (\<And>s'. P s' \<Longrightarrow> reaches s' Q) \<Longrightarrow> reaches s Q"
  unfolding reaches_def by (metis startup_run_append option.simps(5))

lemma exec_live:
  "startup_live s \<Longrightarrow> startup_exec ev s = Some s' \<Longrightarrow> \<not> su_panicked s' \<Longrightarrow> \<not> su_cancelled s' \<Longrightarrow> startup_live s'"
  by (auto simp: startup_live_def intro: startup_exec_inv startup_exec_started)

lemma main_finishes:
  "startup_live s \<Longrightarrow> reaches s (\<lambda>s'. startup_live s' \<and> su_todo s' = [])"
proof (induction "length (su_todo s)" arbitrary: s)
  case 0
  then show ?case by (intro reaches_now) simp
next
  case (Suc n)
  then obtain st todo where todo: "su_todo s = st # todo"
    by (cases "su_todo s") auto
  then obtain s1 where run: "main_statement s = Some s1" and s1: "su_todo s1 = todo" "su_cancelled s1 = su_cancelled s"
    by (cases st) (auto simp: main_statement_def)
  from Suc.prems run have exec: "startup_exec MainStatement s = Some s1"
    by (simp add: startup_exec_def startup_live_def)
  from Suc.prems run have "\<not> su_panicked s1"
    using main_statement_inv [of s s1] by (auto simp: startup_live_def)
  then have "startup_live s1"
    using exec_live [OF Suc.prems exec] Suc.prems s1 by (simp add: startup_live_def)
  moreover have "n = length (su_todo s1)"
    using Suc.hyps(2) todo s1 by simp
  ultimately show ?case
    using Suc.hyps(1) reaches_step [OF exec] by blast
qed

text \<open>With nothing left to add, the first \<^verbatim>\<open>Done\<close> of a loop finds a positive counter.\<close>

lemma done_no_panic:
  assumes "startup_inv s" and "adds (su_todo s) = 0" and "\<not> su_panicked s"
  shows "\<not> su_panicked (once_Do e s)"
proof (cases "su_once s e")
  case False
  then have "first_rounds s \<noteq> 4"
    by (auto simp: first_rounds_4)
  with assms first_rounds_bounds [of s] have "1 \<le> su_wg s"
    by (simp add: startup_inv_def)
  with False assms show ?thesis
    by (simp add: once_Do_def wg_Add_def)
qed (use assms in \<open>simp add: once_Do_def\<close>)

abbreviation settled :: "(evaluator \<Rightarrow> bool) \<Rightarrow> startup \<Rightarrow> bool" where
  "settled done s \<equiv> startup_live s \<and> su_todo s = [] \<and> (\<forall>e. done e \<longrightarrow> su_once s e)"

lemma once_settles:
  assumes s: "settled done s" and at: "su_loop s e = AtOnce"
  shows "reaches s (settled (done(e := True)))"
proof -
  let ?s = "s\<lparr>su_loop := (su_loop s)(e := AtSelect)\<rparr>"
  have exec: "startup_exec (LoopStatement e) s = Some (once_Do e ?s)"
    using s at by (simp add: startup_exec_def loop_statement_def startup_live_def)
  have "startup_inv ?s"
    using s by (auto simp: startup_live_def startup_inv_def)
  then have "\<not> su_panicked (once_Do e ?s)"
    using s by (intro done_no_panic) (simp_all add: startup_live_def)
  then have "startup_live (once_Do e ?s)"
    using s exec_live [OF _ exec] by (simp add: startup_live_def)
  then show ?thesis
    using s by (intro reaches_step [OF exec] reaches_now) auto
qed

lemma loop_settles:
  assumes s: "settled done s"
  shows "reaches s (settled (done(e := True)))"
proof (cases "su_loop s e = AtOnce")
  case True
  with s show ?thesis by (rule once_settles)
next
  case False
  with s have at: "su_loop s e = AtSelect"
    by (cases "su_loop s e") (auto simp: startup_live_def startup_started_def)
  let ?s = "s\<lparr>su_loop := (su_loop s)(e := AtOnce), su_rounds := (su_rounds s)(e := Suc (su_rounds s e))\<rparr>"
  have exec: "startup_exec (LoopStatement e) s = Some ?s"
    using s at by (simp add: startup_exec_def loop_statement_def startup_live_def)
  have "startup_live ?s"
    using s exec_live [OF _ exec] by (simp add: startup_live_def)
  then have "reaches ?s (settled (done(e := True)))"
    using s by (intro once_settles) simp_all
  then show ?thesis
    by (rule reaches_step [OF exec])
qed

lemma storer_stores:
  assumes s: "settled (\<lambda>_. True) s"
  shows "reaches s (\<lambda>s'. su_storer s' = Stored)"
proof -
  have alive: "\<not> su_panicked s" and wg: "su_wg s = 0"
    using s first_rounds_4 [of s] by (auto simp: startup_live_def startup_inv_def)
  have storing: "reaches s' (\<lambda>s'. su_storer s' = Stored)" if "su_storer s' = Storing" "\<not> su_panicked s'" for s'
    by (rule reaches_step [of "StorerStatement True" _ "s'\<lparr>su_storer := Stored\<rparr>"])
      (use that in \<open>auto simp: startup_exec_def storer_statement_def intro: reaches_now\<close>)
  show ?thesis
  proof (cases "su_storer s")
    case NotCalled
    with s show ?thesis by (auto simp: startup_live_def startup_started_def)
  next
    case AtWait
    with alive wg have "startup_exec (StorerStatement True) s = Some (s\<lparr>su_storer := Storing\<rparr>)"
      by (simp add: startup_exec_def storer_statement_def)
    then show ?thesis
      by (rule reaches_step) (use alive in \<open>auto intro: storing\<close>)
  qed (use alive storing in \<open>auto intro: reaches_now\<close>)
qed

text \<open>A loop that has returned stays so, and does not call Done any more.\<close>

lemma returned_stays:
  assumes "startup_started s" and "startup_exec ev s = Some s'"
    and "su_loop s e = Returned" and "\<not> su_once s e"
  shows "su_loop s' e = Returned \<and> \<not> su_once s' e"
proof (cases ev)
  case MainStatement
  with assms obtain st todo where todo: "su_todo s = st # todo"
    and s': "s' = (case st of Go r \<Rightarrow> go_routine r (s\<lparr>su_todo := todo\<rparr>) | WgAdd \<Rightarrow> wg_Add 1 (s\<lparr>su_todo := todo\<rparr>))"
    by (auto simp: startup_exec_def main_statement_def split: list.splits statement.splits if_splits)
  have "Go (EvaluationLoop e) \<in> set (su_todo s) \<longleftrightarrow> su_loop s e = NotStarted"
    using assms(1) by (simp add: startup_started_def)
  with assms(3) todo have "st \<noteq> Go (EvaluationLoop e)"
    by auto
  with assms(3,4) show ?thesis
    by (auto simp: s' go_routine_def split: statement.splits routine.splits)
next
  case (LoopStatement e')
  with assms show ?thesis
    by (auto simp: startup_exec_def loop_statement_def split: loop_pc.splits if_splits)
next
  case (StorerStatement ok)
  with assms show ?thesis
    by (auto simp: startup_exec_def storer_statement_def split: storer_pc.splits if_splits)
next
  case Cancel
  with assms show ?thesis by (auto simp: startup_exec_def split: if_splits)
qed

section \<open>Properties\<close>

text \<open>C12. The version is stored late enough: however the goroutines interleave, when the goroutine that stores the
  version is past its wait, each of the four loops has ended a round, as the comment on the wait demands.\<close>

theorem version_stored_after_rounds:
  assumes "startup_reach s" and "su_storer s = Storing \<or> su_storer s = Stored"
  shows "\<forall>e. 1 \<le> su_rounds s e"
  using startup_reach_inv [OF assms(1)] assms(2) by (auto simp: startup_inv_def)

text \<open>C16. The counter of the wait group: in every reachable state it is the number of calls of Add so far less the loops
  past their first round, between zero and four; and once the last Add has run, no step panics.\<close>

theorem wait_group_bounds:
  assumes "startup_reach s" and "\<not> su_panicked s"
  shows "0 \<le> su_wg s \<and> su_wg s \<le> 4 \<and>
    su_wg s = adds start_goroutines - adds (su_todo s) - int (length (filter (su_once s) evaluators)) \<and>
    (WgAdd \<notin> set (su_todo s) \<longrightarrow> (\<forall>ev s'. startup_exec ev s = Some s' \<longrightarrow> \<not> su_panicked s'))"
proof -
  have inv: "startup_inv s"
    by (rule startup_reach_inv [OF assms(1)])
  have safe: "\<not> su_panicked s'" if none: "WgAdd \<notin> set (su_todo s)" and run: "startup_exec ev s = Some s'" for ev s'
  proof (cases ev)
    case (LoopStatement e)
    let ?s = "s\<lparr>su_loop := (su_loop s)(e := AtSelect)\<rparr>"
    from inv none assms(2) have "\<not> su_panicked (once_Do e ?s)" if "su_loop s e = AtOnce"
      by (intro done_no_panic) (auto simp: startup_inv_def adds_def)
    with LoopStatement run assms(2) show ?thesis
      by (auto simp: startup_exec_def loop_statement_def split: loop_pc.splits if_splits)
  qed (use run assms(2) main_statement_inv [OF inv] in
      \<open>auto simp: startup_exec_def storer_statement_def split: storer_pc.splits if_splits\<close>)
  have "adds start_goroutines = 4"
    by (simp add: start_goroutines_def)
  moreover have "0 \<le> su_wg s" "su_wg s + adds (su_todo s) + first_rounds s = 4"
    using inv assms(2) by (simp_all add: startup_inv_def)
  ultimately have "0 \<le> su_wg s \<and> su_wg s \<le> 4 \<and> su_wg s = adds start_goroutines - adds (su_todo s) - first_rounds s"
    using first_rounds_bounds [of s] adds_nonneg [of "su_todo s"] by linarith
  with safe show ?thesis unfolding first_rounds_def by blast
qed

text \<open>C17. Storing the version stays possible: from every reachable state in which nothing has panicked and the context
  is not done, some continuation stores the version.\<close>

theorem version_can_be_stored:
  assumes "startup_reach s" and "\<not> su_panicked s" and "\<not> su_cancelled s"
  shows "\<exists>evs s'. startup_run evs s = Some s' \<and> su_storer s' = Stored"
proof -
  have "startup_live s"
    using assms startup_reach_inv startup_reach_started by (simp add: startup_live_def)
  from main_finishes [OF this] have "reaches s (settled (\<lambda>_. False))"
    by simp
  then have "reaches s (settled ((\<lambda>_. False)(Classifiers := True)))"
    by (rule reaches_trans) (rule loop_settles)
  then have "reaches s (settled ((\<lambda>_. False)(Classifiers := True, HealthChecks := True)))"
    by (rule reaches_trans) (rule loop_settles)
  then have "reaches s (settled ((\<lambda>_. False)(Classifiers := True, HealthChecks := True, EventSources := True)))"
    by (rule reaches_trans) (rule loop_settles)
  then have "reaches s (settled ((\<lambda>_. False)(Classifiers := True, HealthChecks := True, EventSources := True,
      Reloaders := True)))"
    by (rule reaches_trans) (rule loop_settles)
  moreover have "(\<lambda>_. False)(Classifiers := True, HealthChecks := True, EventSources := True, Reloaders := True) =
      (\<lambda>_. True)"
  proof
    fix e
    show "((\<lambda>_. False)(Classifiers := True, HealthChecks := True, EventSources := True, Reloaders := True)) e = True"
      by (cases e) simp_all
  qed
  ultimately have "reaches s (settled (\<lambda>_. True))"
    by (simp only:)
  then have "reaches s (\<lambda>s'. su_storer s' = Stored)"
    by (rule reaches_trans) (rule storer_stores)
  then show ?thesis by (simp add: reaches_def)
qed

text \<open>A cancelled start never stores the version: when the context was done before the first round of a loop, that loop has
  returned without calling Done, and no continuation gets past the wait.\<close>

theorem cancelled_start_never_stores:
  assumes "startup_reach s" and "su_loop s e = Returned" and "\<not> su_once s e"
    and "startup_run evs s = Some s'"
  shows "su_storer s' \<noteq> Storing \<and> su_storer s' \<noteq> Stored"
  using assms
proof (induction evs arbitrary: s)
  case Nil
  with startup_reach_inv [OF Nil(1)] show ?case by (auto simp: startup_inv_def)
next
  case (Cons ev evs)
  then obtain s1 where exec: "startup_exec ev s = Some s1" and run: "startup_run evs s1 = Some s'"
    by (auto split: option.splits)
  have "su_loop s1 e = Returned \<and> \<not> su_once s1 e"
    by (rule returned_stays [OF startup_reach_started [OF Cons.prems(1)] exec Cons.prems(2,3)])
  with Cons.IH [OF reach_exec [OF Cons.prems(1) exec] _ _ run] show ?case by blast
qed


section \<open>Witnesses\<close>

lemma startup_run_reach: "startup_reach s \<Longrightarrow> startup_run evs s = Some s' \<Longrightarrow> startup_reach s'"
  by (induction evs arbitrary: s) (auto split: option.splits intro: reach_exec)

text \<open>All statements of InitializeManager, then one round of each loop, then the storer with one failed attempt.\<close>

definition ref_schedule :: "startup_event list" where
  "ref_schedule = replicate 12 MainStatement @ concat (map (\<lambda>e. [LoopStatement e, LoopStatement e]) evaluators) @
     [StorerStatement True, StorerStatement False, StorerStatement True]"

definition ref_state :: "startup_event list \<Rightarrow> startup" where
  "ref_state evs = (case startup_run evs startup_init of Some s \<Rightarrow> s | None \<Rightarrow> startup_init)"

lemma ref_state_reach: "startup_reach (ref_state evs)"
  unfolding ref_state_def by (auto split: option.splits intro: startup_run_reach reach_init)

theorem version_stored_after_rounds_witness: "\<forall>e. 1 \<le> su_rounds (ref_state ref_schedule) e"
proof -
  have "su_storer (ref_state ref_schedule) = Stored" by code_simp
  then show ?thesis using version_stored_after_rounds [OF ref_state_reach] by blast
qed

theorem wait_group_bounds_witness:
  "0 \<le> su_wg (ref_state (take 15 ref_schedule)) \<and> su_wg (ref_state (take 15 ref_schedule)) \<le> 4 \<and>
     (\<exists>s'. startup_exec (LoopStatement HealthChecks) (ref_state (take 15 ref_schedule)) = Some s' \<and> \<not> su_panicked s')"
proof -
  let ?s = "ref_state (take 15 ref_schedule)"
  have alive: "\<not> su_panicked ?s" "WgAdd \<notin> set (su_todo ?s)"
    and enabled: "\<not> Option.is_none (startup_exec (LoopStatement HealthChecks) ?s)"
    by code_simp+
  from enabled obtain s' where "startup_exec (LoopStatement HealthChecks) ?s = Some s'"
    by (auto simp: Option.is_none_def)
  with wait_group_bounds [OF ref_state_reach alive(1)] alive(2) show ?thesis by simp
qed

theorem version_can_be_stored_witness:
  "\<exists>evs s'. startup_run evs (ref_state (take 5 ref_schedule)) = Some s' \<and> su_storer s' = Stored"
proof -
  have "\<not> su_panicked (ref_state (take 5 ref_schedule))" "\<not> su_cancelled (ref_state (take 5 ref_schedule))"
    by code_simp+
  then show ?thesis by (rule version_can_be_stored [OF ref_state_reach])
qed

theorem cancelled_start_never_stores_witness:
  "\<forall>evs s'. startup_run evs (ref_state (replicate 12 MainStatement @ [Cancel, LoopStatement Reloaders])) = Some s' \<longrightarrow>
     su_storer s' \<noteq> Storing \<and> su_storer s' \<noteq> Stored"
proof -
  let ?s = "ref_state (replicate 12 MainStatement @ [Cancel, LoopStatement Reloaders])"
  have "su_loop ?s Reloaders = Returned" "\<not> su_once ?s Reloaders"
    by code_simp+
  then show ?thesis using cancelled_start_never_stores [OF ref_state_reach] by blast
qed

end
