(* ===== verification/Main_Loop.thy ===== *)
theory Main_Loop
  imports Main_Program Startup
begin

text \<open>
  cmd/main.go, the program itself: the flags, the options the controller manager is created with, and the loop
  that runs a manager per pass, until the token of the managed cluster has expired.
  Parsing the command line, the creation of clients and managers, \<^verbatim>\<open>mgr.Start\<close>, the version query and the log settings
  are parameters. The goroutines that run while \<^verbatim>\<open>mgr.Start\<close> does are part of its effect on the evaluation
  manager and the world, so the theorems hold whatever they do. The loop of main has fuel, a number of
  passes: \<open>None\<close> means that it is still running.
\<close>

section \<open>Flags\<close>

definition noReports :: string where "noReports = ''do-not-send-reports''"
definition managedCluster :: string where "managedCluster = ''managed-cluster''"

text \<open>The flag variables; an int and a Duration have 64 bits, a float32 is its IEEE 754 representation.\<close>

record main_flags =
  diagnosticsAddress :: string
  insecureDiagnostics :: bool
  runMode :: string
  deployedCluster :: string
  flag_clusterNamespace :: string
  flag_clusterName :: string
  flag_clusterType :: string
  restConfigQPS :: "32 word"
  restConfigBurst :: "64 word"
  webhookPort :: "64 word"
  syncPeriod :: "64 word"
  healthAddr :: string
  flag_version :: string

datatype flag_value =
    StringVar string
  | BoolVar bool
  | Float32Var "32 word"
  | IntVar "64 word"
  | DurationVar "64 word"

text \<open>initFlags: the flags of the pflag set and those of Go's own flag set, each with its default. \<open>0x42200000\<close>
  is the float32 40.\<close>

definition initFlags :: "(string \<times> flag_value) list \<times> (string \<times> flag_value) list" where
  "initFlags =
     ([(''diagnostics-address'', StringVar '':8443''),
       (''insecure-diagnostics'', BoolVar False),
       (''health-addr'', StringVar '':9440''),
       (''kube-api-qps'', Float32Var 0x42200000),
       (''kube-api-burst'', IntVar 60),
       (''webhook-port'', IntVar 9443),
       (''sync-period'', DurationVar (10 * (60 * time_Second)))],
      [(''run-mode'', StringVar noReports),
       (''current-cluster'', StringVar managedCluster),
       (''cluster-namespace'', StringVar ''''),
       (''cluster-name'', StringVar ''''),
       (''cluster-type'', StringVar ''''),
       (''version'', StringVar '''')])"

text \<open>The variable behind a flag. A value of another type never gets here: the library refuses it.\<close>

definition set_flag :: "string \<times> flag_value \<Rightarrow> main_flags \<Rightarrow> main_flags" where
  "set_flag = (\<lambda>(name, v) F.
     (case v of
        StringVar s \<Rightarrow>
          (if name = ''diagnostics-address'' then F\<lparr>diagnosticsAddress := s\<rparr>
           else if name = ''health-addr'' then F\<lparr>healthAddr := s\<rparr>
           else if name = ''run-mode'' then F\<lparr>runMode := s\<rparr>
           else if name = ''current-cluster'' then F\<lparr>deployedCluster := s\<rparr>
           else if name = ''cluster-namespace'' then F\<lparr>flag_clusterNamespace := s\<rparr>
           else if name = ''cluster-name'' then F\<lparr>flag_clusterName := s\<rparr>
           else if name = ''cluster-type'' then F\<lparr>flag_clusterType := s\<rparr>
           else if name = ''version'' then F\<lparr>flag_version := s\<rparr>
           else F)
      | BoolVar b \<Rightarrow> if name = ''insecure-diagnostics'' then F\<lparr>insecureDiagnostics := b\<rparr> else F
      | Float32Var q \<Rightarrow> if name = ''kube-api-qps'' then F\<lparr>restConfigQPS := q\<rparr> else F
      | IntVar i \<Rightarrow>
          (if name = ''kube-api-burst'' then F\<lparr>restConfigBurst := i\<rparr>
           else if name = ''webhook-port'' then F\<lparr>webhookPort := i\<rparr>
           else F)
      | DurationVar d \<Rightarrow> if name = ''sync-period'' then F\<lparr>syncPeriod := d\<rparr> else F))"

text \<open>Go's zero values; registering a flag writes its default, then the parser writes the values given, in
  order.\<close>

definition zero_flags :: main_flags where
  "zero_flags =
     \<lparr>diagnosticsAddress = '''', insecureDiagnostics = False, runMode = '''', deployedCluster = '''',
      flag_clusterNamespace = '''', flag_clusterName = '''', flag_clusterType = '''', restConfigQPS = 0,
      restConfigBurst = 0, webhookPort = 0, syncPeriod = 0, healthAddr = '''', flag_version = ''''\<rparr>"

definition parse_flags :: "(string \<times> flag_value) list \<Rightarrow> main_flags" where
  "parse_flags given = fold set_flag (fst initFlags @ snd initFlags @ given) zero_flags"

section \<open>Options\<close>

record metrics_options =
  BindAddress :: string
  SecureServing :: bool
  FilterProvider :: bool

definition getDiagnosticsOptions :: "main_flags \<Rightarrow> metrics_options" where
  "getDiagnosticsOptions F =
     (if insecureDiagnostics F
      then \<lparr>BindAddress = diagnosticsAddress F, SecureServing = False, FilterProvider = False\<rparr>
      else \<lparr>BindAddress = diagnosticsAddress F, SecureServing = True, FilterProvider = True\<rparr>)"

text \<open>rest.Config: the cluster and the credentials (\<open>'c\<close>), and the two limits main sets.\<close>

record 'c rest_config =
  cfg_target :: 'c
  QPS :: "32 word"
  Burst :: "64 word"

record ctrl_options =
  opt_Metrics :: metrics_options
  opt_HealthProbeBindAddress :: string
  opt_WebhookPort :: "64 word"
  opt_SyncPeriod :: "64 word"
  opt_SkipNameValidation :: bool

definition ctrlOptions :: "main_flags \<Rightarrow> ctrl_options" where
  "ctrlOptions F =
     \<lparr>opt_Metrics = getDiagnosticsOptions F, opt_HealthProbeBindAddress = healthAddr F,
      opt_WebhookPort = webhookPort F, opt_SyncPeriod = syncPeriod F, opt_SkipNameValidation = True\<rparr>"

section \<open>Parameters of the program\<close>

record ('w, 'c) agent_env =
  ag_AddToScheme :: "('w, unit) act \<times> ('w, unit) act \<times> ('w, unit) act"
  ag_RegisterForLogSettings :: "'c rest_config \<Rightarrow> ('w, unit) act"
  ag_GetConfigOrDie :: "('w, 'c rest_config) act"
  ag_mgmtScheme :: "('w, unit) act \<times> ('w, unit) act \<times> ('w, unit) act"
  ag_clientNew :: "'c rest_config \<Rightarrow> ('w, unit) act"
  ag_GetKubernetesRestConfig :: "string \<Rightarrow> string \<Rightarrow> string \<Rightarrow> ('w, 'c rest_config) act"
  ag_NewManager :: "'c rest_config \<Rightarrow> ctrl_options \<Rightarrow> ('w, unit) act"
  ag_AddHealthzCheck :: "('w, unit) act"
  ag_AddReadyzCheck :: "('w, unit) act"
  ag_Start :: "('w pstate, unit) act"
  ag_GetKubernetesVersion :: "'c rest_config \<Rightarrow> ('w, string) act"
  ag_cancel :: "('w, unit) act"

section \<open>The pieces of main\<close>

definition registerForLogSettings :: "('w, 'c) agent_env \<Rightarrow> ('w, unit) act" where
  "registerForLogSettings E = andThen (or_exit (ag_GetConfigOrDie E)) (ag_RegisterForLogSettings E)"

definition setupChecks :: "('w, 'c) agent_env \<Rightarrow> ('w, unit) act" where
  "setupChecks E =
     andThen (or_exit (ag_AddHealthzCheck E)) (\<lambda>_. or_exit (ag_AddReadyzCheck E))"

text \<open>An agent in the management cluster asks there for the kubeconfig of its cluster. Every error panics.\<close>

definition getManagedClusterRestConfig ::
  "('w, 'c) agent_env \<Rightarrow> main_flags \<Rightarrow> 'c rest_config \<Rightarrow> ('w, 'c rest_config) act" where
  "getManagedClusterRestConfig E F cfg =
     (case ag_mgmtScheme E of
        (addClientGo, addCluster, addLibsveltos) \<Rightarrow>
          andThen (or_exit addClientGo) (\<lambda>_.
          andThen (or_exit addCluster) (\<lambda>_.
          andThen (or_exit addLibsveltos) (\<lambda>_.
          andThen (or_exit (ag_clientNew E cfg)) (\<lambda>_.
            or_exit (ag_GetKubernetesRestConfig E (flag_clusterNamespace F) (flag_clusterName F) (flag_clusterType F)))))))"

text \<open>The watch for an expired token: one query per round, until the answer is Unauthorized or Forbidden.\<close>

fun main_restartIfNeeded :: "('w, 'c) agent_env \<Rightarrow> 'c rest_config \<Rightarrow> nat \<Rightarrow> 'w \<Rightarrow> (unit outcome \<times> 'w) option" where
  "main_restartIfNeeded E cfg 0 w = None"
| "main_restartIfNeeded E cfg (Suc fuel) w =
     (case ag_GetKubernetesVersion E cfg w of
        (Err e, w') \<Rightarrow> if e = Unauthorized \<or> e = Forbidden then Some (ag_cancel E w')
                       else main_restartIfNeeded E cfg fuel w'
      | (Panic, w') \<Rightarrow> Some (Panic, w')
      | (Ok _, w') \<Rightarrow> main_restartIfNeeded E cfg fuel w')"

text \<open>storeVersionForCompatibilityChecks (manager.go) after its wait, which is in \<open>Startup\<close>: store the version, again until
  it succeeds.\<close>

fun storeVersionForCompatibilityChecks :: "('w, unit) act \<Rightarrow> nat \<Rightarrow> 'w \<Rightarrow> (unit outcome \<times> 'w) option" where
  "storeVersionForCompatibilityChecks store 0 w = None"
| "storeVersionForCompatibilityChecks store (Suc fuel) w =
     (case store w of
        (Err _, w') \<Rightarrow> storeVersionForCompatibilityChecks store fuel w'
      | (r, w') \<Rightarrow> Some (r, w'))"

text \<open>GetManager and Reset (manager.go) on the package's variable managerInstance.\<close>

definition GetManager :: "manager option \<Rightarrow> manager option" where
  "GetManager managerInstance = (case managerInstance of Some m \<Rightarrow> Some m | None \<Rightarrow> None)"

definition Reset :: "manager option \<Rightarrow> manager option" where
  "Reset managerInstance = None"

text \<open>One pass of the loop, in two halves: up to the start of the manager, and after it has ended.\<close>

definition main_start :: "('w, 'c) agent_env \<Rightarrow> main_flags \<Rightarrow> ('w pstate, 'c rest_config) act" where
  "main_start E F =
     andThen (or_exit (in_pworld (ag_GetConfigOrDie E))) (\<lambda>own.
     andThen (if deployedCluster F \<noteq> managedCluster then in_pworld (getManagedClusterRestConfig E F own) else ret own) (\<lambda>cfg.
     let restConfig = cfg\<lparr>QPS := restConfigQPS F, Burst := restConfigBurst F\<rparr> in
     andThen (or_exit (in_pworld (ag_NewManager E restConfig (ctrlOptions F)))) (\<lambda>_.
     andThen (\<lambda>(mgr, w). (Ok (), (InitializeManager (flag_clusterNamespace F) (flag_clusterName F) (flag_clusterType F) 3
                (runMode F \<noteq> noReports) mgr, w))) (\<lambda>_.
     andThen (in_pworld (setupChecks E)) (\<lambda>_.
       ret restConfig)))))"

definition main_end :: "('w pstate, unit) act" where
  "main_end = (\<lambda>(mgr, w). (Ok (), (Reset (GetManager mgr), w)))"

definition main_pass :: "('w, 'c) agent_env \<Rightarrow> main_flags \<Rightarrow> ('w pstate, unit) act" where
  "main_pass E F =
     andThen (main_start E F) (\<lambda>_.
     andThen (or_exit (ag_Start E)) (\<lambda>_.
       main_end))"

fun main_loop :: "('w, 'c) agent_env \<Rightarrow> main_flags \<Rightarrow> nat \<Rightarrow> 'w pstate \<Rightarrow> (unit outcome \<times> 'w pstate) option" where
  "main_loop E F 0 s = None"
| "main_loop E F (Suc passes) s =
     (case main_pass E F s of
        (Ok _, s') \<Rightarrow> main_loop E F passes s'
      | (r, s') \<Rightarrow> Some (r, s'))"

definition agent_main ::
  "('w, 'c) agent_env \<Rightarrow> (string \<times> flag_value) list \<Rightarrow> nat \<Rightarrow> 'w \<Rightarrow> (unit outcome \<times> 'w pstate) option" where
  "agent_main E given passes w =
     (case or_exit (case ag_AddToScheme E of (a, b, c) \<Rightarrow> InitScheme a b c) w of
        (Ok _, w1) \<Rightarrow>
          (case registerForLogSettings E w1 of
             (Ok _, w2) \<Rightarrow> main_loop E (parse_flags given) passes (None, w2)
           | (r, w2) \<Rightarrow> Some (r, (None, w2)))
      | (r, w1) \<Rightarrow> Some (r, (None, w1)))"

section \<open>Lemmas on flags\<close>

definition declared :: "(string \<times> flag_value) list" where
  "declared = fst initFlags @ snd initFlags"

fun same_type :: "flag_value \<Rightarrow> flag_value \<Rightarrow> bool" where
  "same_type (StringVar _) (StringVar _) = True"
| "same_type (BoolVar _) (BoolVar _) = True"
| "same_type (Float32Var _) (Float32Var _) = True"
| "same_type (IntVar _) (IntVar _) = True"
| "same_type (DurationVar _) (DurationVar _) = True"
| "same_type _ _ = False"

text \<open>What the variable behind a flag holds.\<close>

definition get_flag :: "main_flags \<Rightarrow> (string, flag_value) gomap" where
  "get_flag F =
     [(''diagnostics-address'', StringVar (diagnosticsAddress F)), (''insecure-diagnostics'', BoolVar (insecureDiagnostics F)),
      (''health-addr'', StringVar (healthAddr F)), (''kube-api-qps'', Float32Var (restConfigQPS F)),
      (''kube-api-burst'', IntVar (restConfigBurst F)), (''webhook-port'', IntVar (webhookPort F)),
      (''sync-period'', DurationVar (syncPeriod F)), (''run-mode'', StringVar (runMode F)),
      (''current-cluster'', StringVar (deployedCluster F)), (''cluster-namespace'', StringVar (flag_clusterNamespace F)),
      (''cluster-name'', StringVar (flag_clusterName F)), (''cluster-type'', StringVar (flag_clusterType F)),
      (''version'', StringVar (flag_version F))]"

lemma get_flag_set:
  "get_flag (set_flag (k, v) F) = map (\<lambda>(n, d). (n, if k = n \<and> same_type d v then v else d)) (get_flag F)"
proof (cases v)
  case (StringVar str)
  then show ?thesis
    unfolding get_flag_def set_flag_def
    by (simp add: if_distrib [of diagnosticsAddress] if_distrib [of healthAddr] if_distrib [of runMode]
        if_distrib [of deployedCluster] if_distrib [of flag_clusterNamespace] if_distrib [of flag_clusterName]
        if_distrib [of flag_clusterType] if_distrib [of flag_version] if_distrib [of insecureDiagnostics]
        if_distrib [of restConfigQPS] if_distrib [of restConfigBurst] if_distrib [of webhookPort]
        if_distrib [of syncPeriod] cong: if_cong split del: if_split, intro conjI; simp)
next
  case (IntVar i)
  then show ?thesis unfolding get_flag_def set_flag_def by simp
qed (simp_all add: get_flag_def set_flag_def)

text \<open>The value a flag has after the values given for it, in order.\<close>

definition flag_values :: "string \<Rightarrow> flag_value \<Rightarrow> (string \<times> flag_value) list \<Rightarrow> flag_value list" where
  "flag_values n d given = map snd (filter (\<lambda>(k, v). k = n \<and> same_type d v) given)"

lemma same_type_trans: "same_type d v \<Longrightarrow> same_type v = same_type d"
  by (cases d; cases v) (auto simp: fun_eq_iff elim: same_type.elims)

lemma map_of_keyed: "map_of (map (\<lambda>(n, d). (n, f n d)) xs) k = map_option (f k) (map_of xs k)"
  by (induction xs) auto

lemma map_of_get_flag_set:
  assumes "map_of (get_flag F) n = Some d"
  shows "map_of (get_flag (set_flag (k, v) F)) n = Some (if k = n \<and> same_type d v then v else d)"
  using assms unfolding get_flag_set by (simp add: map_of_keyed [where f = "\<lambda>n d. if k = n \<and> same_type d v then v else d"])

lemma fold_set_flag:
  "map_of (get_flag F) n = Some d \<Longrightarrow>
     map_of (get_flag (fold set_flag gs F)) n = Some (last (d # flag_values n d gs))"
proof (induction gs arbitrary: F d)
  case Nil
  then show ?case by (simp add: flag_values_def)
next
  case (Cons g gs)
  obtain k v where g: "g = (k, v)"
    by fastforce
  show ?case
  proof (cases "k = n \<and> same_type d v")
    case True
    then have "same_type v = same_type d"
      by (simp add: same_type_trans)
    with True Cons.IH [of "set_flag g F" v] map_of_get_flag_set [OF Cons.prems, of k v] show ?thesis
      by (simp add: g flag_values_def)
  next
    case False
    with Cons.IH [of "set_flag g F" d] map_of_get_flag_set [OF Cons.prems, of k v] show ?thesis
      by (auto simp: g flag_values_def)
  qed
qed

lemma defaults_declared: "get_flag (fold set_flag declared zero_flags) = declared"
  by code_simp

section \<open>Lemmas on the loop\<close>

lemma in_pworld_keeps: "in_pworld f (mgr, w) = (r, (mgr', w')) \<Longrightarrow> mgr' = mgr"
  by (auto simp: in_pworld_def split: prod.splits)

lemma or_exit_keeps: "or_exit (in_pworld f) (mgr, w) = (r, (mgr', w')) \<Longrightarrow> mgr' = mgr"
  by (auto simp: or_exit_def in_pworld_def call_def ret_def panic_def split: prod.splits outcome.splits)

text \<open>The managers the passes of a run start with.\<close>

fun pass_managers :: "('w, 'c) agent_env \<Rightarrow> main_flags \<Rightarrow> nat \<Rightarrow> 'w pstate \<Rightarrow> (manager option \<times> 'c rest_config) list" where
  "pass_managers E F 0 s = []"
| "pass_managers E F (Suc passes) s =
     (case main_start E F s of
        (Ok cfg, s1) \<Rightarrow> (fst s1, cfg) #
          (case main_pass E F s of (Ok _, s') \<Rightarrow> pass_managers E F passes s' | _ \<Rightarrow> [])
      | _ \<Rightarrow> [])"

lemma main_start_manager:
  assumes "main_start E F (mgr, w) = (Ok cfg, (mgr', w'))"
  shows "QPS cfg = restConfigQPS F \<and> Burst cfg = restConfigBurst F \<and>
    mgr' = InitializeManager (flag_clusterNamespace F) (flag_clusterName F) (flag_clusterType F) 3
      (runMode F \<noteq> noReports) mgr"
  using assms unfolding main_start_def Let_def
  by (fastforce elim!: andThen_OkE dest: or_exit_keeps in_pworld_keeps simp: ret_def split: if_splits)

lemma main_pass_resets: "main_pass E F s = (Ok u, s') \<Longrightarrow> fst s' = None"
  by (auto simp: main_pass_def main_end_def Reset_def elim!: andThen_OkE split: prod.splits)

lemma pass_managers_fresh:
  "(mgr, cfg) \<in> set (pass_managers E F passes (None, w)) \<Longrightarrow>
     QPS cfg = restConfigQPS F \<and> Burst cfg = restConfigBurst F \<and>
     mgr = InitializeManager (flag_clusterNamespace F) (flag_clusterName F) (flag_clusterType F) 3
       (runMode F \<noteq> noReports) None"
proof (induction passes arbitrary: w)
  case (Suc passes)
  obtain r1 mgr1 w1 where run: "main_start E F (None, w) = (r1, (mgr1, w1))"
    by (metis prod.exhaust)
  with Suc.prems obtain cfg1 where start: "main_start E F (None, w) = (Ok cfg1, (mgr1, w1))"
    by (cases r1) auto
  note first = main_start_manager [OF start]
  show ?case
  proof (cases "(mgr, cfg) = (mgr1, cfg1)")
    case True
    with first show ?thesis by simp
  next
    case False
    obtain r2 s' where "main_pass E F (None, w) = (r2, s')"
      by (metis prod.exhaust)
    with False Suc.prems start obtain u where pass: "main_pass E F (None, w) = (Ok u, s')"
      and "(mgr, cfg) \<in> set (pass_managers E F passes s')"
      by (cases r2) auto
    with main_pass_resets [OF pass] Suc.IH show ?thesis
      by (metis prod.collapse)
  qed
qed simp

lemma main_loop_no_return: "main_loop E F passes s = Some (r, s') \<Longrightarrow> r \<noteq> Ok u"
  by (induction passes arbitrary: s) (auto split: prod.splits outcome.splits)

section \<open>Properties\<close>

text \<open>The flags: each declared flag ends with the last value of its type given on the command line, and with its default
  when there is none; a value for another flag does not touch it.\<close>

theorem parse_flags_last_wins:
  assumes "map_of declared n = Some d"
  shows "map_of (get_flag (parse_flags given)) n = Some (last (d # flag_values n d given))"
proof -
  have "parse_flags given = fold set_flag given (fold set_flag declared zero_flags)"
    by (simp add: parse_flags_def declared_def)
  then show ?thesis
    using fold_set_flag [of "fold set_flag declared zero_flags" n d given] assms by (simp add: defaults_declared)
qed

text \<open>C15. The agent runs until it is made to exit, and no pass inherits anything from the one before: whatever the goroutines
  of a pass do to the evaluation manager, each pass starts with a manager that has empty queues, no watchers, no
  registered methods and an interval of three seconds, that sends reports exactly if the run mode is not
  do-not-send-reports, and with the limits of the flags for the API server.\<close>

theorem main_loop_fresh_managers:
  "(agent_main E given passes w = Some (r, s') \<longrightarrow> r \<noteq> Ok ()) \<and>
   (\<forall>mgr cfg. (mgr, cfg) \<in> set (pass_managers E (parse_flags given) passes (None, w)) \<longrightarrow>
      QPS cfg = restConfigQPS (parse_flags given) \<and> Burst cfg = restConfigBurst (parse_flags given) \<and>
      (\<exists>m. mgr = Some m \<and> (sendReport m \<longleftrightarrow> runMode (parse_flags given) \<noteq> noReports) \<and>
         sint (interval m) = 3 * 10 ^ 9 \<and> queues_ok m \<and>
         keys (classifierJobQueue m) \<union> keys (healthCheckJobQueue m) \<union> keys (eventSourceJobQueue m) \<union>
           keys (reloaderJobQueue m) \<union> keys (natsEventSources m) = {} \<and>
         watchers m = [] \<and> unknownResourcesToWatch m = [] \<and> rebuildResourceToWatch m = 0 \<and>
         \<not> reactClassifier m \<and> \<not> reactHealthCheck m \<and> \<not> reactEventSource m \<and> \<not> reactReloader m))"
proof -
  have "r \<noteq> Ok ()" if "agent_main E given passes w = Some (r, s')"
    using that by (auto simp: agent_main_def dest: main_loop_no_return split: prod.splits outcome.splits)
  moreover have "sint (3 * time_Second) = 3 * 10 ^ 9"
    by (simp add: time_Second_def)
  ultimately show ?thesis
    by (auto dest!: pass_managers_fresh simp: InitializeManager_def queues_ok_def)
qed

section \<open>A program to run\<close>

text \<open>The world counts the managers that were created. While a manager runs, a Classifier is queued; the third
  manager cannot be created.\<close>

definition ref_agent :: "(nat, string) agent_env" where
  "ref_agent =
     \<lparr>ag_AddToScheme = (ret (), ret (), ret ()), ag_RegisterForLogSettings = (\<lambda>_. ret ()),
      ag_GetConfigOrDie = ret \<lparr>cfg_target = ''management'', QPS = 0, Burst = 0\<rparr>,
      ag_mgmtScheme = (ret (), ret (), ret ()), ag_clientNew = (\<lambda>_. ret ()),
      ag_GetKubernetesRestConfig = (\<lambda>ns n t. ret \<lparr>cfg_target = ns @ ''/'' @ n, QPS = 0, Burst = 0\<rparr>),
      ag_NewManager = (\<lambda>_ _ w. if w < 2 then (Ok (), Suc w) else (Err (Other ''no manager''), w)),
      ag_AddHealthzCheck = ret (), ag_AddReadyzCheck = ret (),
      ag_Start = (\<lambda>(mgr, w). (Ok (), (map_option (EvaluateClassifier ''c1'') mgr, w))),
      ag_GetKubernetesVersion = (\<lambda>_. fail Unauthorized), ag_cancel = ret ()\<rparr>"

definition ref_given :: "(string \<times> flag_value) list" where
  "ref_given = [(''run-mode'', StringVar ''send-reports''), (''current-cluster'', StringVar ''management-cluster''),
     (''cluster-name'', StringVar ''cn'')]"

theorem parse_flags_last_wins_witness:
  "map_of (get_flag (parse_flags ref_given)) ''run-mode'' = Some (StringVar ''send-reports'') \<and>
     map_of (get_flag (parse_flags ref_given)) ''webhook-port'' = Some (IntVar 9443)"
proof -
  have "map_of declared ''run-mode'' = Some (StringVar noReports)" "map_of declared ''webhook-port'' = Some (IntVar 9443)"
    by (simp_all add: declared_def initFlags_def)
  from this [THEN parse_flags_last_wins, of ref_given] show ?thesis
    by (simp add: flag_values_def ref_given_def)
qed

theorem main_loop_fresh_managers_witness:
  "length (pass_managers ref_agent (parse_flags ref_given) 5 (None, 0)) = 2 \<and>
     list_all (\<lambda>p. \<exists>m. fst p = Some m \<and> sendReport m \<and> classifierJobQueue m = [])
       (pass_managers ref_agent (parse_flags ref_given) 5 (None, 0)) \<and>
     agent_main ref_agent ref_given 5 0 = Some (Panic, (None, 2))"
proof -
  have two: "length (pass_managers ref_agent (parse_flags ref_given) 5 (None, 0)) = 2"
    and run: "agent_main ref_agent ref_given 5 0 = Some (Panic, (None, 2))"
    by code_simp+
  have "runMode (parse_flags ref_given) \<noteq> noReports"
    by code_simp
  then have "\<exists>m. fst p = Some m \<and> sendReport m \<and> classifierJobQueue m = []"
    if "p \<in> set (pass_managers ref_agent (parse_flags ref_given) 5 (None, 0))" for p
    using main_loop_fresh_managers [of ref_agent ref_given 5 0 Panic "(None, 2)"] that
    by (cases p) auto
  with two run show ?thesis by (simp add: list_all_iff)
qed

end
