(* ===== verification/Spec2Isabelle.thy ===== *)
theory Spec2Isabelle
  imports Classifier_Evaluation HealthCheck_Evaluation EventSource_Evaluation Nats Reloader_Evaluation Watchers
    Controllers Pipeline Report_Controllers Main_Program Startup Main_Loop
begin

text \<open>
  Verification of the sveltos-agent (the repository's Go code under cmd, controllers and pkg).

  The program. The agent runs in, or for, a cluster managed by Sveltos. Controllers (controllers/*.go)
  reconcile the Sveltos resources deployed there: Classifiers, HealthChecks, EventSources, Reloaders. They
  keep, per kind of Kubernetes resource, the set of objects that select it, and put objects on the queues of the
  evaluation manager (pkg/evaluation). The manager watches the selected kinds; a change of a resource
  calls the controllers' react methods, which queue the objects concerned again. Four loops
  take objects from the queues, evaluate them (version constraints, resource selectors, Lua scripts), write a
  report in the cluster and, when the agent sends reports, deliver it to the management cluster.
  CloudEvents from NATS and JetStream end in EventReports too. cmd/main.go starts all of this, and again when
  the token of the managed cluster has expired.

  Theories, and the code they model.
  \<^item> \<open>Prelude\<close>: actions on a world with errors and panics as values, strings, Go maps (association lists),
    and the lemmas the components share.
  \<^item> \<open>Kube\<close>: objects, kinds, references, selectors; the client of one kind of object, with its documented contract
    as the locales \<open>api_client\<close> and \<open>reliable_client\<close>. \<open>Api_Server\<close>: an executable API server that meets
    them. \<open>Object_Set\<close>: the sets of libsveltos as a parameter with the contract \<open>object_set\<close>.
  \<^item> \<open>Manager\<close> (manager.go): the manager record, its operations, and the round of an evaluation loop over the
    contract \<open>job_queue\<close>. \<open>Management\<close>: the client of the management cluster and its temporary kubeconfig.
    \<open>Startup\<close> (manager.go and the heads of the evaluation loops): the goroutines InitializeManager starts and their wait group, as a
    transition system over all interleavings.
    \<open>Reports\<close>: what the deliveries of the three kinds of report share (\<open>report_delivery\<close>).
    \<open>Selection\<close>: listing resources by selector. \<open>Reference_Env\<close>: an executable environment for the witnesses.
  \<^item> \<open>Classifier_Evaluation\<close>, \<open>HealthCheck_Evaluation\<close>, \<open>EventSource_Evaluation\<close>, \<open>Reloader_Evaluation\<close>,
    \<open>Nats\<close>: the files of those names in pkg/evaluation; \<open>Eval_Env\<close> what the HealthCheck and EventSource
    evaluations share, the tenant's impersonation among it.
  \<^item> \<open>Watchers\<close> (watchers.go): the kinds to watch, starting and cancelling watchers, the dispatch of a
    notification, and the transitions of the manager as a step relation (\<open>manager_step\<close>, \<open>running\<close>).
  \<^item> \<open>Controller_Utils\<close> (controllers/utils.go, pkg/scope): keys, finalizers, patching, scopes, the frame of a
    reconcile call; the contracts \<open>finalizer_contract\<close> and \<open>patch_contract\<close>.
  \<^item> \<open>Controllers\<close>: the four controllers, with the contracts \<open>watch_index\<close> and \<open>exact_index\<close> of their sets.
    \<open>Report_Controllers\<close>: the controllers of reports and Nodes, the predicates on ConfigMaps and Secrets.
  \<^item> \<open>Pipeline\<close>: controllers and evaluation loops together, from a reconciled object to its report, over the contract
    \<open>framed_jobs\<close> (a job writes only the report it owns and the one it delivers).
  \<^item> \<open>Main_Program\<close> (cmd/main.go): the start of the controllers. \<open>Main_Loop\<close> (cmd/main.go): the flags and their defaults,
    the options of the controller manager, the main loop.
  \<^item> This theory: from a change in the cluster to the queues, across controllers and watchers.

  How the code corresponds to the definitions. A struct is a record with the fields the code reads, a method
  is a definition of the same name (with the name of the controller in front where several have it). An
  action takes a world and returns \<open>Ok\<close>, \<open>Err\<close> or \<open>Panic\<close> with the world it leaves: a nil
  dereference, an index out of range and a call of panic are \<open>Panic\<close>. Mutexes are the atomicity of the
  steps: a round of an evaluation loop takes the jobs queued meanwhile as an argument, and the transitions in
  \<open>Watchers\<close> interleave freely. The order in which Go ranges over a map is the order of the association list,
  which is arbitrary. Logging is left out.

  What the theorems show. For the evaluations: the checks compute what they should, a successful evaluation
  leaves exactly the right report, here and in the management cluster, and changes nothing else; the deletion of
  an object cleans up; no job of a round is lost; resources are listed as the tenant; the temporary kubeconfig is
  removed. For the Reloader maps: an index invariant that every evaluation keeps. For the watchers: the list
  of kinds is right, sorted and independent of map order; a rebuild watches what is installed; the states of a running
  agent are well formed. For the controllers: Reconcile of a live and of a deleted object, finalizers
  included; the Reloader sets refine a relation; a change reaches everything that depends on it. For controllers and loops
  together: a reconciled Classifier, HealthCheck or EventSource has the right report after the round that took it from the queue,
  whatever the other jobs of the round did. For the start: the version is stored only after a round of every loop and
  can always still be stored, and the counter of the wait group stays in its bounds. For the
  program: the start of the controllers terminates; every pass of the main loop starts with a fresh manager; a flag has the
  last value given for it. Further theorems show where the code does not do what its comments say
  (lost jobs, panics, a wait group counted too late, watchers that are never cancelled, finalizers that are never stored, Secrets queued as ConfigMaps).

  Fuel. The retry loops (connecting to NATS, loading the messaging configuration, watching the Secrets, waiting
  for CRDs, storing the version, the watch for an expired token) have a number of attempts as argument and are
  \<open>None\<close> when it is used up. \<open>startControllers_total\<close> shows that one attempt more than the server has faults is
  enough. The main loop has a number of passes as argument: it never ends by itself, which is proved, so no number is enough. Every
  other loop is over a list.

  Parameters. The API server and its clients, discovery, semver, the Lua interpreter, NATS, the set library and the constants
  of libsveltos, controllerutil, the patch helper of cluster-api, the file system and the controller-runtime builders are
  arguments of the definitions; what the theorems need of them is a named contract, and \<open>Reference_Env\<close>,
  \<open>Api_Server\<close>, \<open>Object_Set\<close> and \<open>Controller_Utils\<close> have instances that meet it.

  Not modelled: the syntax of the command line (the library gives the flags' values), what the log settings library does, time,
  the interleaving inside a round (the controllers and a round change the queues, which is modelled, and the server, whose other
  clients are not), the tests, manifests and tools.
\<close>

section \<open>From a change in the cluster to the queues\<close>

text \<open>Which controllers have registered; queueing a job leaves it alone.\<close>

definition methods :: "manager \<Rightarrow> bool list" where
  "methods m = [reactClassifier m, reactHealthCheck m, reactEventSource m, reactReloader m]"

lemma methods_enqueue:
  "methods (fold (\<lambda>q. EvaluateClassifier (or_Name q)) rs m) = methods m"
  "methods (fold (\<lambda>q. EvaluateHealthCheck (or_Name q)) rs m) = methods m"
  "methods (fold (\<lambda>q. EvaluateEventSource (or_Name q)) rs m) = methods m"
  "methods (fold (\<lambda>q. EvaluateReloader L (or_Name q)) rs m) = methods m"
  by (induction rs arbitrary: m)
    (simp_all add: methods_def EvaluateClassifier_def EvaluateHealthCheck_def EvaluateEventSource_def EvaluateReloader_def)

text \<open>The four queues after a notification: every member of the sets of the kind has been added.\<close>

lemma react_queues:
  assumes "object_set S elems"
    and "reactClassifier m" "reactHealthCheck m" "reactEventSource m" "reactReloader m"
    and run: "react (as_method (Classifier_react S rc)) (as_method (HealthCheck_react S rh))
      (as_method (EventSource_react S re)) (as_method (Reloader_react S L rr)) N FromUnstructured g obj (m, w) =
      (r, (m', w'))"
  shows "keys (classifierJobQueue m') = or_Name ` members elems (GVKClassifiers rc) g \<union> keys (classifierJobQueue m)"
    and "keys (healthCheckJobQueue m') = or_Name ` members elems (GVKHealthChecks rh) g \<union> keys (healthCheckJobQueue m)"
    and "keys (eventSourceJobQueue m') = or_Name ` members elems (GVKEventSources re) g \<union> keys (eventSourceJobQueue m)"
    and "keys (reloaderJobQueue m') =
      (\<lambda>q. reloader_key L (or_Name q)) ` members elems (GVKReloaders rr) g \<union> keys (reloaderJobQueue m)"
    and "methods m' = methods m"
proof -
  obtain cs where cs: "as_method (Classifier_react S rc) g obj m = fold (\<lambda>q. EvaluateClassifier (or_Name q)) cs m"
    "set cs = members elems (GVKClassifiers rc) g"
    unfolding Classifier_react_def by (rule object_set.as_method_run [OF assms(1)])
  let ?m1 = "fold (\<lambda>q. EvaluateClassifier (or_Name q)) cs m"
  obtain hs where hs: "as_method (HealthCheck_react S rh) g obj ?m1 = fold (\<lambda>q. EvaluateHealthCheck (or_Name q)) hs ?m1"
    "set hs = members elems (GVKHealthChecks rh) g"
    unfolding HealthCheck_react_def by (rule object_set.as_method_run [OF assms(1)])
  let ?m2 = "fold (\<lambda>q. EvaluateHealthCheck (or_Name q)) hs ?m1"
  obtain es where es: "as_method (EventSource_react S re) g obj ?m2 = fold (\<lambda>q. EvaluateEventSource (or_Name q)) es ?m2"
    "set es = members elems (GVKEventSources re) g"
    unfolding EventSource_react_def by (rule object_set.as_method_run [OF assms(1)])
  let ?m3 = "fold (\<lambda>q. EvaluateEventSource (or_Name q)) es ?m2"
  obtain rs where rs: "as_method (Reloader_react S L rr) g obj ?m3 = fold (\<lambda>q. EvaluateReloader L (or_Name q)) rs ?m3"
    "set rs = members elems (GVKReloaders rr) g"
    unfolding Reloader_react_def by (rule object_set.as_method_run [OF assms(1)])
  have "m' = fold (\<lambda>q. EvaluateReloader L (or_Name q)) rs ?m3"
    using run assms(2-5) by (simp add: react_def cs hs es rs Let_def in_world_run split: prod.splits)
  then show "keys (classifierJobQueue m') = or_Name ` members elems (GVKClassifiers rc) g \<union> keys (classifierJobQueue m)"
    and "keys (healthCheckJobQueue m') = or_Name ` members elems (GVKHealthChecks rh) g \<union> keys (healthCheckJobQueue m)"
    and "keys (eventSourceJobQueue m') = or_Name ` members elems (GVKEventSources re) g \<union> keys (eventSourceJobQueue m)"
    and "keys (reloaderJobQueue m') =
      (\<lambda>q. reloader_key L (or_Name q)) ` members elems (GVKReloaders rr) g \<union> keys (reloaderJobQueue m)"
    and "methods m' = methods m"
    by (simp_all add: keys_enqueue methods_enqueue cs hs es rs)
qed

text \<open>An informer that delivers something leaves the queues as its first notification does: the rest add nothing.\<close>

lemma informer_queues:
  assumes S: "object_set S elems"
    and "reactClassifier m" "reactHealthCheck m" "reactEventSource m" "reactReloader m"
    and "foldA (\<lambda>_. handlers (react (as_method (Classifier_react S rc)) (as_method (HealthCheck_react S rh))
      (as_method (EventSource_react S re)) (as_method (Reloader_react S L rr)) N FromUnstructured) g) () (n # ns) (m, w) =
      (Ok (), (m', w'))"
  shows "keys (classifierJobQueue m') = or_Name ` members elems (GVKClassifiers rc) g \<union> keys (classifierJobQueue m) \<and>
    keys (healthCheckJobQueue m') = or_Name ` members elems (GVKHealthChecks rh) g \<union> keys (healthCheckJobQueue m) \<and>
    keys (eventSourceJobQueue m') = or_Name ` members elems (GVKEventSources re) g \<union> keys (eventSourceJobQueue m) \<and>
    keys (reloaderJobQueue m') =
      (\<lambda>q. reloader_key L (or_Name q)) ` members elems (GVKReloaders rr) g \<union> keys (reloaderJobQueue m)"
  using assms(2-6)
proof (induction ns arbitrary: n m w)
  case Nil
  then obtain obj where "react (as_method (Classifier_react S rc)) (as_method (HealthCheck_react S rh))
      (as_method (EventSource_react S re)) (as_method (Reloader_react S L rr)) N FromUnstructured g obj (m, w) =
      (Ok (), (m', w'))"
    by (cases n) (auto simp: call_def ret_def fail_def split: prod.splits outcome.splits)
  from react_queues [OF S Nil(1-4) this] show ?case by blast
next
  case (Cons n1 ns)
  then obtain obj m1 w1 where one: "react (as_method (Classifier_react S rc)) (as_method (HealthCheck_react S rh))
      (as_method (EventSource_react S re)) (as_method (Reloader_react S L rr)) N FromUnstructured g obj (m, w) =
      (Ok (), (m1, w1))"
    and rest: "foldA (\<lambda>_. handlers (react (as_method (Classifier_react S rc)) (as_method (HealthCheck_react S rh))
      (as_method (EventSource_react S re)) (as_method (Reloader_react S L rr)) N FromUnstructured) g) () (n1 # ns) (m1, w1) =
      (Ok (), (m', w'))"
    by (cases n) (auto simp: call_def fail_def split: prod.splits outcome.splits)
  note q = react_queues [OF S Cons.prems(1-4) one]
  from q(5) Cons.prems(1-4) have "reactClassifier m1" "reactHealthCheck m1" "reactEventSource m1" "reactReloader m1"
    by (simp_all add: methods_def)
  from Cons.IH [OF this rest] q(1-4) show ?case by auto
qed

lemma image_known:
  "(\<And>q x. K q = Some x \<Longrightarrow> f q = h x) \<Longrightarrow>
     f ` {q. \<exists>x. K q = Some x \<and> P x} = {h x | q x. K q = Some x \<and> P x}"
  by (auto simp: image_iff) metis

text \<open>The sets a controller has after it was told of the objects \<open>evs\<close>.\<close>

definition sets_after ::
  "'s set_ops \<Rightarrow> ('obj \<Rightarrow> object_reference) \<Rightarrow> ('obj \<Rightarrow> object_reference \<Rightarrow> (gvk, 's) gomap \<Rightarrow> (gvk, 's) gomap) \<Rightarrow>
   'obj told list \<Rightarrow> (gvk, 's) gomap" where
  "sets_after S ref upd evs = fold (tell (\<lambda>x. upd x (ref x)) (\<lambda>x. erase_everywhere S (ref x))) evs []"

text \<open>C1. A change in the cluster reaches everything that depends on it: when the informer of a kind delivers
  a change to the manager and the four controllers are registered, every Classifier, HealthCheck and EventSource that was
  reconciled last with a selector for that kind (and not deleted since) is on its queue afterwards, and a
  Reloader is put on its queue exactly if it was reconciled last with a workload of that kind.\<close>

theorem notification_reaches_all:
  assumes S: "object_set S elems"
    and known: "known_type Ec" "known_type Eh" "known_type Ee" "known_type Er"
    and sets: "GVKClassifiers rc = sets_after S (object_ref Ec) (classifier_index S) cs"
      "GVKHealthChecks rh = sets_after S (object_ref Eh) (healthcheck_index S) hs"
      "GVKEventSources re = sets_after S (object_ref Ee) (eventsource_index S) es"
      "GVKReloaders rr = sets_after S (object_ref Er) (reloader_index S L) rs"
    and on: "reactClassifier m" "reactHealthCheck m" "reactEventSource m" "reactReloader m"
    and run: "runInformer AddEventHandler g (react (as_method (Classifier_react S rc)) (as_method (HealthCheck_react S rh))
      (as_method (EventSource_react S re)) (as_method (Reloader_react S L rr)) N FromUnstructured) ns (m, w) =
      (Ok (), (m', w'))" and some: "ns \<noteq> []"
  shows "(\<forall>q c. Controllers.known (object_ref Ec) cs q = Some c \<longrightarrow> g \<in> classifier_gvks c \<longrightarrow>
      om_Name (metadata c) \<in> keys (classifierJobQueue m')) \<and>
    (\<forall>q h. Controllers.known (object_ref Eh) hs q = Some h \<longrightarrow> g \<in> selector_gvk ` set (hcs_ResourceSelectors (Spec h)) \<longrightarrow>
      om_Name (metadata h) \<in> keys (healthCheckJobQueue m')) \<and>
    (\<forall>q e. Controllers.known (object_ref Ee) es q = Some e \<longrightarrow> g \<in> selector_gvk ` set (ess_ResourceSelectors (Spec e)) \<longrightarrow>
      om_Name (metadata e) \<in> keys (eventSourceJobQueue m')) \<and>
    keys (reloaderJobQueue m') = keys (reloaderJobQueue m) \<union>
      {reloader_key L (om_Name (metadata rl)) | q rl. Controllers.known (object_ref Er) rs q = Some rl \<and>
         g \<in> keys (reloader_kinds L rl)}"
proof -
  from some obtain n ns' where ns: "ns = n # ns'"
    by (cases ns) simp_all
  from run obtain w1 where "foldA (\<lambda>_. handlers (react (as_method (Classifier_react S rc)) (as_method (HealthCheck_react S rh))
      (as_method (EventSource_react S re)) (as_method (Reloader_react S L rr)) N FromUnstructured) g) () (n # ns') (m, w1) =
      (Ok (), (m', w'))"
    by (auto simp: runInformer_def in_world_run ns call_def [of "in_world AddEventHandler"]
        simp del: foldA.simps split: prod.splits outcome.splits)
  note informer_queues [OF S on this]
  note queues = this [THEN conjunct1] this [THEN conjunct2, THEN conjunct1]
    this [THEN conjunct2, THEN conjunct2, THEN conjunct1] this [THEN conjunct2, THEN conjunct2, THEN conjunct2]
  have c: "om_Name (metadata c) \<in> keys (classifierJobQueue m')"
    if "Controllers.known (object_ref Ec) cs q = Some c" "g \<in> classifier_gvks c" for q c
    using watch_index.index_covers [OF object_set.classifier_watch_index [OF S] that] known_ref [OF that(1)]
      object_ref_name [OF known(1), of c] queues(1) by (auto simp: sets sets_after_def intro!: image_eqI [of _ _ q])
  have h: "om_Name (metadata h) \<in> keys (healthCheckJobQueue m')"
    if "Controllers.known (object_ref Eh) hs q = Some h" "g \<in> selector_gvk ` set (hcs_ResourceSelectors (Spec h))" for q h
    using watch_index.index_covers [OF object_set.healthcheck_watch_index [OF S] that] known_ref [OF that(1)]
      object_ref_name [OF known(2), of h] queues(2) by (auto simp: sets sets_after_def intro!: image_eqI [of _ _ q])
  have e: "om_Name (metadata e) \<in> keys (eventSourceJobQueue m')"
    if "Controllers.known (object_ref Ee) es q = Some e" "g \<in> selector_gvk ` set (ess_ResourceSelectors (Spec e))" for q e
    using watch_index.index_covers [OF object_set.eventsource_watch_index [OF S] that] known_ref [OF that(1)]
      object_ref_name [OF known(3), of e] queues(3) by (auto simp: sets sets_after_def intro!: image_eqI [of _ _ q])
  have "members elems (GVKReloaders rr) g =
      {q. \<exists>rl. Controllers.known (object_ref Er) rs q = Some rl \<and> g \<in> keys (reloader_kinds L rl)}"
    by (rule set_eqI)
      (simp only: sets sets_after_def mem_Collect_eq exact_index.index_exact [OF object_set.reloader_exact_index [OF S]])
  moreover have "reloader_key L (or_Name q) = reloader_key L (om_Name (metadata rl))"
    if "Controllers.known (object_ref Er) rs q = Some rl" for q rl
    using known_ref [OF that] object_ref_name [OF known(4), of rl] by simp
  note image_known [of "Controllers.known (object_ref Er) rs" "\<lambda>q. reloader_key L (or_Name q)"
      "\<lambda>rl. reloader_key L (om_Name (metadata rl))" "\<lambda>rl. g \<in> keys (reloader_kinds L rl)", OF this]
  ultimately have "keys (reloaderJobQueue m') = keys (reloaderJobQueue m) \<union>
      {reloader_key L (om_Name (metadata rl)) | q rl. Controllers.known (object_ref Er) rs q = Some rl \<and>
         g \<in> keys (reloader_kinds L rl)}"
    using queues(4) by (simp only: Un_commute)
  with c h e show ?thesis by blast
qed

text \<open>One Classifier that selects Pods, and a change of a Pod.\<close>

definition ref_registered :: manager where
  "ref_registered = RegisterClassifierMethod (RegisterHealthCheckMethod (RegisterEventSourceMethod
     (RegisterReloaderMethod (ref_manager True))))"

definition ref_rc :: "object_reference list ClassifierReconciler" where
  "ref_rc = \<lparr>GVKClassifiers = sets_after (list_set True) (object_ref ref_classifier_ctl) (classifier_index (list_set True))
     [Seen (ref_classifier [] [pod_selector])], VersionClassifiers = []\<rparr>"

definition ref_rr :: "object_reference list ReloaderReconciler" where
  "ref_rr = \<lparr>GVKReloaders = sets_after (list_set True) (object_ref ref_reloader_ctl) (reloader_index (list_set True) ref_lib)
     [Seen (ref_reloader [''DaemonSet''])]\<rparr>"

definition ref_notified :: "unit outcome \<times> manager \<times> ref_event_world" where
  "ref_notified = runInformer (ret ()) (GVK '''' ''v1'' ''Pod'') (react
     (as_method (Classifier_react (list_set True) ref_rc)) (as_method (HealthCheck_react (list_set True) \<lparr>GVKHealthChecks = []\<rparr>))
     (as_method (EventSource_react (list_set True) \<lparr>GVKEventSources = []\<rparr>)) (as_method (Reloader_react (list_set True) ref_lib ref_rr))
     ref_nats (\<lambda>_. ([], None))) [AddFunc None, DeleteFunc None] (ref_registered, ref_event_start)"

theorem notification_reaches_all_witness:
  "''c1'' \<in> keys (classifierJobQueue (fst (snd ref_notified))) \<and> keys (reloaderJobQueue (fst (snd ref_notified))) = {}"
proof -
  let ?c = "ref_classifier [] [pod_selector]" and ?r = "ref_reloader [''DaemonSet'']"
  have on: "reactClassifier ref_registered" "reactHealthCheck ref_registered" "reactEventSource ref_registered"
    "reactReloader ref_registered" and none: "reloaderJobQueue ref_registered = []"
    by (simp_all add: ref_registered_def manager_ops ref_manager_def InitializeManager_def)
  have sets: "GVKClassifiers ref_rc = sets_after (list_set True) (object_ref ref_classifier_ctl)
      (classifier_index (list_set True)) [Seen ?c]"
    "GVKHealthChecks \<lparr>GVKHealthChecks = []\<rparr> = sets_after (list_set True) (object_ref ref_healthcheck_ctl)
      (healthcheck_index (list_set True)) []"
    "GVKEventSources \<lparr>GVKEventSources = []\<rparr> = sets_after (list_set True) (object_ref ref_eventsource_ctl)
      (eventsource_index (list_set True)) []"
    "GVKReloaders ref_rr = sets_after (list_set True) (object_ref ref_reloader_ctl)
      (reloader_index (list_set True) ref_lib) [Seen ?r]"
    by (simp_all add: ref_rc_def ref_rr_def sets_after_def)
  have "fst ref_notified = Ok ()"
    by code_simp
  then have run: "ref_notified = (Ok (), (fst (snd ref_notified), snd (snd ref_notified)))"
    by (metis prod.collapse)
  note all = notification_reaches_all [OF lset.object_set_axioms ref_ctl_worlds(5) ref_ctl_worlds(6) ref_ctl_worlds(7)
      ref_ctl_worlds(8) sets on ref_notified_def [symmetric, THEN trans, OF run] list.distinct(2)]
  have k: "known (object_ref ref_classifier_ctl) [Seen ?c] (object_ref ref_classifier_ctl ?c) = Some ?c"
    by (simp add: known_def)
  have c: "GVK '''' ''v1'' ''Pod'' \<in> classifier_gvks ?c" "om_Name (metadata ?c) = ''c1''"
    by (simp_all add: classifier_gvks_def ref_classifier_def selector_gvk_def pod_selector_def)
  have r: "\<not> (known (object_ref ref_reloader_ctl) [Seen ?r] q = Some rl \<and>
      GVK '''' ''v1'' ''Pod'' \<in> keys (reloader_kinds ref_lib rl))" for q rl
    by (auto simp: known_def reloader_kinds_def ref_lib_def split: if_splits)
  have "om_Name (metadata ?c) \<in> keys (classifierJobQueue (fst (snd ref_notified)))"
    by (rule conjunct1 [OF all, rule_format, OF k c(1)])
  moreover have "keys (reloaderJobQueue (fst (snd ref_notified))) = {}"
    using all [THEN conjunct2, THEN conjunct2, THEN conjunct2] none r by auto
  ultimately show ?thesis unfolding c(2) by simp
qed

end
